theory Spec2Isabelle
  imports Main "HOL-Library.Word"
begin

unbundle bit_operations_syntax

section \<open>Common types\<close>

text \<open>
  Octets are 8-bit words; a C string is the list of its octets without the
  terminating NUL; a nullable \<^verbatim>\<open>const char *\<close> is an option.  The C types
  \<^verbatim>\<open>int\<close> and \<^verbatim>\<open>pid_t\<close> are modelled by \<^typ>\<open>int\<close>; every value that
  enters the model from the wire is produced by a 32-bit decoder and so lies
  in the range of the C type.
\<close>

type_synonym byte = "8 word"
type_synonym cstring = "byte list"

section \<open>The seccomp filter builder (spawn/SyscallFilter.cxx)\<close>

type_synonym scmp_datum_t = "64 word"

datatype scmp_compare = SCMP_CMP_LT | SCMP_CMP_GT | SCMP_CMP_EQ | SCMP_CMP_MASKED_EQ scmp_datum_t

text \<open>One argument comparison: argument index, operator, operand.\<close>

datatype scmp_arg_cmp = ArgCmp nat scmp_compare scmp_datum_t

datatype scmp_action = SCMP_ACT_KILL | SCMP_ACT_ERRNO int | SCMP_ACT_ALLOW

record seccomp_rule =
  rule_action :: scmp_action
  rule_syscall :: string
  rule_cmps :: "scmp_arg_cmp list"

type_synonym seccomp_filter = "seccomp_rule list"

text \<open>
  The exceptions of the filter builder: a \<^verbatim>\<open>std::system_error\<close> carrying an
  errno value, and the dereference of \<^verbatim>\<open>whitelist.begin()\<close> of an empty set,
  which has no defined behaviour in the source.
\<close>

datatype filter_error = SystemError int | EmptyWhitelist

definition EFAULT :: int where "EFAULT = 14"
definition EAFNOSUPPORT :: int where "EAFNOSUPPORT = 97"

definition AF_LOCAL :: scmp_datum_t where "AF_LOCAL = 1"
definition AF_INET :: scmp_datum_t where "AF_INET = 2"
definition AF_INET6 :: scmp_datum_t where "AF_INET6 = 10"

text \<open>
  \<^verbatim>\<open>Seccomp::Filter::AddRule\<close> belongs to the seccomp wrapper, which is not among
  the sources; the kernel's answer to \<^verbatim>\<open>seccomp_rule_add\<close> is the parameter
  \<open>k\<close>: \<open>None\<close> when the rule is accepted, \<open>Some e\<close> when the call fails with
  errno \<open>e\<close>.  An accepted rule is appended to the filter.
\<close>

definition AddRule ::
  "(seccomp_rule \<Rightarrow> int option) \<Rightarrow> seccomp_filter \<Rightarrow> seccomp_rule \<Rightarrow> filter_error + seccomp_filter"
where
  "AddRule k sf r = (case k r of None \<Rightarrow> Inr (sf @ [r]) | Some e \<Rightarrow> Inl (SystemError e))"

definition mk_rule :: "scmp_action \<Rightarrow> string \<Rightarrow> scmp_arg_cmp list \<Rightarrow> seccomp_rule" where
  "mk_rule a sc cs = \<lparr>rule_action = a, rule_syscall = sc, rule_cmps = cs\<rparr>"

text \<open>
  \<^verbatim>\<open>for (auto i = begin; i != end; ++i) sf.AddRule(action, syscall, arg == i);\<close>
  The loop counter is an unsigned 64-bit value and the loop ends on equality,
  so the distance \<open>end - begin\<close> (modulo \<open>2^64\<close>) is what decreases.
\<close>

function AddRange ::
  "(seccomp_rule \<Rightarrow> int option) \<Rightarrow> seccomp_filter \<Rightarrow> scmp_action \<Rightarrow> string \<Rightarrow> nat \<Rightarrow>
   scmp_datum_t \<Rightarrow> scmp_datum_t \<Rightarrow> filter_error + seccomp_filter"
where
  "AddRange k sf action syscall arg begin' end' =
     (if begin' = end' then Inr sf
      else case AddRule k sf (mk_rule action syscall [ArgCmp arg SCMP_CMP_EQ begin']) of
             Inl e \<Rightarrow> Inl e
           | Inr sf' \<Rightarrow> AddRange k sf' action syscall arg (begin' + 1) end')"
  by pat_completeness auto
termination
proof (relation "measure (\<lambda>(k, sf, action, syscall, arg, begin', end'). unat (end' - begin'))")
  show "wf (measure (\<lambda>(k, sf, action, syscall, arg, begin', end'). unat (end' - begin')))"
    by simp
next
  fix k :: "seccomp_rule \<Rightarrow> int option" and sf sf' :: seccomp_filter
    and action :: scmp_action and syscall :: string and arg :: nat
    and begin' end' :: scmp_datum_t
  assume ne: "begin' \<noteq> end'"
  have nz: "end' - begin' \<noteq> 0"
    using ne by simp
  have eq: "end' - (begin' + 1) = (end' - begin') - 1"
    by simp
  have lt: "unat ((end' - begin') - 1) < unat (end' - begin')"
    using nz by (simp add: unat_minus_one unat_gt_0)
  show "((k, sf', action, syscall, arg, begin' + 1, end'),
         (k, sf, action, syscall, arg, begin', end'))
        \<in> measure (\<lambda>(k, sf, action, syscall, arg, begin', end'). unat (end' - begin'))"
    by (simp only: in_measure prod.case eq lt)
qed

declare AddRange.simps [simp del]

text \<open>
  The loop of \<^verbatim>\<open>AddInverted\<close> over consecutive members \<open>i\<close>, \<open>next\<close> of the
  whitelist; it returns the filter after the last range and the final rule
  \<^verbatim>\<open>arg > *i\<close> for the largest member.
\<close>

fun AddInverted_loop ::
  "(seccomp_rule \<Rightarrow> int option) \<Rightarrow> seccomp_filter \<Rightarrow> scmp_action \<Rightarrow> string \<Rightarrow> nat \<Rightarrow>
   scmp_datum_t \<Rightarrow> scmp_datum_t list \<Rightarrow> filter_error + seccomp_filter"
where
  "AddInverted_loop k sf action syscall arg i [] =
     AddRule k sf (mk_rule action syscall [ArgCmp arg SCMP_CMP_GT i])"
| "AddInverted_loop k sf action syscall arg i (next' # rest) =
     (case AddRange k sf action syscall arg (i + 1) next' of
        Inl e \<Rightarrow> Inl e
      | Inr sf' \<Rightarrow> AddInverted_loop k sf' action syscall arg next' rest)"

text \<open>
  The whitelist is a \<^verbatim>\<open>std::set\<close>, iterated in ascending order: the list of
  its members, sorted and without duplicates.
\<close>

fun AddInverted ::
  "(seccomp_rule \<Rightarrow> int option) \<Rightarrow> seccomp_filter \<Rightarrow> scmp_action \<Rightarrow> string \<Rightarrow> nat \<Rightarrow>
   scmp_datum_t list \<Rightarrow> filter_error + seccomp_filter"
where
  "AddInverted k sf action syscall arg [] = Inl EmptyWhitelist"
| "AddInverted k sf action syscall arg (i # rest) =
     (case AddRule k sf (mk_rule action syscall [ArgCmp arg SCMP_CMP_LT i]) of
        Inl e \<Rightarrow> Inl e
      | Inr sf' \<Rightarrow> AddInverted_loop k sf' action syscall arg i rest)"

definition std_set :: "scmp_datum_t list \<Rightarrow> scmp_datum_t list" where
  "std_set xs = sort (remdups xs)"

definition allowed_socket_domains :: "scmp_datum_t list" where
  "allowed_socket_domains = std_set [AF_LOCAL, AF_INET, AF_INET6]"

text \<open>
  The unconditionally forbidden system calls, by name, in the order of the
  source (which lists \<^verbatim>\<open>stime\<close> twice); the entries under \<^verbatim>\<open>#ifdef\<close> are
  those of a kernel that defines them.
\<close>

definition forbidden_syscalls :: "string list" where
  "forbidden_syscalls =
    [''acct'', ''add_key'', ''adjtimex'', ''bpf'', ''clock_adjtime'', ''clock_settime'',
     ''create_module'', ''delete_module'', ''fanotify_init'', ''fanotify_mark'',
     ''finit_module'', ''get_kernel_syms'', ''get_mempolicy'', ''init_module'', ''ioperm'',
     ''iopl'', ''kcmp'', ''kexec_file_load'', ''kexec_load'', ''keyctl'', ''lookup_dcookie'',
     ''mbind'', ''move_pages'', ''name_to_handle_at'', ''nfsservctl'', ''perf_event_open'',
     ''personality'', ''process_vm_readv'', ''process_vm_writev'', ''ptrace'',
     ''query_module'', ''quotactl'', ''reboot'', ''request_key'', ''set_mempolicy'',
     ''setns'', ''settimeofday'', ''stime'', ''stime'', ''swapoff'', ''swapon'', ''sysfs'',
     ''syslog'', ''_sysctl'', ''uselib'', ''userfaultfd'', ''ustat'', ''vm86'', ''vm86old'']"

text \<open>
  The first loop of \<^verbatim>\<open>BuildSyscallFilter\<close>: a rule the kernel refuses with
  \<^verbatim>\<open>EFAULT\<close> is skipped, any other failure is rethrown.
\<close>

fun forbid_all ::
  "(seccomp_rule \<Rightarrow> int option) \<Rightarrow> seccomp_filter \<Rightarrow> string list \<Rightarrow> filter_error + seccomp_filter"
where
  "forbid_all k sf [] = Inr sf"
| "forbid_all k sf (i # rest) =
     (case AddRule k sf (mk_rule SCMP_ACT_KILL i []) of
        Inr sf' \<Rightarrow> forbid_all k sf' rest
      | Inl (SystemError e) \<Rightarrow> (if e = EFAULT then forbid_all k sf rest else Inl (SystemError e))
      | Inl EmptyWhitelist \<Rightarrow> Inl EmptyWhitelist)"

definition BuildSyscallFilter ::
  "(seccomp_rule \<Rightarrow> int option) \<Rightarrow> seccomp_filter \<Rightarrow> filter_error + seccomp_filter"
where
  "BuildSyscallFilter k sf =
     (case forbid_all k sf forbidden_syscalls of
        Inl e \<Rightarrow> Inl e
      | Inr sf' \<Rightarrow>
          AddInverted k sf' (SCMP_ACT_ERRNO EAFNOSUPPORT) ''socket'' 0 allowed_socket_domains)"

text \<open>
  When a rule applies to a system call.  The comparison operators are those of
  libseccomp (not part of the repository): unsigned comparisons of the 64-bit
  argument with the operand, and equality under a mask.
\<close>

fun cmp_matches :: "(nat \<Rightarrow> scmp_datum_t) \<Rightarrow> scmp_arg_cmp \<Rightarrow> bool" where
  "cmp_matches args (ArgCmp n SCMP_CMP_LT d) = (args n < d)"
| "cmp_matches args (ArgCmp n SCMP_CMP_GT d) = (args n > d)"
| "cmp_matches args (ArgCmp n SCMP_CMP_EQ d) = (args n = d)"
| "cmp_matches args (ArgCmp n (SCMP_CMP_MASKED_EQ m) d) = (args n AND m = d)"

definition rule_matches :: "seccomp_rule \<Rightarrow> string \<Rightarrow> (nat \<Rightarrow> scmp_datum_t) \<Rightarrow> bool" where
  "rule_matches r sc args = (rule_syscall r = sc \<and> list_all (cmp_matches args) (rule_cmps r))"

text \<open>The actions of all rules of a filter that apply to a call.\<close>

definition filter_actions ::
  "seccomp_filter \<Rightarrow> string \<Rightarrow> (nat \<Rightarrow> scmp_datum_t) \<Rightarrow> scmp_action list" where
  "filter_actions sf sc args = map rule_action (filter (\<lambda>r. rule_matches r sc args) sf)"

section \<open>The prepared child process (spawn/Prepared.hxx and the options it holds)\<close>

text \<open>
  The class declarations of the options are not among the sources; the records
  below hold the members that \<^verbatim>\<open>HandleExecMessage\<close> and
  \<^verbatim>\<open>ChildOptions::CopyTo\<close> assign.  The sizes of the fixed arrays are
  parameters, collected in the record \<open>limits\<close>.
\<close>

record limits =
  max_args :: nat
  max_env :: nat
  max_groups :: nat
  n_rlimits :: nat

record UidGid =
  uid :: nat
  gid :: nat
  groups :: "nat list"

text \<open>
  Modelled from the spec: a request that omitted uid/gid leaves the
  default-constructed value (uid 0, gid 0, no supplementary group);
  \<^verbatim>\<open>UidGid::IsEmpty\<close> itself is declared in a header that is not among the
  sources.  The group array is zero-terminated.
\<close>

definition UidGid_init :: "limits \<Rightarrow> UidGid" where
  "UidGid_init L = \<lparr>uid = 0, gid = 0, groups = replicate (max_groups L) 0\<rparr>"

definition UidGid_IsEmpty :: "UidGid \<Rightarrow> bool" where
  "UidGid_IsEmpty u = (uid u = 0 \<and> gid u = 0 \<and> (case groups u of [] \<Rightarrow> True | g # _ \<Rightarrow> g = 0))"

record MountList =
  mount_source :: cstring
  mount_target :: cstring
  mount_expand_source :: bool
  mount_writable :: bool
  mount_exec :: bool

record NamespaceOptions =
  enable_user :: bool
  enable_pid :: bool
  enable_network :: bool
  enable_ipc :: bool
  enable_mount :: bool
  network_namespace :: "cstring option"
  mount_proc :: bool
  writable_proc :: bool
  pivot_root :: "cstring option"
  mount_home :: "cstring option"
  home :: "cstring option"
  mount_tmp_tmpfs :: "cstring option"
  mount_tmpfs :: "cstring option"
  mounts :: "MountList list"
  hostname :: "cstring option"

definition NamespaceOptions_init :: NamespaceOptions where
  "NamespaceOptions_init =
     \<lparr>enable_user = False, enable_pid = False, enable_network = False, enable_ipc = False,
      enable_mount = False, network_namespace = None, mount_proc = False,
      writable_proc = False, pivot_root = None, mount_home = None, home = None,
      mount_tmp_tmpfs = None, mount_tmpfs = None, mounts = [], hostname = None\<rparr>"

record CgroupOptions =
  cgroup_name :: "cstring option"
  set_head :: "(cstring \<times> cstring) list"

text \<open>The resource limits: one optional raw \<^verbatim>\<open>struct rlimit\<close> per index.\<close>

type_synonym ResourceLimits = "cstring option list"

record PreparedChildProcess =
  args :: "cstring list"
  env :: "cstring list"
  stdin_fd :: int
  stdout_fd :: int
  stderr_fd :: int
  control_fd :: int
  stderr_path :: "cstring option"
  umask :: int
  tty :: bool
  refence :: "cstring option"
  ns :: NamespaceOptions
  cgroup :: CgroupOptions
  rlimits :: ResourceLimits
  uid_gid :: UidGid
  sched_idle :: bool
  ioprio_idle :: bool
  forbid_user_ns :: bool
  forbid_multicast :: bool
  forbid_bind :: bool
  no_new_privs :: bool
  priority :: int
  chroot :: "cstring option"
  chdir :: "cstring option"
  hook_info :: "cstring option"

text \<open>The default-constructed \<^verbatim>\<open>PreparedChildProcess\<close>.\<close>

definition PreparedChildProcess_init :: "limits \<Rightarrow> PreparedChildProcess" where
  "PreparedChildProcess_init L =
     \<lparr>args = [], env = [], stdin_fd = - 1, stdout_fd = - 1, stderr_fd = - 1, control_fd = - 1,
      stderr_path = None, umask = - 1, tty = False, refence = None,
      ns = NamespaceOptions_init,
      cgroup = \<lparr>cgroup_name = None, set_head = []\<rparr>,
      rlimits = replicate (n_rlimits L) None,
      uid_gid = UidGid_init L,
      sched_idle = False, ioprio_idle = False, forbid_user_ns = False,
      forbid_multicast = False, forbid_bind = False, no_new_privs = False,
      priority = 0, chroot = None, chdir = None, hook_info = None\<rparr>"

text \<open>
  Modelled from the spec: the member functions of \<^verbatim>\<open>PreparedChildProcess\<close>
  (Prepared.hxx, Prepared.cxx) are not among the sources.  Section 3: argv and
  environment are ordered sequences of strings; section 4.3: at most one
  descriptor per standard slot.  \<^verbatim>\<open>Append\<close> and \<^verbatim>\<open>PutEnv\<close> return a
  boolean that \<^verbatim>\<open>HandleExecMessage\<close> tests; they are modelled as pushing
  onto an array whose capacity is a parameter and reporting whether there was
  room.  The setters of the standard descriptors store the descriptor.  (The
  lifetime of descriptors, which the source manages by closing them, is not
  part of this model.)
\<close>

definition Append :: "limits \<Rightarrow> cstring \<Rightarrow> PreparedChildProcess \<Rightarrow> bool \<times> PreparedChildProcess" where
  "Append L a p = (if length (args p) < max_args L then (True, p\<lparr>args := args p @ [a]\<rparr>)
                   else (False, p))"

text \<open>Modelled from the spec: as \<^verbatim>\<open>Append\<close>, for the environment.\<close>

definition PutEnv :: "limits \<Rightarrow> cstring \<Rightarrow> PreparedChildProcess \<Rightarrow> bool \<times> PreparedChildProcess" where
  "PutEnv L e p = (if length (env p) < max_env L then (True, p\<lparr>env := env p @ [e]\<rparr>)
                   else (False, p))"

text \<open>Modelled from the spec: the four setters of the standard slots.\<close>

definition SetStdin :: "int \<Rightarrow> PreparedChildProcess \<Rightarrow> PreparedChildProcess" where
  "SetStdin fd p = p\<lparr>stdin_fd := fd\<rparr>"

definition SetStdout :: "int \<Rightarrow> PreparedChildProcess \<Rightarrow> PreparedChildProcess" where
  "SetStdout fd p = p\<lparr>stdout_fd := fd\<rparr>"

definition SetStderr :: "int \<Rightarrow> PreparedChildProcess \<Rightarrow> PreparedChildProcess" where
  "SetStderr fd p = p\<lparr>stderr_fd := fd\<rparr>"

definition SetControl :: "int \<Rightarrow> PreparedChildProcess \<Rightarrow> PreparedChildProcess" where
  "SetControl fd p = p\<lparr>control_fd := fd\<rparr>"

section \<open>Copying child options (spawn/ChildOptions.cxx)\<close>

record ChildOptions =
  co_stderr_path :: "cstring option"
  co_env :: "cstring list"
  co_cgroup :: CgroupOptions
  co_rlimits :: "ResourceLimits option"
  co_refence :: "cstring option"
  co_ns :: NamespaceOptions
  co_uid_gid :: UidGid
  co_umask :: int
  co_stderr_null :: bool
  co_stderr_jailed :: bool
  co_forbid_user_ns :: bool
  co_forbid_multicast :: bool
  co_forbid_bind :: bool
  co_no_new_privs :: bool

text \<open>
  The results of the two \<^verbatim>\<open>open\<close> calls that \<^verbatim>\<open>CopyTo\<close> may make are
  inputs of the model: the descriptor, or a negative value on failure.  The
  only exception \<^verbatim>\<open>CopyTo\<close> itself throws is the \<^verbatim>\<open>FormatErrno\<close> of a
  failed \<^verbatim>\<open>OpenStderrPath\<close>.  Under \<^verbatim>\<open>TRANSLATION_ENABLE_JAILCGI\<close> the jail
  wrapper (not among the sources) is first inserted into the destination; it
  is the parameter \<open>jail\<close>, \<open>None\<close> when the feature is compiled out, not
  requested or not configured.  The \<^verbatim>\<open>assert(stderr_path != nullptr)\<close> of the
  jailed branch is compiled out under \<^verbatim>\<open>NDEBUG\<close> and is not modelled: with no
  path, that branch copies the null pointer.
\<close>

datatype copy_error = OpenStderrFailed | JailError

record open_results =
  open_stderr_path :: int
  open_dev_null :: int

fun fold_PutEnv :: "limits \<Rightarrow> cstring list \<Rightarrow> PreparedChildProcess \<Rightarrow> PreparedChildProcess" where
  "fold_PutEnv L [] dest = dest"
| "fold_PutEnv L (e # es) dest = fold_PutEnv L es (snd (PutEnv L e dest))"

definition CopyTo_stderr ::
  "open_results \<Rightarrow> ChildOptions \<Rightarrow> PreparedChildProcess \<Rightarrow> copy_error + PreparedChildProcess"
where
  "CopyTo_stderr R src dest =
     (if co_stderr_jailed src then Inr (dest\<lparr>stderr_path := co_stderr_path src\<rparr>)
      else if co_stderr_path src \<noteq> None then
        (if open_stderr_path R < 0 then Inl OpenStderrFailed
         else Inr (SetStderr (open_stderr_path R) dest))
      else if co_stderr_null src then
        (if open_dev_null R \<ge> 0 then Inr (SetStderr (open_dev_null R) dest) else Inr dest)
      else Inr dest)"

definition CopyTo_rest :: "limits \<Rightarrow> ChildOptions \<Rightarrow> PreparedChildProcess \<Rightarrow> PreparedChildProcess" where
  "CopyTo_rest L src dest0 =
     (let dest = fold_PutEnv L (co_env src) dest0;
          dest = dest\<lparr>cgroup := co_cgroup src\<rparr>;
          dest = dest\<lparr>refence := co_refence src\<rparr>;
          dest = dest\<lparr>ns := co_ns src\<rparr>;
          dest = (case co_rlimits src of None \<Rightarrow> dest | Some r \<Rightarrow> dest\<lparr>rlimits := r\<rparr>);
          dest = dest\<lparr>uid_gid := co_uid_gid src\<rparr>;
          dest = dest\<lparr>forbid_user_ns := co_forbid_user_ns src\<rparr>;
          dest = dest\<lparr>forbid_multicast := co_forbid_multicast src\<rparr>;
          dest = dest\<lparr>forbid_bind := co_forbid_bind src\<rparr>;
          dest = dest\<lparr>no_new_privs := co_no_new_privs src\<rparr>
      in if \<not> co_forbid_user_ns src
         then dest\<lparr>ns := (ns dest)\<lparr>writable_proc := True\<rparr>\<rparr>
         else dest)"

definition CopyTo ::
  "limits \<Rightarrow> (PreparedChildProcess \<Rightarrow> copy_error + PreparedChildProcess) option \<Rightarrow>
   open_results \<Rightarrow> ChildOptions \<Rightarrow> PreparedChildProcess \<Rightarrow> copy_error + PreparedChildProcess"
where
  "CopyTo L jail R src dest0 =
     (case (case jail of None \<Rightarrow> Inr dest0 | Some InsertWrapper \<Rightarrow> InsertWrapper dest0) of
        Inl e \<Rightarrow> Inl e
      | Inr dest1 \<Rightarrow>
          (case CopyTo_stderr R src (dest1\<lparr>umask := co_umask src\<rparr>) of
             Inl e \<Rightarrow> Inl e
           | Inr dest2 \<Rightarrow> Inr (CopyTo_rest L src dest2)))"

text \<open>The default-constructed \<^verbatim>\<open>ChildOptions\<close>.\<close>

definition ChildOptions_init :: "limits \<Rightarrow> ChildOptions" where
  "ChildOptions_init L =
     \<lparr>co_stderr_path = None, co_env = [], co_cgroup = \<lparr>cgroup_name = None, set_head = []\<rparr>,
      co_rlimits = None, co_refence = None, co_ns = NamespaceOptions_init,
      co_uid_gid = UidGid_init L, co_umask = - 1, co_stderr_null = False,
      co_stderr_jailed = False, co_forbid_user_ns = False, co_forbid_multicast = False,
      co_forbid_bind = False, co_no_new_privs = False\<rparr>"

text \<open>The array sizes of the upstream headers, used for the concrete examples.\<close>

definition example_limits :: limits where
  "example_limits = \<lparr>max_args = 32, max_env = 32, max_groups = 32, n_rlimits = 16\<rparr>"

section \<open>The wire protocol (spawn/Protocol.hxx, spawn/Parser.hxx)\<close>

datatype SpawnRequestCommand = CONNECT | EXEC | KILL

datatype SpawnResponseCommand = CGROUPS_AVAILABLE | EXIT

datatype SpawnExecCommand =
    ARG | SETENV | UMASK | STDIN | STDOUT | STDERR | STDERR_PATH | CONTROL | TTY | REFENCE
  | USER_NS | PID_NS | NETWORK_NS | NETWORK_NS_NAME | IPC_NS | MOUNT_NS | MOUNT_PROC
  | WRITABLE_PROC | PIVOT_ROOT | MOUNT_HOME | MOUNT_TMP_TMPFS | MOUNT_TMPFS | BIND_MOUNT
  | HOSTNAME | RLIMIT | UID_GID | SCHED_IDLE | IOPRIO_IDLE | FORBID_USER_NS
  | FORBID_MULTICAST | FORBID_BIND | NO_NEW_PRIVS | CGROUP | CGROUP_SET | PRIORITY
  | CHROOT | CHDIR | HOOK_INFO

text \<open>
  The numeric values of the enumerations are declared in \<^verbatim>\<open>Protocol.hxx\<close>, which
  is not among the sources.  The model takes the numbering as a parameter: the
  cast of an octet to the enumeration gives \<open>Some c\<close> when the octet is the
  value of the enumerator \<open>c\<close> and \<open>None\<close> when it is the value of none.
\<close>

record protocol =
  request_command :: "byte \<Rightarrow> SpawnRequestCommand option"
  exec_command :: "byte \<Rightarrow> SpawnExecCommand option"
  proto_limits :: limits

text \<open>
  The two exceptional outcomes of handling a datagram:
  \<^verbatim>\<open>MalformedSpawnPayloadError\<close>, and an access outside an array, for which the
  source has no defined behaviour (the index of an \<^verbatim>\<open>RLIMIT\<close> sub-command is
  not checked; \<^verbatim>\<open>shift\<close> on an empty buffer).
\<close>

datatype spawn_error = MalformedSpawnPayloadError | OutOfBoundsAccess

definition bindE :: "'e + 'a \<Rightarrow> ('a \<Rightarrow> 'e + 'b) \<Rightarrow> 'e + 'b" where
  "bindE m f = (case m of Inl e \<Rightarrow> Inl e | Inr x \<Rightarrow> f x)"

text \<open>
  Modelled from the spec: the class \<^verbatim>\<open>SpawnPayload\<close> of \<^verbatim>\<open>Parser.hxx\<close> is not
  among the sources.  Following section 4.1, a \<^verbatim>\<open>byte\<close> is one octet, an
  \<^verbatim>\<open>int\<close> is fixed-width (four octets, little-endian), a string runs up to
  and including its NUL terminator, a \<^verbatim>\<open>T\<close> is the raw octets of a fixed-size
  record; reading past the end of the payload is a
  \<^verbatim>\<open>MalformedSpawnPayloadError\<close>.
\<close>

type_synonym SpawnPayload = "byte list"

text \<open>Modelled from the spec: a \<^verbatim>\<open>byte\<close>, one octet.\<close>

definition ReadByte :: "SpawnPayload \<Rightarrow> spawn_error + (byte \<times> SpawnPayload)" where
  "ReadByte pl = (case pl of [] \<Rightarrow> Inl MalformedSpawnPayloadError | b # bs \<Rightarrow> Inr (b, bs))"

text \<open>Modelled from the spec: a \<^verbatim>\<open>T\<close>, the raw octets of a record of \<open>n\<close> octets.\<close>

definition ReadT :: "nat \<Rightarrow> SpawnPayload \<Rightarrow> spawn_error + (byte list \<times> SpawnPayload)" where
  "ReadT n pl = (if length pl < n then Inl MalformedSpawnPayloadError
                 else Inr (take n pl, drop n pl))"

text \<open>The value of a little-endian sequence of octets, unsigned, and as a C \<^verbatim>\<open>int\<close>.\<close>

definition le_nat :: "byte list \<Rightarrow> nat" where
  "le_nat bs = foldr (\<lambda>b acc. unat b + 256 * acc) bs 0"

definition le_int32 :: "byte list \<Rightarrow> int" where
  "le_int32 bs = sint (word_of_nat (le_nat bs) :: 32 word)"

text \<open>Modelled from the spec: an \<^verbatim>\<open>int\<close>, four octets.\<close>

definition ReadInt :: "SpawnPayload \<Rightarrow> spawn_error + (int \<times> SpawnPayload)" where
  "ReadInt pl = bindE (ReadT 4 pl) (\<lambda>(bs, pl'). Inr (le_int32 bs, pl'))"

text \<open>Modelled from the spec: a string, up to and including the first NUL.\<close>

definition ReadString :: "SpawnPayload \<Rightarrow> spawn_error + (cstring \<times> SpawnPayload)" where
  "ReadString pl = (if 0 \<in> set pl
                    then Inr (takeWhile (\<lambda>b. b \<noteq> 0) pl, tl (dropWhile (\<lambda>b. b \<noteq> 0) pl))
                    else Inl MalformedSpawnPayloadError)"

text \<open>\<^verbatim>\<open>SpawnFdList::Get\<close>: the next attached descriptor, or the exception.\<close>

type_synonym SpawnFdList = "int list"

definition Get :: "SpawnFdList \<Rightarrow> spawn_error + (int \<times> SpawnFdList)" where
  "Get fds = (case fds of [] \<Rightarrow> Inl MalformedSpawnPayloadError | fd # rest \<Rightarrow> Inr (fd, rest))"

text \<open>
  \<^verbatim>\<open>Read(SpawnPayload &, ResourceLimits &)\<close>: the index is one octet and selects
  the array element without a check; then the raw \<^verbatim>\<open>struct rlimit\<close> (16
  octets) is read into it.
\<close>

definition Read_ResourceLimits ::
  "limits \<Rightarrow> SpawnPayload \<Rightarrow> ResourceLimits \<Rightarrow> spawn_error + (SpawnPayload \<times> ResourceLimits)"
where
  "Read_ResourceLimits L pl rl =
     bindE (ReadByte pl) (\<lambda>(i, pl1).
       if unat i \<ge> n_rlimits L then Inl OutOfBoundsAccess
       else bindE (ReadT 16 pl1) (\<lambda>(data, pl2). Inr (pl2, rl[unat i := Some data])))"

text \<open>
  \<^verbatim>\<open>for (size_t i = 0; i < n_groups; ++i) payload.ReadT(uid_gid.groups[i]);\<close>
  with the number of remaining iterations as the first argument.
\<close>

fun ReadGroups ::
  "nat \<Rightarrow> nat \<Rightarrow> SpawnPayload \<Rightarrow> nat list \<Rightarrow> spawn_error + (SpawnPayload \<times> nat list)"
where
  "ReadGroups 0 i pl gs = Inr (pl, gs)"
| "ReadGroups (Suc k) i pl gs =
     (case ReadT 4 pl of
        Inl e \<Rightarrow> Inl e
      | Inr (v, pl') \<Rightarrow> ReadGroups k (Suc i) pl' (gs[i := le_nat v]))"

definition Read_UidGid ::
  "limits \<Rightarrow> SpawnPayload \<Rightarrow> UidGid \<Rightarrow> spawn_error + (SpawnPayload \<times> UidGid)"
where
  "Read_UidGid L pl ug =
     bindE (ReadT 4 pl) (\<lambda>(u, pl1).
     bindE (ReadT 4 pl1) (\<lambda>(g, pl2).
     bindE (ReadByte pl2) (\<lambda>(nb, pl3).
       let n_groups = unat nb in
       if n_groups > max_groups L then Inl MalformedSpawnPayloadError
       else bindE (ReadGroups n_groups 0 pl3 (groups ug)) (\<lambda>(pl4, gs).
         Inr (pl4, ug\<lparr>uid := le_nat u, gid := le_nat g,
                        groups := (if n_groups < max_groups L then gs[n_groups := 0] else gs)\<rparr>)))))"

text \<open>
  One iteration of the loop of \<^verbatim>\<open>HandleExecMessage\<close> after the sub-command
  octet has been read: the body of the \<^verbatim>\<open>switch\<close> for an enumerated
  sub-command.
\<close>

definition set_ns ::
  "(NamespaceOptions \<Rightarrow> NamespaceOptions) \<Rightarrow> PreparedChildProcess \<Rightarrow> PreparedChildProcess" where
  "set_ns f p = p\<lparr>ns := f (ns p)\<rparr>"

definition read_string_into ::
  "(cstring \<Rightarrow> PreparedChildProcess \<Rightarrow> PreparedChildProcess) \<Rightarrow> SpawnPayload \<Rightarrow> SpawnFdList \<Rightarrow>
   PreparedChildProcess \<Rightarrow> spawn_error + (SpawnPayload \<times> SpawnFdList \<times> PreparedChildProcess)"
where
  "read_string_into f pl fds p = bindE (ReadString pl) (\<lambda>(s, pl'). Inr (pl', fds, f s p))"

definition get_fd_into ::
  "(int \<Rightarrow> PreparedChildProcess \<Rightarrow> PreparedChildProcess) \<Rightarrow> SpawnPayload \<Rightarrow> SpawnFdList \<Rightarrow>
   PreparedChildProcess \<Rightarrow> spawn_error + (SpawnPayload \<times> SpawnFdList \<times> PreparedChildProcess)"
where
  "get_fd_into f pl fds p = bindE (Get fds) (\<lambda>(fd, fds'). Inr (pl, fds', f fd p))"

fun HandleExecCommand ::
  "limits \<Rightarrow> SpawnExecCommand \<Rightarrow> SpawnPayload \<Rightarrow> SpawnFdList \<Rightarrow> PreparedChildProcess \<Rightarrow>
   spawn_error + (SpawnPayload \<times> SpawnFdList \<times> PreparedChildProcess)"
where
  "HandleExecCommand L ARG pl fds p =
     bindE (ReadString pl) (\<lambda>(s, pl').
       case Append L s p of (True, p') \<Rightarrow> Inr (pl', fds, p')
                          | (False, p') \<Rightarrow> Inl MalformedSpawnPayloadError)"
| "HandleExecCommand L SETENV pl fds p =
     bindE (ReadString pl) (\<lambda>(s, pl').
       case PutEnv L s p of (True, p') \<Rightarrow> Inr (pl', fds, p')
                          | (False, p') \<Rightarrow> Inl MalformedSpawnPayloadError)"
| "HandleExecCommand L UMASK pl fds p =
     bindE (ReadT 2 pl) (\<lambda>(v, pl'). Inr (pl', fds, p\<lparr>umask := int (le_nat v)\<rparr>))"
| "HandleExecCommand L STDIN pl fds p = get_fd_into SetStdin pl fds p"
| "HandleExecCommand L STDOUT pl fds p = get_fd_into SetStdout pl fds p"
| "HandleExecCommand L STDERR pl fds p = get_fd_into SetStderr pl fds p"
| "HandleExecCommand L STDERR_PATH pl fds p =
     read_string_into (\<lambda>s p. p\<lparr>stderr_path := Some s\<rparr>) pl fds p"
| "HandleExecCommand L CONTROL pl fds p = get_fd_into SetControl pl fds p"
| "HandleExecCommand L TTY pl fds p = Inr (pl, fds, p\<lparr>tty := True\<rparr>)"
| "HandleExecCommand L REFENCE pl fds p =
     read_string_into (\<lambda>s p. p\<lparr>refence := Some s\<rparr>) pl fds p"
| "HandleExecCommand L USER_NS pl fds p = Inr (pl, fds, set_ns (\<lambda>n. n\<lparr>enable_user := True\<rparr>) p)"
| "HandleExecCommand L PID_NS pl fds p = Inr (pl, fds, set_ns (\<lambda>n. n\<lparr>enable_pid := True\<rparr>) p)"
| "HandleExecCommand L NETWORK_NS pl fds p =
     Inr (pl, fds, set_ns (\<lambda>n. n\<lparr>enable_network := True\<rparr>) p)"
| "HandleExecCommand L NETWORK_NS_NAME pl fds p =
     read_string_into (\<lambda>s. set_ns (\<lambda>n. n\<lparr>network_namespace := Some s\<rparr>)) pl fds p"
| "HandleExecCommand L IPC_NS pl fds p = Inr (pl, fds, set_ns (\<lambda>n. n\<lparr>enable_ipc := True\<rparr>) p)"
| "HandleExecCommand L MOUNT_NS pl fds p =
     Inr (pl, fds, set_ns (\<lambda>n. n\<lparr>enable_mount := True\<rparr>) p)"
| "HandleExecCommand L MOUNT_PROC pl fds p =
     Inr (pl, fds, set_ns (\<lambda>n. n\<lparr>mount_proc := True\<rparr>) p)"
| "HandleExecCommand L WRITABLE_PROC pl fds p =
     Inr (pl, fds, set_ns (\<lambda>n. n\<lparr>writable_proc := True\<rparr>) p)"
| "HandleExecCommand L PIVOT_ROOT pl fds p =
     read_string_into (\<lambda>s. set_ns (\<lambda>n. n\<lparr>pivot_root := Some s\<rparr>)) pl fds p"
| "HandleExecCommand L MOUNT_HOME pl fds p =
     bindE (ReadString pl) (\<lambda>(s1, pl1).
     bindE (ReadString pl1) (\<lambda>(s2, pl2).
       Inr (pl2, fds, set_ns (\<lambda>n. n\<lparr>mount_home := Some s1, home := Some s2\<rparr>) p)))"
| "HandleExecCommand L MOUNT_TMP_TMPFS pl fds p =
     read_string_into (\<lambda>s. set_ns (\<lambda>n. n\<lparr>mount_tmp_tmpfs := Some s\<rparr>)) pl fds p"
| "HandleExecCommand L MOUNT_TMPFS pl fds p =
     read_string_into (\<lambda>s. set_ns (\<lambda>n. n\<lparr>mount_tmpfs := Some s\<rparr>)) pl fds p"
| "HandleExecCommand L BIND_MOUNT pl fds p =
     bindE (ReadString pl) (\<lambda>(src, pl1).
     bindE (ReadString pl1) (\<lambda>(tgt, pl2).
     bindE (ReadByte pl2) (\<lambda>(w, pl3).
     bindE (ReadByte pl3) (\<lambda>(x, pl4).
       Inr (pl4, fds,
            set_ns (\<lambda>n. n\<lparr>mounts := mounts n @
              [\<lparr>mount_source = src, mount_target = tgt, mount_expand_source = False,
                mount_writable = (w \<noteq> 0), mount_exec = (x \<noteq> 0)\<rparr>]\<rparr>) p)))))"
| "HandleExecCommand L HOSTNAME pl fds p =
     read_string_into (\<lambda>s. set_ns (\<lambda>n. n\<lparr>hostname := Some s\<rparr>)) pl fds p"
| "HandleExecCommand L RLIMIT pl fds p =
     bindE (Read_ResourceLimits L pl (rlimits p)) (\<lambda>(pl', rl). Inr (pl', fds, p\<lparr>rlimits := rl\<rparr>))"
| "HandleExecCommand L UID_GID pl fds p =
     bindE (Read_UidGid L pl (uid_gid p)) (\<lambda>(pl', ug). Inr (pl', fds, p\<lparr>uid_gid := ug\<rparr>))"
| "HandleExecCommand L SCHED_IDLE pl fds p = Inr (pl, fds, p\<lparr>sched_idle := True\<rparr>)"
| "HandleExecCommand L IOPRIO_IDLE pl fds p = Inr (pl, fds, p\<lparr>ioprio_idle := True\<rparr>)"
| "HandleExecCommand L FORBID_USER_NS pl fds p = Inr (pl, fds, p\<lparr>forbid_user_ns := True\<rparr>)"
| "HandleExecCommand L FORBID_MULTICAST pl fds p = Inr (pl, fds, p\<lparr>forbid_multicast := True\<rparr>)"
| "HandleExecCommand L FORBID_BIND pl fds p = Inr (pl, fds, p\<lparr>forbid_bind := True\<rparr>)"
| "HandleExecCommand L NO_NEW_PRIVS pl fds p = Inr (pl, fds, p\<lparr>no_new_privs := True\<rparr>)"
| "HandleExecCommand L CGROUP pl fds p =
     read_string_into (\<lambda>s p. p\<lparr>cgroup := (cgroup p)\<lparr>cgroup_name := Some s\<rparr>\<rparr>) pl fds p"
| "HandleExecCommand L CGROUP_SET pl fds p =
     bindE (ReadString pl) (\<lambda>(set_name, pl1).
     bindE (ReadString pl1) (\<lambda>(set_value, pl2).
       Inr (pl2, fds, p\<lparr>cgroup := (cgroup p)\<lparr>set_head := (set_name, set_value) # set_head (cgroup p)\<rparr>\<rparr>)))"
| "HandleExecCommand L PRIORITY pl fds p =
     bindE (ReadInt pl) (\<lambda>(v, pl'). Inr (pl', fds, p\<lparr>priority := v\<rparr>))"
| "HandleExecCommand L CHROOT pl fds p =
     read_string_into (\<lambda>s p. p\<lparr>chroot := Some s\<rparr>) pl fds p"
| "HandleExecCommand L CHDIR pl fds p =
     read_string_into (\<lambda>s p. p\<lparr>chdir := Some s\<rparr>) pl fds p"
| "HandleExecCommand L HOOK_INFO pl fds p =
     read_string_into (\<lambda>s p. p\<lparr>hook_info := Some s\<rparr>) pl fds p"

text \<open>
  Every reader returns a suffix of the payload it was given; this is what makes
  the decoding loop terminate.
\<close>

lemma ReadByte_length: "ReadByte pl = Inr (b, pl') \<Longrightarrow> length pl' \<le> length pl"
  by (auto simp: ReadByte_def split: list.splits)

lemma ReadT_length: "ReadT n pl = Inr (bs, pl') \<Longrightarrow> length pl' \<le> length pl"
  by (auto simp: ReadT_def split: if_splits)

lemma ReadInt_length: "ReadInt pl = Inr (v, pl') \<Longrightarrow> length pl' \<le> length pl"
  by (auto simp: ReadInt_def bindE_def dest: ReadT_length split: sum.splits)

lemma ReadString_length: "ReadString pl = Inr (s, pl') \<Longrightarrow> length pl' \<le> length pl"
proof -
  have "length (dropWhile (\<lambda>b. b \<noteq> 0) pl) \<le> length pl"
    by (rule length_dropWhile_le)
  moreover assume "ReadString pl = Inr (s, pl')"
  ultimately show ?thesis
    by (auto simp: ReadString_def split: if_splits)
qed

lemma ReadGroups_length: "ReadGroups k i pl gs = Inr (pl', gs') \<Longrightarrow> length pl' \<le> length pl"
proof (induction k arbitrary: i pl gs)
  case 0
  then show ?case by simp
next
  case (Suc k)
  from Suc.prems obtain v pl1 where r: "ReadT 4 pl = Inr (v, pl1)"
    and g: "ReadGroups k (Suc i) pl1 (gs[i := le_nat v]) = Inr (pl', gs')"
    by (auto split: sum.splits)
  from Suc.IH[OF g] ReadT_length[OF r] show ?case by simp
qed

lemma Read_UidGid_length: "Read_UidGid L pl ug = Inr (pl', ug') \<Longrightarrow> length pl' \<le> length pl"
  by (fastforce simp: Read_UidGid_def bindE_def Let_def
        dest: ReadT_length ReadByte_length ReadGroups_length split: sum.splits if_splits)

lemma Read_ResourceLimits_length:
  "Read_ResourceLimits L pl rl = Inr (pl', rl') \<Longrightarrow> length pl' \<le> length pl"
  by (fastforce simp: Read_ResourceLimits_def bindE_def
        dest: ReadT_length ReadByte_length split: sum.splits if_splits)

lemma read_string_into_length:
  "read_string_into f pl fds p = Inr (pl', fds', p') \<Longrightarrow> length pl' \<le> length pl"
  by (auto simp: read_string_into_def bindE_def dest: ReadString_length split: sum.splits)

lemma get_fd_into_length:
  "get_fd_into f pl fds p = Inr (pl', fds', p') \<Longrightarrow> length pl' \<le> length pl"
  by (auto simp: get_fd_into_def bindE_def split: sum.splits)

lemma read_two_strings_length:
  "bindE (ReadString pl) (\<lambda>(s1, pl1). bindE (ReadString pl1) (\<lambda>(s2, pl2). Inr (pl2, f s1 s2)))
     = Inr (pl', r) \<Longrightarrow> length pl' \<le> length pl"
  by (fastforce simp: bindE_def dest: ReadString_length split: sum.splits)

lemma HandleExecCommand_length:
  assumes "HandleExecCommand L c pl fds p = Inr (pl', fds', p')"
  shows "length pl' \<le> length pl"
proof (cases c)
  case ARG
  with assms show ?thesis
    by (fastforce simp: bindE_def dest: ReadString_length split: sum.splits bool.splits prod.splits)
next
  case SETENV
  with assms show ?thesis
    by (fastforce simp: bindE_def dest: ReadString_length split: sum.splits bool.splits prod.splits)
next
  case UMASK
  with assms show ?thesis
    by (fastforce simp: bindE_def dest: ReadT_length split: sum.splits)
next
  case MOUNT_HOME
  with assms show ?thesis
    by (fastforce simp: bindE_def dest: ReadString_length split: sum.splits)
next
  case BIND_MOUNT
  with assms show ?thesis
    by (fastforce simp: bindE_def dest: ReadString_length ReadByte_length split: sum.splits)
next
  case RLIMIT
  with assms show ?thesis
    by (fastforce simp: bindE_def dest: Read_ResourceLimits_length split: sum.splits)
next
  case UID_GID
  with assms show ?thesis
    by (fastforce simp: bindE_def dest: Read_UidGid_length split: sum.splits)
next
  case CGROUP_SET
  with assms show ?thesis
    by (fastforce simp: bindE_def dest: ReadString_length split: sum.splits)
next
  case PRIORITY
  with assms show ?thesis
    by (fastforce simp: bindE_def dest: ReadInt_length split: sum.splits)
qed (use assms in \<open>auto dest: read_string_into_length get_fd_into_length\<close>)

text \<open>
  \<^verbatim>\<open>while (!payload.IsEmpty()) { cmd = (SpawnExecCommand)payload.ReadByte(); switch (cmd) ... }\<close>
  The \<^verbatim>\<open>switch\<close> has no \<^verbatim>\<open>default\<close> label: for an octet that is the value
  of no enumerator no case is selected and the loop goes on with the next
  octet.
\<close>

function exec_loop ::
  "protocol \<Rightarrow> SpawnPayload \<Rightarrow> SpawnFdList \<Rightarrow> PreparedChildProcess \<Rightarrow>
   spawn_error + (SpawnFdList \<times> PreparedChildProcess)"
where
  "exec_loop P [] fds p = Inr (fds, p)"
| "exec_loop P (b # bs) fds p =
     (case exec_command P b of
        None \<Rightarrow> exec_loop P bs fds p
      | Some cmd \<Rightarrow>
          (case HandleExecCommand (proto_limits P) cmd bs fds p of
             Inl e \<Rightarrow> Inl e
           | Inr (pl', fds', p') \<Rightarrow> exec_loop P pl' fds' p'))"
  by pat_completeness auto
termination
proof (relation "measure (\<lambda>(P, pl, fds, p). length pl)")
  show "wf (measure (\<lambda>(P, pl, fds, p). length pl))"
    by simp
next
  fix P :: protocol and b :: byte and bs :: SpawnPayload and fds :: SpawnFdList
    and p :: PreparedChildProcess
  show "((P, bs, fds, p), (P, b # bs, fds, p)) \<in> measure (\<lambda>(P, pl, fds, p). length pl)"
    by simp
next
  fix P :: protocol and b :: byte and bs pl' :: SpawnPayload and fds fds' :: SpawnFdList
    and p p' :: PreparedChildProcess and cmd :: SpawnExecCommand
    and x :: "SpawnPayload \<times> SpawnFdList \<times> PreparedChildProcess"
    and y :: "SpawnFdList \<times> PreparedChildProcess"
  assume "HandleExecCommand (proto_limits P) cmd bs fds p = Inr x"
    and "(pl', y) = x" and "(fds', p') = y"
  then have "HandleExecCommand (proto_limits P) cmd bs fds p = Inr (pl', fds', p')"
    by simp
  then have "length pl' \<le> length bs"
    by (rule HandleExecCommand_length)
  then show "((P, pl', fds', p'), (P, b # bs, fds, p)) \<in> measure (\<lambda>(P, pl, fds, p). length pl)"
    by simp
qed

declare exec_loop.simps [simp del]

section \<open>The spawn server (spawn/Server.cxx)\<close>

subsection \<open>State, environment and trace\<close>

text \<open>
  The server is a single-threaded event loop; its methods are modelled as
  functions on the state of the \<^verbatim>\<open>SpawnServerProcess\<close>.  A connection is
  identified by its descriptor.  The set of children of a connection
  (\<^verbatim>\<open>ChildIdMap\<close>, a \<^verbatim>\<open>boost::intrusive::set\<close> ordered by id) is the list
  of its elements in ascending order of id, without duplicate ids.
\<close>

record SpawnServerChild =
  child_id :: int
  child_pid :: int
  child_name :: cstring

record SpawnServerConnection =
  conn_fd :: int
  children :: "SpawnServerChild list"

text \<open>
  An entry of the child process registry (spawn/Registry.hxx): the listener
  is a pointer to a \<^verbatim>\<open>SpawnServerChild\<close>, given by the descriptor of the
  connection that owns it and the child object; \<open>kill_timeout_armed\<close> says
  whether \<^verbatim>\<open>kill_timeout_event\<close> is pending.
\<close>

record ChildProcess =
  cp_pid :: int
  cp_name :: cstring
  cp_listener :: "(int \<times> SpawnServerChild) option"
  kill_timeout_armed :: bool

record ChildProcessRegistry =
  reg_children :: "ChildProcess list"
  volatile_event :: bool
  sigchld_enabled :: bool

text \<open>
  \<^verbatim>\<open>SpawnConfig\<close> and \<^verbatim>\<open>SpawnHook\<close> are declared in headers that are not among
  the sources.  \<open>config_verify\<close> is \<^verbatim>\<open>SpawnConfig::Verify\<close>: \<open>True\<close> when the
  call returns, \<open>False\<close> when it throws.  A hook's \<^verbatim>\<open>Verify\<close> returns a
  boolean or throws a \<^verbatim>\<open>std::exception\<close>.
\<close>

datatype hook_result = HookReturns bool | HookThrows

record SpawnConfig =
  default_uid_gid :: UidGid
  config_verify :: "UidGid \<Rightarrow> bool"

text \<open>The serialised response: the command and the integers written after it.\<close>

datatype frame = Frame SpawnResponseCommand "int list"

datatype send_result = Sent | SendFailed int

text \<open>
  The trace lists, in program order, the calls the server makes to the
  operating system and to its collaborators, and the destruction of child
  objects:
  \<^item> \<open>EvSendmsg fd f r\<close>: \<^verbatim>\<open>sendmsg\<close> of frame \<open>f\<close> on \<open>fd\<close> with outcome \<open>r\<close>;
  \<^item> \<open>EvPpoll fd events sec nsec all_masked ret\<close>: one \<^verbatim>\<open>ppoll\<close> on \<open>fd\<close> with
    the given timeout, \<open>all_masked\<close> when the signal mask is full, returning \<open>ret\<close>;
  \<^item> \<open>EvLog level\<close>: a log line; \<open>EvPrintException\<close>: \<^verbatim>\<open>PrintException\<close>;
  \<^item> \<open>EvEventAdd\<close>, \<open>EvEventDelete\<close>, \<open>EvClose\<close>: the socket event and the
    descriptor of a connection;
  \<^item> \<open>EvKill pid signo\<close>: a signal sent by the registry;
  \<^item> \<open>EvDeleteChild c\<close>: \<^verbatim>\<open>delete child\<close>;
  \<^item> \<open>EvHookVerify\<close>, \<open>EvConfigVerify\<close>, \<open>EvSpawnChildProcess\<close>: the calls of
    the hook, of \<^verbatim>\<open>SpawnConfig::Verify\<close> and of \<^verbatim>\<open>SpawnChildProcess\<close> with
    their outcomes.
\<close>

datatype event =
    EvSendmsg int frame send_result
  | EvPpoll int int nat nat bool int
  | EvLog nat
  | EvPrintException
  | EvEventAdd int
  | EvEventDelete int
  | EvClose int
  | EvKill int int
  | EvDeleteChild SpawnServerChild
  | EvHookVerify hook_result
  | EvConfigVerify UidGid bool
  | EvSpawnChildProcess PreparedChildProcess "int option"

record SpawnServerProcess =
  config :: SpawnConfig
  hook :: "(PreparedChildProcess \<Rightarrow> hook_result) option"
  connections :: "SpawnServerConnection list"
  child_process_registry :: ChildProcessRegistry
  trace :: "event list"

text \<open>
  What the operating system answers during the handling of one event: the
  outcome of the first \<^verbatim>\<open>sendmsg\<close> of an EXIT frame, the return value of
  \<^verbatim>\<open>ppoll\<close>, the outcome of the second \<^verbatim>\<open>sendmsg\<close>, and the result of
  \<^verbatim>\<open>SpawnChildProcess\<close> (the pid, or \<open>None\<close> when it throws).
\<close>

record environment =
  send_first :: send_result
  ppoll_result :: int
  send_retry :: send_result
  spawn_result :: "int option"

definition EAGAIN :: int where "EAGAIN = 11"
definition POLLOUT :: int where "POLLOUT = 4"
definition SIGKILL :: int where "SIGKILL = 9"
definition SIGTERM :: int where "SIGTERM = 15"

text \<open>\<^verbatim>\<open>W_EXITCODE(ret, sig)\<close> is \<^verbatim>\<open>(ret) << 8 | (sig)\<close>.\<close>

definition W_EXITCODE :: "int \<Rightarrow> int \<Rightarrow> int" where
  "W_EXITCODE ret sig = push_bit 8 ret OR sig"

definition emit :: "event list \<Rightarrow> SpawnServerProcess \<Rightarrow> SpawnServerProcess" where
  "emit evs s = s\<lparr>trace := trace s @ evs\<rparr>"

definition find_connection :: "int \<Rightarrow> SpawnServerProcess \<Rightarrow> SpawnServerConnection option" where
  "find_connection fd s = find (\<lambda>c. conn_fd c = fd) (connections s)"

definition children_of :: "int \<Rightarrow> SpawnServerProcess \<Rightarrow> SpawnServerChild list" where
  "children_of fd s = (case find_connection fd s of None \<Rightarrow> [] | Some c \<Rightarrow> children c)"

definition update_children ::
  "int \<Rightarrow> (SpawnServerChild list \<Rightarrow> SpawnServerChild list) \<Rightarrow> SpawnServerProcess \<Rightarrow> SpawnServerProcess"
where
  "update_children fd f s =
     s\<lparr>connections := map (\<lambda>c. if conn_fd c = fd then c\<lparr>children := f (children c)\<rparr> else c)
                            (connections s)\<rparr>"

text \<open>The operations of \<^verbatim>\<open>ChildIdMap\<close>; \<^verbatim>\<open>insert\<close> leaves the set alone when the id is taken.\<close>

definition find_child :: "int \<Rightarrow> SpawnServerChild list \<Rightarrow> SpawnServerChild option" where
  "find_child i cs = find (\<lambda>c. child_id c = i) cs"

definition erase_child :: "int \<Rightarrow> SpawnServerChild list \<Rightarrow> SpawnServerChild list" where
  "erase_child i cs = filter (\<lambda>c. child_id c \<noteq> i) cs"

definition insert_child :: "SpawnServerChild \<Rightarrow> SpawnServerChild list \<Rightarrow> SpawnServerChild list" where
  "insert_child c cs = (if find_child (child_id c) cs \<noteq> None then cs
                        else insort_key child_id c cs)"

subsection \<open>The child process registry (spawn/Registry.hxx)\<close>

text \<open>\<^verbatim>\<open>CheckVolatileEvent\<close> and \<^verbatim>\<open>SetVolatile\<close>, from the header.\<close>

definition CheckVolatileEvent :: "ChildProcessRegistry \<Rightarrow> ChildProcessRegistry" where
  "CheckVolatileEvent r =
     (if volatile_event r \<and> reg_children r = [] then r\<lparr>sigchld_enabled := False\<rparr> else r)"

definition SetVolatile :: "ChildProcessRegistry \<Rightarrow> ChildProcessRegistry" where
  "SetVolatile r = CheckVolatileEvent (r\<lparr>volatile_event := True\<rparr>)"

text \<open>
  Modelled from the spec: the bodies of \<^verbatim>\<open>ChildProcessRegistry::Add\<close> and
  \<^verbatim>\<open>ChildProcessRegistry::Kill\<close> (Registry.cxx) are not among the sources.
  Section 4.5: \<^verbatim>\<open>add(pid, name, listener)\<close> inserts and arms nothing;
  \<^verbatim>\<open>kill(pid, signo)\<close> sends the signal and, for \<^verbatim>\<open>SIGTERM\<close> or \<^verbatim>\<open>SIGKILL\<close>,
  arms the kill timeout; the entry stays until the process is reaped.  The
  header adds that \<^verbatim>\<open>Kill\<close> unregisters the child: its exit listener is
  cleared.  The children are keyed by pid.
\<close>

definition Registry_Add ::
  "int \<Rightarrow> cstring \<Rightarrow> (int \<times> SpawnServerChild) \<Rightarrow> SpawnServerProcess \<Rightarrow> SpawnServerProcess"
where
  "Registry_Add pid name' l s =
     (let r = child_process_registry s in
      if find (\<lambda>c. cp_pid c = pid) (reg_children r) \<noteq> None then s
      else s\<lparr>child_process_registry :=
                r\<lparr>reg_children := reg_children r @
                     [\<lparr>cp_pid = pid, cp_name = name', cp_listener = Some l,
                       kill_timeout_armed = False\<rparr>]\<rparr>\<rparr>)"

text \<open>
  Modelled from the spec: \<^verbatim>\<open>ChildProcessRegistry::Kill\<close>, as described above.
  All entries for the pid are updated; the signal is sent in any case.
\<close>

definition Registry_Kill :: "int \<Rightarrow> int \<Rightarrow> SpawnServerProcess \<Rightarrow> SpawnServerProcess" where
  "Registry_Kill pid signo s =
     (let r = child_process_registry s;
          upd = (\<lambda>c. if cp_pid c = pid
                      then c\<lparr>cp_listener := None,
                             kill_timeout_armed :=
                               (signo = SIGTERM \<or> signo = SIGKILL \<or> kill_timeout_armed c)\<rparr>
                      else c)
      in emit [EvKill pid signo]
           (s\<lparr>child_process_registry := r\<lparr>reg_children := map upd (reg_children r)\<rparr>\<rparr>))"

subsection \<open>Connections\<close>

text \<open>\<^verbatim>\<open>SpawnServerProcess::AddConnection\<close> with the constructor of the connection.\<close>

definition AddConnection :: "int \<Rightarrow> SpawnServerProcess \<Rightarrow> SpawnServerProcess" where
  "AddConnection fd s =
     emit [EvEventAdd fd] (s\<lparr>connections := connections s @ [\<lparr>conn_fd = fd, children = []\<rparr>]\<rparr>)"

text \<open>
  The destructor of a connection: the event is deleted, the descriptor closed,
  and \<^verbatim>\<open>clear_and_dispose\<close> empties the child set, calling for each child
  \<^verbatim>\<open>child->Kill(registry, SIGTERM)\<close> and then \<^verbatim>\<open>delete child\<close>.  The function
  returns the connection object as the destructor leaves it, and the state.
\<close>

fun dispose_children :: "SpawnServerChild list \<Rightarrow> SpawnServerProcess \<Rightarrow> SpawnServerProcess" where
  "dispose_children [] s = s"
| "dispose_children (c # cs) s =
     dispose_children cs (emit [EvDeleteChild c] (Registry_Kill (child_pid c) SIGTERM s))"

definition SpawnServerConnection_destroy ::
  "SpawnServerConnection \<Rightarrow> SpawnServerProcess \<Rightarrow> SpawnServerConnection \<times> SpawnServerProcess"
where
  "SpawnServerConnection_destroy c s =
     (c\<lparr>children := []\<rparr>,
      dispose_children (children c) (emit [EvEventDelete (conn_fd c), EvClose (conn_fd c)] s))"

text \<open>
  \<^verbatim>\<open>SpawnServerProcess::RemoveConnection\<close>: the connection is unlinked and
  destroyed; when it was the last one, \<^verbatim>\<open>Quit\<close> makes the registry volatile.
\<close>

definition Quit :: "SpawnServerProcess \<Rightarrow> SpawnServerProcess" where
  "Quit s = s\<lparr>child_process_registry := SetVolatile (child_process_registry s)\<rparr>"

definition RemoveConnection :: "int \<Rightarrow> SpawnServerProcess \<Rightarrow> SpawnServerProcess" where
  "RemoveConnection fd s =
     (case find_connection fd s of
        None \<Rightarrow> s
      | Some c \<Rightarrow>
          (let s1 = s\<lparr>connections := filter (\<lambda>c. conn_fd c \<noteq> fd) (connections s)\<rparr>;
               s2 = snd (SpawnServerConnection_destroy c s1)
           in if connections s2 = [] then Quit s2 else s2))"

text \<open>
  \<^verbatim>\<open>SpawnServerConnection::SendExit\<close>.  \<^verbatim>\<open>Send<1>\<close> throws the errno of a failed
  \<^verbatim>\<open>sendmsg\<close> (in the system category, which the test in \<^verbatim>\<open>SendExit\<close>
  presupposes; \<^verbatim>\<open>MakeErrno\<close> is not among the sources); only \<^verbatim>\<open>EAGAIN\<close>
  leads to the \<^verbatim>\<open>ppoll\<close> (timeout
  \<^verbatim>\<open>{10, 0}\<close>, signal mask from \<^verbatim>\<open>sigfillset\<close>) and, when that returns a
  positive value, to the second \<^verbatim>\<open>Send<1>\<close>.  Every exception that leaves the
  inner block is logged at level 1 and removes the connection.
\<close>

definition SendExit ::
  "environment \<Rightarrow> int \<Rightarrow> int \<Rightarrow> int \<Rightarrow> SpawnServerProcess \<Rightarrow> SpawnServerProcess"
where
  "SendExit E fd i status s =
     (let f = Frame EXIT [i, status] in
      case send_first E of
        Sent \<Rightarrow> emit [EvSendmsg fd f Sent] s
      | SendFailed e \<Rightarrow>
          if e = EAGAIN then
            (let s1 = emit [EvSendmsg fd f (SendFailed e),
                            EvPpoll fd POLLOUT 10 0 True (ppoll_result E)] s
             in if ppoll_result E > 0 then
                  (case send_retry E of
                     Sent \<Rightarrow> emit [EvSendmsg fd f Sent] s1
                   | SendFailed e2 \<Rightarrow>
                       RemoveConnection fd (emit [EvSendmsg fd f (SendFailed e2), EvLog 1] s1))
                else RemoveConnection fd (emit [EvLog 1] s1))
          else RemoveConnection fd (emit [EvSendmsg fd f (SendFailed e), EvLog 1] s))"

text \<open>
  \<^verbatim>\<open>SpawnServerConnection::OnChildProcessExit\<close>, reached through the listener
  \<^verbatim>\<open>SpawnServerChild::OnChildProcessExit\<close>.
\<close>

definition OnChildProcessExit ::
  "environment \<Rightarrow> int \<Rightarrow> int \<Rightarrow> SpawnServerChild \<Rightarrow> SpawnServerProcess \<Rightarrow> SpawnServerProcess"
where
  "OnChildProcessExit E fd status child s =
     SendExit E fd (child_id child) status
       (emit [EvDeleteChild child] (update_children fd (erase_child (child_id child)) s))"

text \<open>
  Modelled from the spec: the reap loop of the registry (Registry.cxx, not
  among the sources).  Section 4.5: for a reaped pid, look it up; if found,
  invoke the listener and remove the entry (cancelling its timer); if not
  found, drop silently; after the loop, if volatile and empty, disable the
  signal handler.  An entry whose listener has been cleared has nobody to
  notify.
\<close>

definition Registry_OnExit ::
  "environment \<Rightarrow> int \<Rightarrow> int \<Rightarrow> SpawnServerProcess \<Rightarrow> SpawnServerProcess"
where
  "Registry_OnExit E pid status s =
     (case find (\<lambda>c. cp_pid c = pid) (reg_children (child_process_registry s)) of
        None \<Rightarrow> s
      | Some c \<Rightarrow>
          (let s1 = (case cp_listener c of
                       None \<Rightarrow> s
                     | Some (fd, child) \<Rightarrow> OnChildProcessExit E fd status child s);
               r = child_process_registry s1
           in s1\<lparr>child_process_registry :=
                   r\<lparr>reg_children := filter (\<lambda>c. cp_pid c \<noteq> pid) (reg_children r)\<rparr>\<rparr>))"

text \<open>
  Modelled from the spec: the loop over the reaped children, and the check of
  the volatile flag after it.
\<close>

fun reap_all :: "(environment \<times> int \<times> int) list \<Rightarrow> SpawnServerProcess \<Rightarrow> SpawnServerProcess" where
  "reap_all [] s = s"
| "reap_all ((E, pid, status) # rest) s = reap_all rest (Registry_OnExit E pid status s)"

definition OnSigChld :: "(environment \<times> int \<times> int) list \<Rightarrow> SpawnServerProcess \<Rightarrow> SpawnServerProcess" where
  "OnSigChld reaped s =
     (let s1 = reap_all reaped s
      in s1\<lparr>child_process_registry := CheckVolatileEvent (child_process_registry s1)\<rparr>)"

subsection \<open>Handling requests\<close>

text \<open>
  \<^verbatim>\<open>SpawnServerProcess::Verify\<close> is
  \<^verbatim>\<open>hook != nullptr && hook->Verify(p)\<close>; \<^verbatim>\<open>SpawnChild\<close> calls
  \<^verbatim>\<open>config.Verify(p.uid_gid)\<close> when it returns false.  The result says
  whether the block completed without an exception, with the calls made.
\<close>

definition SpawnServerProcess_Verify ::
  "SpawnServerProcess \<Rightarrow> PreparedChildProcess \<Rightarrow> hook_result \<times> event list" where
  "SpawnServerProcess_Verify s p =
     (case hook s of
        None \<Rightarrow> (HookReturns False, [])
      | Some h \<Rightarrow> (h p, [EvHookVerify (h p)]))"

definition SpawnChild_verify ::
  "SpawnServerProcess \<Rightarrow> PreparedChildProcess \<Rightarrow> bool \<times> event list" where
  "SpawnChild_verify s p =
     (case SpawnServerProcess_Verify s p of
        (HookThrows, evs) \<Rightarrow> (False, evs)
      | (HookReturns True, evs) \<Rightarrow> (True, evs)
      | (HookReturns False, evs) \<Rightarrow>
          (config_verify (config s) (uid_gid p),
           evs @ [EvConfigVerify (uid_gid p) (config_verify (config s) (uid_gid p))]))"

definition SpawnChild ::
  "environment \<Rightarrow> int \<Rightarrow> int \<Rightarrow> cstring \<Rightarrow> PreparedChildProcess \<Rightarrow> SpawnServerProcess \<Rightarrow>
   SpawnServerProcess"
where
  "SpawnChild E fd i name' p0 s0 =
     (let (ok, evs) = (if \<not> UidGid_IsEmpty (uid_gid p0) then SpawnChild_verify s0 p0
                       else (True, []));
          s = emit evs s0
      in if \<not> ok then SendExit E fd i (W_EXITCODE 0xff 0) (emit [EvPrintException] s)
         else if UidGid_IsEmpty (uid_gid p0) \<and> UidGid_IsEmpty (default_uid_gid (config s0))
         then SendExit E fd i (W_EXITCODE 0xff 0) (emit [EvLog 1] s)
         else
           (let p = (if UidGid_IsEmpty (uid_gid p0)
                     then p0\<lparr>uid_gid := default_uid_gid (config s0)\<rparr> else p0)
            in case spawn_result E of
                 None \<Rightarrow>
                   SendExit E fd i (W_EXITCODE 0xff 0)
                     (emit [EvSpawnChildProcess p None, EvLog 1] s)
               | Some pid \<Rightarrow>
                   (let child = \<lparr>child_id = i, child_pid = pid, child_name = name'\<rparr>;
                        s1 = emit [EvSpawnChildProcess p (Some pid)] s;
                        s2 = update_children fd (insert_child child) s1
                    in Registry_Add pid name' (fd, child) s2)))"

definition HandleExecMessage ::
  "protocol \<Rightarrow> environment \<Rightarrow> int \<Rightarrow> SpawnPayload \<Rightarrow> SpawnFdList \<Rightarrow> SpawnServerProcess \<Rightarrow>
   spawn_error + SpawnServerProcess"
where
  "HandleExecMessage P E fd payload fds s =
     bindE (ReadInt payload) (\<lambda>(i, pl1).
     bindE (ReadString pl1) (\<lambda>(name', pl2).
     bindE (exec_loop P pl2 fds (PreparedChildProcess_init (proto_limits P))) (\<lambda>(fds', p).
       Inr (SpawnChild E fd i name' p s))))"

definition HandleKillMessage ::
  "int \<Rightarrow> SpawnPayload \<Rightarrow> SpawnFdList \<Rightarrow> SpawnServerProcess \<Rightarrow> spawn_error + SpawnServerProcess"
where
  "HandleKillMessage fd payload fds s =
     (if fds \<noteq> [] then Inl MalformedSpawnPayloadError
      else
        bindE (ReadInt payload) (\<lambda>(i, pl1).
        bindE (ReadInt pl1) (\<lambda>(signo, pl2).
          if pl2 \<noteq> [] then Inl MalformedSpawnPayloadError
          else
            (case find_child i (children_of fd s) of
               None \<Rightarrow> Inr s
             | Some child \<Rightarrow>
                 Inr (emit [EvDeleteChild child]
                        (Registry_Kill (child_pid child) signo
                           (update_children fd (erase_child i) s)))))))"

text \<open>
  \<^verbatim>\<open>HandleMessage\<close>: the first octet is the request command; this
  \<^verbatim>\<open>switch\<close> has no \<^verbatim>\<open>default\<close> label either.
\<close>

definition HandleMessage ::
  "protocol \<Rightarrow> environment \<Rightarrow> int \<Rightarrow> SpawnPayload \<Rightarrow> SpawnFdList \<Rightarrow> SpawnServerProcess \<Rightarrow>
   spawn_error + SpawnServerProcess"
where
  "HandleMessage P E fd payload fds s =
     (case payload of
        [] \<Rightarrow> Inl OutOfBoundsAccess
      | b # pl \<Rightarrow>
          (case request_command P b of
             None \<Rightarrow> Inr s
           | Some CONNECT \<Rightarrow>
               (case fds of
                  [fd'] \<Rightarrow> if pl \<noteq> [] then Inl MalformedSpawnPayloadError
                            else Inr (AddConnection fd' s)
                | _ \<Rightarrow> Inl MalformedSpawnPayloadError)
           | Some EXEC \<Rightarrow> HandleExecMessage P E fd pl fds s
           | Some KILL \<Rightarrow> HandleKillMessage fd pl fds s))"

text \<open>
  \<^verbatim>\<open>ReadEventCallback\<close>: what \<^verbatim>\<open>recvmsg\<close> delivered is an input, a failure
  (\<open>None\<close>) or the octets and descriptors of one datagram, of which the
  buffer holds at most 8192 octets; no octets means end of file.  A
  \<^verbatim>\<open>MalformedSpawnPayloadError\<close> is thrown only while the datagram is being
  decoded, before the state of the server is touched, so catching it leaves
  the state as it was before the datagram.
\<close>

definition ReadEventCallback ::
  "protocol \<Rightarrow> environment \<Rightarrow> int \<Rightarrow> (SpawnPayload \<times> SpawnFdList) option \<Rightarrow> SpawnServerProcess \<Rightarrow>
   spawn_error + SpawnServerProcess"
where
  "ReadEventCallback P E fd received s =
     (case received of
        None \<Rightarrow> Inr (RemoveConnection fd (emit [EvLog 2] s))
      | Some (payload, fds) \<Rightarrow>
          if take 8192 payload = [] then Inr (RemoveConnection fd s)
          else
            (case HandleMessage P E fd (take 8192 payload) fds s of
               Inl MalformedSpawnPayloadError \<Rightarrow> Inr (emit [EvLog 3] s)
             | Inl OutOfBoundsAccess \<Rightarrow> Inl OutOfBoundsAccess
             | Inr s' \<Rightarrow> Inr s'))"

subsection \<open>A concrete protocol numbering for the examples\<close>

text \<open>
  The enumerators numbered from zero: the sub-commands in the order of the
  case labels of \<^verbatim>\<open>HandleExecMessage\<close>.  The general theorems do not depend
  on it; it only serves to run the model on concrete datagrams.
\<close>

definition exec_commands_in_order :: "SpawnExecCommand list" where
  "exec_commands_in_order =
     [ARG, SETENV, UMASK, STDIN, STDOUT, STDERR, STDERR_PATH, CONTROL, TTY, REFENCE,
      USER_NS, PID_NS, NETWORK_NS, NETWORK_NS_NAME, IPC_NS, MOUNT_NS, MOUNT_PROC,
      WRITABLE_PROC, PIVOT_ROOT, MOUNT_HOME, MOUNT_TMP_TMPFS, MOUNT_TMPFS, BIND_MOUNT,
      HOSTNAME, RLIMIT, UID_GID, SCHED_IDLE, IOPRIO_IDLE, FORBID_USER_NS,
      FORBID_MULTICAST, FORBID_BIND, NO_NEW_PRIVS, CGROUP, CGROUP_SET, PRIORITY,
      CHROOT, CHDIR, HOOK_INFO]"

definition nth_option :: "'a list \<Rightarrow> nat \<Rightarrow> 'a option" where
  "nth_option xs n = (if n < length xs then Some (xs ! n) else None)"

definition example_protocol :: protocol where
  "example_protocol =
     \<lparr>request_command = (\<lambda>b. nth_option [CONNECT, EXEC, KILL] (unat b)),
      exec_command = (\<lambda>b. nth_option exec_commands_in_order (unat b)),
      proto_limits = example_limits\<rparr>"

subsection \<open>Observations on traces and states\<close>

text \<open>The frames that \<^verbatim>\<open>sendmsg\<close> accepted, with the descriptor they went to.\<close>

fun sent_frame :: "event \<Rightarrow> (int \<times> frame) list" where
  "sent_frame (EvSendmsg fd f Sent) = [(fd, f)]"
| "sent_frame e = []"

definition sent_frames :: "event list \<Rightarrow> (int \<times> frame) list" where
  "sent_frames tr = concat (map sent_frame tr)"

text \<open>The signals the registry sent.\<close>

fun kill_signal :: "event \<Rightarrow> (int \<times> int) list" where
  "kill_signal (EvKill pid signo) = [(pid, signo)]"
| "kill_signal e = []"

definition kill_signals :: "event list \<Rightarrow> (int \<times> int) list" where
  "kill_signals tr = concat (map kill_signal tr)"

definition registered_pids :: "SpawnServerProcess \<Rightarrow> int list" where
  "registered_pids s = map cp_pid (reg_children (child_process_registry s))"

text \<open>
  An EXIT frame gets through when the first \<^verbatim>\<open>sendmsg\<close> succeeds, or fails
  with \<^verbatim>\<open>EAGAIN\<close> and the retry after a positive \<^verbatim>\<open>ppoll\<close> succeeds.
\<close>

definition send_succeeds :: "environment \<Rightarrow> bool" where
  "send_succeeds E =
     (send_first E = Sent \<or>
      (send_first E = SendFailed EAGAIN \<and> ppoll_result E > 0 \<and> send_retry E = Sent))"

text \<open>
  The three ways in which an EXEC request fails before the fork: the uid/gid
  it carries is rejected by the verification, it carries none and the
  configuration has no default, or \<^verbatim>\<open>SpawnChildProcess\<close> throws.
\<close>

definition prefork_failure ::
  "environment \<Rightarrow> PreparedChildProcess \<Rightarrow> SpawnServerProcess \<Rightarrow> bool" where
  "prefork_failure E p s =
     ((\<not> UidGid_IsEmpty (uid_gid p) \<and> \<not> fst (SpawnChild_verify s p)) \<or>
      (UidGid_IsEmpty (uid_gid p) \<and> UidGid_IsEmpty (default_uid_gid (config s))) \<or>
      spawn_result E = None)"

subsection \<open>Concrete states for the examples\<close>

definition example_config :: SpawnConfig where
  "example_config =
     \<lparr>default_uid_gid = UidGid_init example_limits,
      config_verify = (\<lambda>u. uid u = 1000 \<and> gid u = 1000)\<rparr>"

text \<open>
  A server with one connection on descriptor 3 that owns two children, id 5
  (pid 100) and id 6 (pid 101), both registered with the connection's child
  objects as listeners.
\<close>

definition example_child5 :: SpawnServerChild where
  "example_child5 = \<lparr>child_id = 5, child_pid = 100, child_name = []\<rparr>"

definition example_child6 :: SpawnServerChild where
  "example_child6 = \<lparr>child_id = 6, child_pid = 101, child_name = []\<rparr>"

definition example_process :: SpawnServerProcess where
  "example_process =
     \<lparr>config = example_config, hook = None,
      connections = [\<lparr>conn_fd = 3, children = [example_child5, example_child6]\<rparr>],
      child_process_registry =
        \<lparr>reg_children =
           [\<lparr>cp_pid = 100, cp_name = [], cp_listener = Some (3, example_child5),
             kill_timeout_armed = False\<rparr>,
            \<lparr>cp_pid = 101, cp_name = [], cp_listener = Some (3, example_child6),
             kill_timeout_armed = False\<rparr>],
         volatile_event = False, sigchld_enabled = True\<rparr>,
      trace = []\<rparr>"

definition env_ok :: environment where
  "env_ok = \<lparr>send_first = Sent, ppoll_result = 1, send_retry = Sent, spawn_result = Some 200\<rparr>"

text \<open>
  The verification as section 4.4 of the specification words it (``if a hook
  is installed, call the hook's verify on the prepared child; else call
  config.verify on the uid/gid''), for comparison with
  \<open>SpawnChild_verify\<close>, which follows the source.
\<close>

definition spec_verification_passes :: "SpawnServerProcess \<Rightarrow> PreparedChildProcess \<Rightarrow> bool" where
  "spec_verification_passes s p =
     (case hook s of
        Some h \<Rightarrow> h p = HookReturns True
      | None \<Rightarrow> config_verify (config s) (uid_gid p))"

text \<open>\<open>happens_before a b tr\<close>: \<open>b\<close> occurs in \<open>tr\<close> after the first occurrence of \<open>a\<close>.\<close>

definition happens_before :: "event \<Rightarrow> event \<Rightarrow> event list \<Rightarrow> bool" where
  "happens_before a b tr = (b \<in> set (drop 1 (dropWhile (\<lambda>e. e \<noteq> a) tr)))"

definition example_uid_gid :: UidGid where
  "example_uid_gid = \<lparr>uid = 1000, gid = 1000, groups = replicate 32 0\<rparr>"

definition example_prepared :: PreparedChildProcess where
  "example_prepared = (PreparedChildProcess_init example_limits)\<lparr>uid_gid := example_uid_gid\<rparr>"

text \<open>The example server with a hook whose \<^verbatim>\<open>Verify\<close> returns false.\<close>

definition hooked_process :: SpawnServerProcess where
  "hooked_process = example_process\<lparr>hook := Some (\<lambda>p. HookReturns False)\<rparr>"

text \<open>The \<^verbatim>\<open>ppoll\<close> calls and the \<^verbatim>\<open>sendmsg\<close> calls of a trace.\<close>

fun is_ppoll :: "event \<Rightarrow> bool" where
  "is_ppoll (EvPpoll fd ev sec nsec m r) = True"
| "is_ppoll e = False"

fun is_sendmsg :: "event \<Rightarrow> bool" where
  "is_sendmsg (EvSendmsg fd f r) = True"
| "is_sendmsg e = False"

definition ppoll_calls :: "event list \<Rightarrow> event list" where
  "ppoll_calls tr = filter is_ppoll tr"

definition sendmsg_calls :: "event list \<Rightarrow> event list" where
  "sendmsg_calls tr = filter is_sendmsg tr"

text \<open>A KILL payload: two integers and nothing else.\<close>

definition kill_payload :: "SpawnPayload \<Rightarrow> int \<Rightarrow> int \<Rightarrow> bool" where
  "kill_payload payload i signo =
     (case ReadInt payload of
        Inl e \<Rightarrow> False
      | Inr (i', pl1) \<Rightarrow> i' = i \<and> ReadInt pl1 = Inr (signo, []))"

subsection \<open>Defective datagrams\<close>

text \<open>
  The first \<open>n\<close> iterations of the decoding loop of \<^verbatim>\<open>HandleExecMessage\<close>:
  the payload, the descriptors and the prepared child after them (or the
  exception that one of them raised).  It serves to say where in a payload a
  sub-command stands.
\<close>

fun exec_steps ::
  "protocol \<Rightarrow> nat \<Rightarrow> SpawnPayload \<Rightarrow> SpawnFdList \<Rightarrow> PreparedChildProcess \<Rightarrow>
   spawn_error + (SpawnPayload \<times> SpawnFdList \<times> PreparedChildProcess)"
where
  "exec_steps P 0 pl fds p = Inr (pl, fds, p)"
| "exec_steps P (Suc n) [] fds p = Inr ([], fds, p)"
| "exec_steps P (Suc n) (b # bs) fds p =
     (case exec_command P b of
        None \<Rightarrow> exec_steps P n bs fds p
      | Some cmd \<Rightarrow>
          (case HandleExecCommand (proto_limits P) cmd bs fds p of
             Inl e \<Rightarrow> Inl e
           | Inr (pl', fds', p') \<Rightarrow> exec_steps P n pl' fds' p'))"

text \<open>
  What the case of each sub-command in \<^verbatim>\<open>HandleExecMessage\<close> reads from the
  payload after the tag, in the order of its calls: a string for each
  \<^verbatim>\<open>ReadString\<close>, one octet for each \<^verbatim>\<open>ReadByte\<close>, four for \<^verbatim>\<open>ReadInt\<close>,
  \<^verbatim>\<open>sizeof\<close> the value for \<^verbatim>\<open>ReadT\<close>; nothing for the flags and for the
  sub-commands that take a descriptor.  \<^verbatim>\<open>RLIMIT\<close> and \<^verbatim>\<open>UID_GID\<close>, whose
  reads depend on a value read, are treated in \<open>reads_past_end\<close>.
\<close>

datatype wire_field = FString | FBytes nat

fun wire_layout :: "SpawnExecCommand \<Rightarrow> wire_field list" where
  "wire_layout ARG = [FString]"
| "wire_layout SETENV = [FString]"
| "wire_layout UMASK = [FBytes 2]"
| "wire_layout STDERR_PATH = [FString]"
| "wire_layout REFENCE = [FString]"
| "wire_layout NETWORK_NS_NAME = [FString]"
| "wire_layout PIVOT_ROOT = [FString]"
| "wire_layout MOUNT_HOME = [FString, FString]"
| "wire_layout MOUNT_TMP_TMPFS = [FString]"
| "wire_layout MOUNT_TMPFS = [FString]"
| "wire_layout BIND_MOUNT = [FString, FString, FBytes 1, FBytes 1]"
| "wire_layout HOSTNAME = [FString]"
| "wire_layout CGROUP = [FString]"
| "wire_layout CGROUP_SET = [FString, FString]"
| "wire_layout PRIORITY = [FBytes 4]"
| "wire_layout CHROOT = [FString]"
| "wire_layout CHDIR = [FString]"
| "wire_layout HOOK_INFO = [FString]"
| "wire_layout c = []"

text \<open>
  What is left of a payload after the given fields (a string ends with its
  NUL, as in \<open>ReadString\<close>); \<open>None\<close> if a field runs past the end.
\<close>

fun skip_fields :: "wire_field list \<Rightarrow> SpawnPayload \<Rightarrow> SpawnPayload option" where
  "skip_fields [] pl = Some pl"
| "skip_fields (FString # fs) pl =
     (if 0 \<in> set pl then skip_fields fs (tl (dropWhile (\<lambda>b. b \<noteq> 0) pl)) else None)"
| "skip_fields (FBytes n # fs) pl =
     (if length pl < n then None else skip_fields fs (drop n pl))"

text \<open>
  Decoding the sub-command \<open>c\<close> reads past the end of the payload \<open>bs\<close> that
  follows its tag.  \<^verbatim>\<open>RLIMIT\<close>: the index octet is missing, or the index is
  within the array and fewer than 16 octets follow it.  \<^verbatim>\<open>UID_GID\<close>: uid, gid
  and count (9 octets) are incomplete, or the count is admissible and fewer
  than that many group ids (4 octets each) follow.
\<close>

definition reads_past_end :: "limits \<Rightarrow> SpawnExecCommand \<Rightarrow> SpawnPayload \<Rightarrow> bool" where
  "reads_past_end L c bs =
     (if c = RLIMIT then bs = [] \<or> (unat (hd bs) < n_rlimits L \<and> length bs < 17)
      else if c = UID_GID then
        length bs < 9 \<or>
        (unat (bs ! 8) \<le> max_groups L \<and> length bs < 9 + 4 * unat (bs ! 8))
      else skip_fields (wire_layout c) bs = None)"

text \<open>A \<^verbatim>\<open>UID_GID\<close> sub-command whose count of supplementary groups exceeds the maximum.\<close>

definition overlong_group_count :: "limits \<Rightarrow> SpawnExecCommand \<Rightarrow> SpawnPayload \<Rightarrow> bool" where
  "overlong_group_count L c bs = (c = UID_GID \<and> 9 \<le> length bs \<and> unat (bs ! 8) > max_groups L)"

text \<open>A sub-command that takes an attached descriptor when none remains.\<close>

definition fd_when_none_remain :: "SpawnExecCommand \<Rightarrow> SpawnFdList \<Rightarrow> bool" where
  "fd_when_none_remain c fds =
     ((c = STDIN \<or> c = STDOUT \<or> c = STDERR \<or> c = CONTROL) \<and> fds = [])"

definition sub_command_defect ::
  "limits \<Rightarrow> SpawnExecCommand \<Rightarrow> SpawnPayload \<Rightarrow> SpawnFdList \<Rightarrow> bool" where
  "sub_command_defect L c bs fds =
     (reads_past_end L c bs \<or> overlong_group_count L c bs \<or> fd_when_none_remain c fds)"

text \<open>
  An EXEC request (the octets after the request command) has one of the three
  defects: the id (four octets) or the name (a string) runs past the end; or
  the decoding loop, \<open>n\<close> iterations on, stands before a sub-command that has
  one of the defects above.
\<close>

definition exec_defect :: "protocol \<Rightarrow> nat \<Rightarrow> SpawnPayload \<Rightarrow> SpawnFdList \<Rightarrow> bool" where
  "exec_defect P n body fds =
     (length body < 4 \<or> 0 \<notin> set (drop 4 body) \<or>
      (case exec_steps P n (tl (dropWhile (\<lambda>b. b \<noteq> 0) (drop 4 body))) fds
              (PreparedChildProcess_init (proto_limits P)) of
         Inl e \<Rightarrow> False
       | Inr (pl, fds', p') \<Rightarrow>
           (case pl of
              [] \<Rightarrow> False
            | b # bs \<Rightarrow>
                (case exec_command P b of
                   None \<Rightarrow> False
                 | Some c \<Rightarrow> sub_command_defect (proto_limits P) c bs fds'))))"

text \<open>
  A datagram has one of the three defects: an EXEC request as above, or a
  KILL request whose two integers (eight octets) run past the end.  (A
  CONNECT request reads nothing after the command.)
\<close>

definition datagram_defect :: "protocol \<Rightarrow> nat \<Rightarrow> SpawnPayload \<Rightarrow> SpawnFdList \<Rightarrow> bool" where
  "datagram_defect P n dg fds =
     (case dg of
        [] \<Rightarrow> False
      | b # body \<Rightarrow>
          (case request_command P b of
             Some EXEC \<Rightarrow> exec_defect P n body fds
           | Some KILL \<Rightarrow> length body < 8
           | _ \<Rightarrow> False))"

subsection \<open>Runs of the event loop\<close>

text \<open>
  The event loop dispatches two kinds of events: a connection's descriptor is
  readable (with what \<^verbatim>\<open>recvmsg\<close> delivers and the environment of the
  handling), or \<^verbatim>\<open>SIGCHLD\<close> arrived (with the children that
  \<^verbatim>\<open>waitpid\<close> reaps and the environment of each notification).  A run ends
  early when a handler leaves the defined behaviour of the source.
\<close>

datatype server_event =
    Readable int "(SpawnPayload \<times> SpawnFdList) option" environment
  | SigChld "(environment \<times> int \<times> int) list"

fun server_step ::
  "protocol \<Rightarrow> server_event \<Rightarrow> SpawnServerProcess \<Rightarrow> spawn_error + SpawnServerProcess" where
  "server_step P (Readable fd received E) s = ReadEventCallback P E fd received s"
| "server_step P (SigChld reaped) s = Inr (OnSigChld reaped s)"

fun run_server ::
  "protocol \<Rightarrow> server_event list \<Rightarrow> SpawnServerProcess \<Rightarrow> spawn_error + SpawnServerProcess" where
  "run_server P [] s = Inr s"
| "run_server P (ev # evs) s =
     (case server_step P ev s of Inl e \<Rightarrow> Inl e | Inr s' \<Rightarrow> run_server P evs s')"

text \<open>The pids that the events of a run reap.\<close>

fun reaped_pids :: "server_event \<Rightarrow> int list" where
  "reaped_pids (Readable fd received E) = []"
| "reaped_pids (SigChld reaped) = map (\<lambda>(E, pid, status). pid) reaped"

text \<open>
  \<open>unlistened pid s\<close>: the registry tracks \<open>pid\<close>, and no entry for it has an
  exit listener.
\<close>

definition unlistened :: "int \<Rightarrow> SpawnServerProcess \<Rightarrow> bool" where
  "unlistened pid s =
     (pid \<in> set (registered_pids s) \<and>
      list_all (\<lambda>e. cp_pid e \<noteq> pid \<or> cp_listener e = None)
        (reg_children (child_process_registry s)))"

text \<open>The same property of the list of registry entries.\<close>

definition unl :: "int \<Rightarrow> ChildProcess list \<Rightarrow> bool" where
  "unl pid r = (pid \<in> cp_pid ` set r \<and> (\<forall>e\<in>set r. cp_pid e = pid \<longrightarrow> cp_listener e = None))"

text \<open>
  The frames handed to \<^verbatim>\<open>sendmsg\<close>, whatever the outcome, one entry per call.
\<close>

fun sendmsg_frame :: "event \<Rightarrow> (int \<times> frame) list" where
  "sendmsg_frame (EvSendmsg fd f r) = [(fd, f)]"
| "sendmsg_frame e = []"

definition offered_frames :: "event list \<Rightarrow> (int \<times> frame) list" where
  "offered_frames tr = concat (map sendmsg_frame tr)"

text \<open>The number of \<^verbatim>\<open>sendmsg\<close> calls of one \<^verbatim>\<open>SendExit\<close>: two if it retries.\<close>

definition send_attempts :: "environment \<Rightarrow> nat" where
  "send_attempts E = (if send_first E = SendFailed EAGAIN \<and> ppoll_result E > 0 then 2 else 1)"

text \<open>The filter built on a kernel that accepts every rule (empty if the build fails).\<close>

definition built_filter :: seccomp_filter where
  "built_filter = (case BuildSyscallFilter (\<lambda>_. None) [] of Inl e \<Rightarrow> [] | Inr sf \<Rightarrow> sf)"



section \<open>Properties of the seccomp filter builder\<close>

lemma AddRule_Inr: "AddRule k sf r = Inr sf' \<Longrightarrow> sf' = sf @ [r]"
  by (auto simp: AddRule_def split: option.splits)

lemma word_range_step:
  fixes b e x :: scmp_datum_t
  assumes "b < e"
  shows "(x = b \<or> (b + 1 \<le> x \<and> x < e)) \<longleftrightarrow> (b \<le> x \<and> x < e)"
  using assms by (auto simp: inc_less_eq_iff)

lemma word_succ_le:
  fixes b e :: scmp_datum_t
  shows "b < e \<Longrightarrow> b + 1 \<le> e"
  by (rule inc_le)

lemma word_succ_le_iff:
  fixes i n x :: scmp_datum_t
  shows "i < n \<Longrightarrow> (i + 1 \<le> x) \<longleftrightarrow> i < x"
  by (auto simp: inc_less_eq_iff)

lemma AddRange_Inr:
  "AddRange k sf a sc arg b e = Inr sf' \<Longrightarrow> b \<le> e \<Longrightarrow>
   \<exists>new. sf' = sf @ new \<and> (\<forall>r\<in>set new. rule_action r = a \<and> rule_syscall r = sc) \<and>
     (\<forall>av. (\<exists>r\<in>set new. rule_matches r sc av) \<longleftrightarrow> (b \<le> av arg \<and> av arg < e))"
proof (induction k sf a sc arg b e arbitrary: sf' rule: AddRange.induct)
  case (1 k sf action syscall arg b e)
  show ?case
  proof (cases "b = e")
    case True
    with "1.prems" have "sf' = sf" by (simp add: AddRange.simps[of k sf action syscall arg e e])
    with True show ?thesis by auto
  next
    case False
    with "1.prems"(2) have lt: "b < e" by simp
    let ?r = "mk_rule action syscall [ArgCmp arg SCMP_CMP_EQ b]"
    from "1.prems" False obtain sf1 where
      a1: "AddRule k sf ?r = Inr sf1" and
      a2: "AddRange k sf1 action syscall arg (b + 1) e = Inr sf'"
      by (auto simp: AddRange.simps[of k sf action syscall arg b e] split: sum.splits)
    have sf1: "sf1 = sf @ [?r]" using a1 by (rule AddRule_Inr)
    from "1.IH"[OF False a1 a2 word_succ_le[OF lt]] obtain new where
      n1: "sf' = sf1 @ new" and
      n2: "\<forall>r\<in>set new. rule_action r = action \<and> rule_syscall r = syscall" and
      n3: "\<forall>av. (\<exists>r\<in>set new. rule_matches r syscall av) \<longleftrightarrow> (b + 1 \<le> av arg \<and> av arg < e)"
      by blast
    have m: "rule_matches ?r syscall av \<longleftrightarrow> av arg = b" for av
      by (simp add: rule_matches_def mk_rule_def)
    have "sf' = sf @ (?r # new)" using n1 sf1 by simp
    moreover have "\<forall>r\<in>set (?r # new). rule_action r = action \<and> rule_syscall r = syscall"
      using n2 by (simp add: mk_rule_def)
    moreover have "\<forall>av. (\<exists>r\<in>set (?r # new). rule_matches r syscall av) \<longleftrightarrow> (b \<le> av arg \<and> av arg < e)"
    proof
      fix av
      have "(\<exists>r\<in>set (?r # new). rule_matches r syscall av) \<longleftrightarrow>
            (av arg = b \<or> (b + 1 \<le> av arg \<and> av arg < e))"
        using n3 m by auto
      then show "(\<exists>r\<in>set (?r # new). rule_matches r syscall av) \<longleftrightarrow> (b \<le> av arg \<and> av arg < e)"
        using word_range_step[OF lt, of "av arg"] by simp
    qed
    ultimately show ?thesis by blast
  qed
qed

lemma AddInverted_loop_Inr:
  "AddInverted_loop k sf a sc arg i rest = Inr sf' \<Longrightarrow> sorted (i # rest) \<Longrightarrow> distinct (i # rest) \<Longrightarrow>
   \<exists>new. sf' = sf @ new \<and> (\<forall>r\<in>set new. rule_action r = a \<and> rule_syscall r = sc) \<and>
     (\<forall>av. (\<exists>r\<in>set new. rule_matches r sc av) \<longleftrightarrow> (i < av arg \<and> av arg \<notin> set rest))"
proof (induction rest arbitrary: sf i sf')
  case Nil
  let ?r = "mk_rule a sc [ArgCmp arg SCMP_CMP_GT i]"
  from Nil have "sf' = sf @ [?r]" by (simp add: AddRule_Inr)
  moreover have "rule_matches ?r sc av \<longleftrightarrow> i < av arg" for av
    by (simp add: rule_matches_def mk_rule_def)
  ultimately show ?case by (auto simp: mk_rule_def)
next
  case (Cons n rest)
  from Cons.prems obtain sf1 where
    a1: "AddRange k sf a sc arg (i + 1) n = Inr sf1" and
    a2: "AddInverted_loop k sf1 a sc arg n rest = Inr sf'"
    by (auto split: sum.splits)
  from Cons.prems have lt: "i < n" by auto
  have le: "i + 1 \<le> n" using lt by (rule word_succ_le)
  from AddRange_Inr[OF a1 le] obtain new1 where
    n1: "sf1 = sf @ new1" and
    n2: "\<forall>r\<in>set new1. rule_action r = a \<and> rule_syscall r = sc" and
    n3: "\<forall>av. (\<exists>r\<in>set new1. rule_matches r sc av) \<longleftrightarrow> (i + 1 \<le> av arg \<and> av arg < n)"
    by blast
  from Cons.prems have s: "sorted (n # rest)" "distinct (n # rest)" by auto
  from Cons.IH[OF a2 s] obtain new2 where
    m1: "sf' = sf1 @ new2" and
    m2: "\<forall>r\<in>set new2. rule_action r = a \<and> rule_syscall r = sc" and
    m3: "\<forall>av. (\<exists>r\<in>set new2. rule_matches r sc av) \<longleftrightarrow> (n < av arg \<and> av arg \<notin> set rest)"
    by blast
  have w: "(i + 1 \<le> x \<and> x < n) \<or> (n < x \<and> x \<notin> set rest) \<longleftrightarrow> (i < x \<and> x \<notin> set (n # rest))" for x
  proof -
    have "(i + 1 \<le> x) \<longleftrightarrow> i < x" using lt by (rule word_succ_le_iff)
    moreover have "x \<in> set rest \<Longrightarrow> n < x" using s by (auto simp: order_le_less)
    ultimately show ?thesis using lt by auto
  qed
  have "sf' = sf @ (new1 @ new2)" using n1 m1 by simp
  moreover have "\<forall>r\<in>set (new1 @ new2). rule_action r = a \<and> rule_syscall r = sc"
    using n2 m2 by auto
  moreover have "\<forall>av. (\<exists>r\<in>set (new1 @ new2). rule_matches r sc av) \<longleftrightarrow> (i < av arg \<and> av arg \<notin> set (n # rest))"
  proof
    fix av
    have "(\<exists>r\<in>set (new1 @ new2). rule_matches r sc av) \<longleftrightarrow>
          ((i + 1 \<le> av arg \<and> av arg < n) \<or> (n < av arg \<and> av arg \<notin> set rest))"
      using n3 m3 by (auto simp: bex_Un)
    then show "(\<exists>r\<in>set (new1 @ new2). rule_matches r sc av) \<longleftrightarrow> (i < av arg \<and> av arg \<notin> set (n # rest))"
      using w[of "av arg"] by simp
  qed
  ultimately show ?case by blast
qed

lemma AddInverted_Inr:
  assumes "AddInverted k sf a sc arg ws = Inr sf'" and "sorted ws" and "distinct ws"
  shows "\<exists>new. sf' = sf @ new \<and> (\<forall>r\<in>set new. rule_action r = a \<and> rule_syscall r = sc) \<and>
     (\<forall>av. (\<exists>r\<in>set new. rule_matches r sc av) \<longleftrightarrow> av arg \<notin> set ws)"
proof (cases ws)
  case Nil
  with assms show ?thesis by simp
next
  case (Cons i rest)
  let ?r = "mk_rule a sc [ArgCmp arg SCMP_CMP_LT i]"
  from assms Cons obtain sf1 where
    a1: "AddRule k sf ?r = Inr sf1" and
    a2: "AddInverted_loop k sf1 a sc arg i rest = Inr sf'"
    by (auto split: sum.splits)
  have sf1: "sf1 = sf @ [?r]" using a1 by (rule AddRule_Inr)
  from assms Cons have s: "sorted (i # rest)" "distinct (i # rest)" by auto
  from AddInverted_loop_Inr[OF a2 s] obtain new where
    n1: "sf' = sf1 @ new" and
    n2: "\<forall>r\<in>set new. rule_action r = a \<and> rule_syscall r = sc" and
    n3: "\<forall>av. (\<exists>r\<in>set new. rule_matches r sc av) \<longleftrightarrow> (i < av arg \<and> av arg \<notin> set rest)"
    by blast
  have m: "rule_matches ?r sc av \<longleftrightarrow> av arg < i" for av
    by (simp add: rule_matches_def mk_rule_def)
  have w: "(x < i \<or> (i < x \<and> x \<notin> set rest)) \<longleftrightarrow> x \<notin> set (i # rest)" for x
  proof -
    have "x \<in> set rest \<Longrightarrow> i < x" using s by (auto simp: order_le_less)
    then show ?thesis by auto
  qed
  have "sf' = sf @ (?r # new)" using n1 sf1 by simp
  moreover have "\<forall>r\<in>set (?r # new). rule_action r = a \<and> rule_syscall r = sc"
    using n2 by (simp add: mk_rule_def)
  moreover have "\<forall>av. (\<exists>r\<in>set (?r # new). rule_matches r sc av) \<longleftrightarrow> av arg \<notin> set ws"
  proof
    fix av
    have "(\<exists>r\<in>set (?r # new). rule_matches r sc av) \<longleftrightarrow>
          (av arg < i \<or> (i < av arg \<and> av arg \<notin> set rest))"
      using n3 m by auto
    then show "(\<exists>r\<in>set (?r # new). rule_matches r sc av) \<longleftrightarrow> av arg \<notin> set ws"
      using w[of "av arg"] Cons by simp
  qed
  ultimately show ?thesis by blast
qed

lemma forbid_all_Inr:
  "forbid_all k sf xs = Inr sf' \<Longrightarrow>
   \<exists>new. sf' = sf @ new \<and> (\<forall>r\<in>set new. rule_syscall r \<in> set xs)"
proof (induction xs arbitrary: sf)
  case Nil
  then show ?case by simp
next
  case (Cons i rest)
  show ?case
  proof (cases "AddRule k sf (mk_rule SCMP_ACT_KILL i [])")
    case (Inr sf1)
    then have sf1: "sf1 = sf @ [mk_rule SCMP_ACT_KILL i []]" by (rule AddRule_Inr)
    from Cons.prems Inr have "forbid_all k sf1 rest = Inr sf'" by simp
    from Cons.IH[OF this] obtain new where "sf' = sf1 @ new" "\<forall>r\<in>set new. rule_syscall r \<in> set rest"
      by blast
    then have "sf' = sf @ (mk_rule SCMP_ACT_KILL i [] # new) \<and>
      (\<forall>r\<in>set (mk_rule SCMP_ACT_KILL i [] # new). rule_syscall r \<in> set (i # rest))"
      using sf1 by (simp add: mk_rule_def)
    then show ?thesis by blast
  next
    case (Inl e)
    with Cons.prems have "forbid_all k sf rest = Inr sf'"
      by (cases e) (auto split: if_splits)
    from Cons.IH[OF this] show ?thesis by auto
  qed
qed

lemma allowed_socket_domains_eq: "allowed_socket_domains = [1, 2, 10]"
  by (simp add: allowed_socket_domains_def std_set_def AF_LOCAL_def AF_INET_def AF_INET6_def)

lemma socket_not_forbidden: "''socket'' \<notin> set forbidden_syscalls"
  by (simp add: forbidden_syscalls_def)

text \<open>
  Claim C7.  In a filter built by \<^verbatim>\<open>BuildSyscallFilter\<close>, the rules that apply
  to a \<^verbatim>\<open>socket\<close> call are exactly the rules of the inverted whitelist: for
  every value of argument 0 outside \<open>{AF_LOCAL, AF_INET, AF_INET6}\<close> a rule with
  action \<^verbatim>\<open>SCMP_ACT_ERRNO(EAFNOSUPPORT)\<close> matches and no other action is
  attached; for the three whitelisted domains no rule matches at all.
\<close>

theorem socket_domain_whitelist:
  assumes "BuildSyscallFilter k [] = Inr sf"
  shows "set (filter_actions sf ''socket'' av) =
           (if av 0 \<in> {AF_LOCAL, AF_INET, AF_INET6} then {} else {SCMP_ACT_ERRNO EAFNOSUPPORT})"
proof -
  from assms obtain sf1 where
    a1: "forbid_all k [] forbidden_syscalls = Inr sf1" and
    a2: "AddInverted k sf1 (SCMP_ACT_ERRNO EAFNOSUPPORT) ''socket'' 0 allowed_socket_domains = Inr sf"
    by (auto simp: BuildSyscallFilter_def split: sum.splits)
  from forbid_all_Inr[OF a1] have f: "\<forall>r\<in>set sf1. rule_syscall r \<in> set forbidden_syscalls"
    by auto
  have nosock: "\<forall>r\<in>set sf1. \<not> rule_matches r ''socket'' av"
    using f socket_not_forbidden by (auto simp: rule_matches_def)
  have sd: "sorted allowed_socket_domains" "distinct allowed_socket_domains"
    by (simp_all add: allowed_socket_domains_eq)
  from AddInverted_Inr[OF a2 sd] obtain new where
    n1: "sf = sf1 @ new" and
    n2: "\<forall>r\<in>set new. rule_action r = SCMP_ACT_ERRNO EAFNOSUPPORT \<and> rule_syscall r = ''socket''" and
    n3: "\<forall>av. (\<exists>r\<in>set new. rule_matches r ''socket'' av) \<longleftrightarrow> av 0 \<notin> set allowed_socket_domains"
    by blast
  have "set (filter_actions sf ''socket'' av) = rule_action ` {r \<in> set new. rule_matches r ''socket'' av}"
    using n1 nosock by (auto simp: filter_actions_def)
  also have "\<dots> = (if av 0 \<in> set allowed_socket_domains then {} else {SCMP_ACT_ERRNO EAFNOSUPPORT})"
    using n2 n3 by (auto simp: image_iff)
  also have "set allowed_socket_domains = {AF_LOCAL, AF_INET, AF_INET6}"
    by (auto simp: allowed_socket_domains_eq AF_LOCAL_def AF_INET_def AF_INET6_def)
  finally show ?thesis .
qed


lemma forbid_all_ok: "forbid_all (\<lambda>_. None) sf xs = Inr (sf @ map (\<lambda>i. mk_rule SCMP_ACT_KILL i []) xs)"
  by (induction xs arbitrary: sf) (simp_all add: AddRule_def)

lemma AddRange_ok:
  "\<exists>sf'. AddRange (\<lambda>_. None) sf a sc arg b e = Inr sf'"
proof (induction "\<lambda>_::seccomp_rule. None :: int option" sf a sc arg b e rule: AddRange.induct)
  case (1 sf action syscall arg b e)
  show ?case
  proof (cases "b = e")
    case True
    then show ?thesis by (simp add: AddRange.simps[of _ sf action syscall arg e e])
  next
    case False
    have r: "AddRule (\<lambda>_. None) sf (mk_rule action syscall [ArgCmp arg SCMP_CMP_EQ b])
          = Inr (sf @ [mk_rule action syscall [ArgCmp arg SCMP_CMP_EQ b]])"
      by (simp add: AddRule_def)
    from "1"[OF False r] False r show ?thesis
      by (simp add: AddRange.simps[of _ sf action syscall arg b e])
  qed
qed

lemma AddInverted_loop_ok:
  "\<exists>sf'. AddInverted_loop (\<lambda>_. None) sf a sc arg i rest = Inr sf'"
proof (induction rest arbitrary: sf i)
  case Nil
  then show ?case by (simp add: AddRule_def)
next
  case (Cons n rest)
  obtain sf1 where "AddRange (\<lambda>_. None) sf a sc arg (i + 1) n = Inr sf1"
    using AddRange_ok by blast
  with Cons[of sf1 n] show ?case by simp
qed

lemma AddInverted_ok:
  "ws \<noteq> [] \<Longrightarrow> \<exists>sf'. AddInverted (\<lambda>_. None) sf a sc arg ws = Inr sf'"
  using AddInverted_loop_ok by (cases ws) (simp_all add: AddRule_def)

lemma build_ok: "\<exists>sf. BuildSyscallFilter (\<lambda>_. None) [] = Inr sf"
proof -
  have "allowed_socket_domains \<noteq> []"
    by (simp add: allowed_socket_domains_eq)
  from AddInverted_ok[OF this] show ?thesis
    by (simp add: BuildSyscallFilter_def forbid_all_ok)
qed

theorem socket_domain_whitelist_witness:
  "BuildSyscallFilter (\<lambda>_. None) [] = Inr built_filter \<and>
   set (filter_actions built_filter ''socket'' (\<lambda>_. 5)) = {SCMP_ACT_ERRNO EAFNOSUPPORT} \<and>
   set (filter_actions built_filter ''socket'' (\<lambda>_. 10)) = {}"
proof -
  obtain sf where "BuildSyscallFilter (\<lambda>_. None) [] = Inr sf"
    using build_ok by blast
  then have sf: "BuildSyscallFilter (\<lambda>_. None) [] = Inr built_filter"
    by (simp add: built_filter_def)
  have "set (filter_actions built_filter ''socket'' (\<lambda>_. 5)) = {SCMP_ACT_ERRNO EAFNOSUPPORT}"
    using socket_domain_whitelist[OF sf, of "\<lambda>_. 5"]
    by (simp add: AF_LOCAL_def AF_INET_def AF_INET6_def)
  moreover have "set (filter_actions built_filter ''socket'' (\<lambda>_. 10)) = {}"
    using socket_domain_whitelist[OF sf, of "\<lambda>_. 10"]
    by (simp add: AF_LOCAL_def AF_INET_def AF_INET6_def)
  ultimately show ?thesis using sf by blast
qed

section \<open>Properties of copying child options\<close>

lemma fold_PutEnv_ns: "ns (fold_PutEnv L es d) = ns d"
  by (induction es arbitrary: d) (simp_all add: PutEnv_def)

text \<open>
  Claim C9.  Whenever \<^verbatim>\<open>CopyTo\<close> completes, the destination's namespace
  options have \<open>writable_proc\<close> set if \<open>forbid_user_ns\<close> is false, whatever
  the source requested; if \<open>forbid_user_ns\<close> is true the destination carries
  the source's \<open>writable_proc\<close> unchanged.
\<close>

theorem CopyTo_writable_proc:
  assumes "CopyTo L jail R src dest0 = Inr dest"
  shows "writable_proc (ns dest) =
           (if co_forbid_user_ns src then writable_proc (co_ns src) else True)"
proof -
  from assms obtain dest2 where "dest = CopyTo_rest L src dest2"
    by (auto simp: CopyTo_def split: sum.splits)
  then show ?thesis
    by (simp add: CopyTo_rest_def Let_def split: option.splits)
qed

theorem CopyTo_writable_proc_witness:
  "CopyTo example_limits None \<lparr>open_stderr_path = 5, open_dev_null = 6\<rparr>
      (ChildOptions_init example_limits) (PreparedChildProcess_init example_limits)
     = Inr (CopyTo_rest example_limits (ChildOptions_init example_limits)
             ((PreparedChildProcess_init example_limits)\<lparr>umask := - 1\<rparr>)) \<and>
   \<not> writable_proc (co_ns (ChildOptions_init example_limits)) \<and>
   writable_proc (ns (CopyTo_rest example_limits (ChildOptions_init example_limits)
             ((PreparedChildProcess_init example_limits)\<lparr>umask := - 1\<rparr>))) \<and>
   CopyTo example_limits None \<lparr>open_stderr_path = 5, open_dev_null = 6\<rparr>
      ((ChildOptions_init example_limits)\<lparr>co_forbid_user_ns := True\<rparr>)
      (PreparedChildProcess_init example_limits)
     = Inr (CopyTo_rest example_limits ((ChildOptions_init example_limits)\<lparr>co_forbid_user_ns := True\<rparr>)
             ((PreparedChildProcess_init example_limits)\<lparr>umask := - 1\<rparr>)) \<and>
   \<not> writable_proc (ns (CopyTo_rest example_limits ((ChildOptions_init example_limits)\<lparr>co_forbid_user_ns := True\<rparr>)
             ((PreparedChildProcess_init example_limits)\<lparr>umask := - 1\<rparr>)))"
proof -
  let ?R = "\<lparr>open_stderr_path = 5, open_dev_null = 6\<rparr>"
  let ?s1 = "ChildOptions_init example_limits"
  let ?s2 = "(ChildOptions_init example_limits)\<lparr>co_forbid_user_ns := True\<rparr>"
  let ?d = "PreparedChildProcess_init example_limits"
  have e1: "CopyTo example_limits None ?R ?s1 ?d = Inr (CopyTo_rest example_limits ?s1 (?d\<lparr>umask := - 1\<rparr>))"
    by (simp add: CopyTo_def CopyTo_stderr_def ChildOptions_init_def)
  have e2: "CopyTo example_limits None ?R ?s2 ?d = Inr (CopyTo_rest example_limits ?s2 (?d\<lparr>umask := - 1\<rparr>))"
    by (simp add: CopyTo_def CopyTo_stderr_def ChildOptions_init_def)
  have n: "\<not> writable_proc (co_ns ?s1)"
    by (simp add: ChildOptions_init_def NamespaceOptions_init_def)
  have w1: "writable_proc (ns (CopyTo_rest example_limits ?s1 (?d\<lparr>umask := - 1\<rparr>)))"
    using CopyTo_writable_proc[OF e1] by (simp add: ChildOptions_init_def)
  have w2: "\<not> writable_proc (ns (CopyTo_rest example_limits ?s2 (?d\<lparr>umask := - 1\<rparr>)))"
    using CopyTo_writable_proc[OF e2] by (simp add: ChildOptions_init_def NamespaceOptions_init_def)
  from e1 e2 n w1 w2 show ?thesis by blast
qed

section \<open>Basic facts about the server state\<close>

lemma emit_simps [simp]:
  "trace (emit evs s) = trace s @ evs"
  "connections (emit evs s) = connections s"
  "child_process_registry (emit evs s) = child_process_registry s"
  "config (emit evs s) = config s"
  "hook (emit evs s) = hook s"
  by (simp_all add: emit_def)

lemma emit_emit [simp]: "emit evs2 (emit evs1 s) = emit (evs1 @ evs2) s"
  by (simp add: emit_def)

lemma sent_frames_append [simp]: "sent_frames (xs @ ys) = sent_frames xs @ sent_frames ys"
  by (simp add: sent_frames_def)

lemma sent_frames_Nil [simp]: "sent_frames [] = []"
  by (simp add: sent_frames_def)

lemma sent_frames_Cons [simp]: "sent_frames (e # es) = sent_frame e @ sent_frames es"
  by (simp add: sent_frames_def)

lemma kill_signals_append [simp]: "kill_signals (xs @ ys) = kill_signals xs @ kill_signals ys"
  by (simp add: kill_signals_def)

lemma kill_signals_Nil [simp]: "kill_signals [] = []"
  by (simp add: kill_signals_def)

lemma kill_signals_Cons [simp]: "kill_signals (e # es) = kill_signal e @ kill_signals es"
  by (simp add: kill_signals_def)

lemma registered_pids_emit [simp]: "registered_pids (emit evs s) = registered_pids s"
  by (simp add: registered_pids_def)

lemma Registry_Kill_simps [simp]:
  "trace (Registry_Kill pid signo s) = trace s @ [EvKill pid signo]"
  "connections (Registry_Kill pid signo s) = connections s"
  "registered_pids (Registry_Kill pid signo s) = registered_pids s"
  "config (Registry_Kill pid signo s) = config s"
  "hook (Registry_Kill pid signo s) = hook s"
  by (simp_all add: Registry_Kill_def Let_def registered_pids_def comp_def)

lemma dispose_children_connections [simp]:
  "connections (dispose_children cs s) = connections s"
  by (induction cs arbitrary: s) simp_all

lemma dispose_children_pids [simp]:
  "registered_pids (dispose_children cs s) = registered_pids s"
  by (induction cs arbitrary: s) simp_all

lemma dispose_children_trace:
  "trace (dispose_children cs s) =
     trace s @ concat (map (\<lambda>c. [EvKill (child_pid c) SIGTERM, EvDeleteChild c]) cs)"
  by (induction cs arbitrary: s) simp_all

lemma dispose_children_sent [simp]:
  "sent_frames (trace (dispose_children cs s)) = sent_frames (trace s)"
  by (induction cs arbitrary: s) simp_all

lemma Quit_simps [simp]:
  "trace (Quit s) = trace s"
  "connections (Quit s) = connections s"
  "registered_pids (Quit s) = registered_pids s"
  by (simp_all add: Quit_def SetVolatile_def CheckVolatileEvent_def registered_pids_def)

lemma RemoveConnection_connections:
  "connections (RemoveConnection fd s) = filter (\<lambda>c. conn_fd c \<noteq> fd) (connections s)"
proof (cases "find_connection fd s")
  case None
  then have "\<forall>c\<in>set (connections s). conn_fd c \<noteq> fd"
    by (simp add: find_connection_def find_None_iff)
  with None show ?thesis
    by (simp add: RemoveConnection_def)
next
  case (Some c)
  then show ?thesis
    by (simp add: RemoveConnection_def Let_def SpawnServerConnection_destroy_def)
qed

lemma RemoveConnection_pids [simp]:
  "registered_pids (RemoveConnection fd s) = registered_pids s"
  by (cases "find_connection fd s")
     (simp_all add: RemoveConnection_def Let_def SpawnServerConnection_destroy_def registered_pids_def [symmetric],
      simp_all add: registered_pids_def)

lemma RemoveConnection_sent [simp]:
  "sent_frames (trace (RemoveConnection fd s)) = sent_frames (trace s)"
  by (cases "find_connection fd s")
     (simp_all add: RemoveConnection_def Let_def SpawnServerConnection_destroy_def)

lemma SendExit_pids [simp]:
  "registered_pids (SendExit E fd i st s) = registered_pids s"
  by (simp add: SendExit_def Let_def split: send_result.splits)

lemma SendExit_connections:
  "set (connections (SendExit E fd i st s)) \<subseteq> set (connections s)"
  by (auto simp: SendExit_def Let_def RemoveConnection_connections split: send_result.splits)

lemma SendExit_sent:
  "sent_frames (trace (SendExit E fd i st s)) =
     sent_frames (trace s) @ (if send_succeeds E then [(fd, Frame EXIT [i, st])] else [])"
  by (auto simp: SendExit_def Let_def send_succeeds_def split: send_result.splits)

lemma UidGid_init_empty [simp]: "UidGid_IsEmpty (UidGid_init L)"
  by (cases "max_groups L") (simp_all add: UidGid_IsEmpty_def UidGid_init_def)

lemma offered_frames_simps [simp]:
  "offered_frames [] = []"
  "offered_frames (e # es) = sendmsg_frame e @ offered_frames es"
  "offered_frames (xs @ ys) = offered_frames xs @ offered_frames ys"
  by (simp_all add: offered_frames_def)

lemma dispose_children_offered [simp]:
  "offered_frames (trace (dispose_children cs s)) = offered_frames (trace s)"
  by (induction cs arbitrary: s) simp_all

lemma RemoveConnection_offered [simp]:
  "offered_frames (trace (RemoveConnection fd s)) = offered_frames (trace s)"
  by (cases "find_connection fd s")
     (simp_all add: RemoveConnection_def Let_def SpawnServerConnection_destroy_def)

lemma SendExit_offered:
  "offered_frames (trace (SendExit E fd i st s)) =
     offered_frames (trace s) @ replicate (send_attempts E) (fd, Frame EXIT [i, st])"
  by (auto simp: SendExit_def Let_def send_attempts_def numeral_2_eq_2 split: send_result.splits)

lemma SpawnChild_verify_no_offer:
  "offered_frames (snd (SpawnChild_verify s p)) = []"
  by (auto simp: SpawnChild_verify_def SpawnServerProcess_Verify_def
           split: option.splits hook_result.splits bool.splits)

lemma W_EXITCODE_ff [simp]: "W_EXITCODE 0xff 0 = push_bit 8 0xff"
  by (simp add: W_EXITCODE_def)

lemma SpawnChild_verify_no_send:
  "sent_frames (snd (SpawnChild_verify s p)) = []"
  by (auto simp: SpawnChild_verify_def SpawnServerProcess_Verify_def
           split: option.splits hook_result.splits bool.splits)

lemma SpawnChild_prefork:
  assumes "prefork_failure E p s"
  shows "\<exists>evs. sent_frames evs = [] \<and> offered_frames evs = [] \<and>
           SpawnChild E fd i nm p s = SendExit E fd i (push_bit 8 0xff) (emit evs s)"
proof -
  obtain ok evs where v: "(if \<not> UidGid_IsEmpty (uid_gid p) then SpawnChild_verify s p else (True, [])) = (ok, evs)"
    by (cases "(if \<not> UidGid_IsEmpty (uid_gid p) then SpawnChild_verify s p else (True, []))") simp
  have ns: "sent_frames evs = []"
    using v SpawnChild_verify_no_send[of s p] by (auto split: if_splits)
  have no: "offered_frames evs = []"
    using v SpawnChild_verify_no_offer[of s p] by (auto split: if_splits)
  show ?thesis
  proof (cases "\<not> ok")
    case True
    then have "SpawnChild E fd i nm p s = SendExit E fd i (push_bit 8 0xff) (emit (evs @ [EvPrintException]) s)"
      using v by (simp add: SpawnChild_def)
    with ns no show ?thesis by (intro exI[of _ "evs @ [EvPrintException]"]) simp
  next
    case ok: False
    show ?thesis
    proof (cases "UidGid_IsEmpty (uid_gid p) \<and> UidGid_IsEmpty (default_uid_gid (config s))")
      case True
      then have "SpawnChild E fd i nm p s = SendExit E fd i (push_bit 8 0xff) (emit (evs @ [EvLog 1]) s)"
        using v ok by (simp add: SpawnChild_def)
      with ns no show ?thesis by (intro exI[of _ "evs @ [EvLog 1]"]) simp
    next
      case False
      with assms ok v have sp: "spawn_result E = None"
        by (auto simp: prefork_failure_def split: if_splits)
      let ?p = "if UidGid_IsEmpty (uid_gid p) then p\<lparr>uid_gid := default_uid_gid (config s)\<rparr> else p"
      have "SpawnChild E fd i nm p s =
            SendExit E fd i (push_bit 8 0xff) (emit (evs @ [EvSpawnChildProcess ?p None, EvLog 1]) s)"
        using v ok False sp by (auto simp add: SpawnChild_def Let_def)
      with ns no show ?thesis
        by (intro exI[of _ "evs @ [EvSpawnChildProcess ?p None, EvLog 1]"]) simp
    qed
  qed
qed

section \<open>Failures before the fork\<close>

lemma RemoveConnection_trace_prefix: "\<exists>rest. trace (RemoveConnection fd s) = trace s @ rest"
  by (cases "find_connection fd s")
     (simp_all add: RemoveConnection_def Let_def SpawnServerConnection_destroy_def dispose_children_trace)

lemma SendExit_trace_prefix: "\<exists>rest. trace (SendExit E fd i st s) = trace s @ rest"
proof -
  have r: "\<exists>rest. trace (RemoveConnection fd (emit evs s)) = trace s @ rest" for evs
    using RemoveConnection_trace_prefix[of fd "emit evs s"] by auto
  show ?thesis
    using r by (auto simp: SendExit_def Let_def split: send_result.splits)
qed

lemma RemoveConnection_removed: "fd \<notin> conn_fd ` set (connections (RemoveConnection fd s))"
  by (auto simp: RemoveConnection_connections)

text \<open>
  Claim C1.  When an EXEC request fails before the fork (its uid/gid is
  rejected by the verification, it has none and there is no default, or
  \<^verbatim>\<open>SpawnChildProcess\<close> throws), \<^verbatim>\<open>SpawnChild\<close> does exactly what one call
  \<^verbatim>\<open>SendExit(id, 0xff << 8)\<close> does, after events none of which hands
  anything to the socket.  So the only frame the server hands to the socket is
  the EXIT frame with the request's id and status \<open>0xff << 8\<close> (in one
  \<^verbatim>\<open>sendmsg\<close> call, or two when the first meets \<^verbatim>\<open>EAGAIN\<close> and is retried),
  and the socket accepts it once unless the send fails, which is the subject
  of C8.  No pid is added to the registry and no connection gains a child.
\<close>

theorem prefork_failure_sends_exit:
  assumes "prefork_failure E p s"
  shows "(\<exists>evs. offered_frames evs = [] \<and>
            SpawnChild E fd i nm p s = SendExit E fd i (push_bit 8 0xff) (emit evs s)) \<and>
         offered_frames (trace (SpawnChild E fd i nm p s)) =
           offered_frames (trace s) @
           replicate (send_attempts E) (fd, Frame EXIT [i, push_bit 8 0xff]) \<and>
         sent_frames (trace (SpawnChild E fd i nm p s)) =
           sent_frames (trace s) @
           (if send_succeeds E then [(fd, Frame EXIT [i, push_bit 8 0xff])] else []) \<and>
         registered_pids (SpawnChild E fd i nm p s) = registered_pids s \<and>
         set (connections (SpawnChild E fd i nm p s)) \<subseteq> set (connections s)"
proof -
  from SpawnChild_prefork[OF assms, of fd i nm] obtain evs where
    ns: "sent_frames evs = []" and no: "offered_frames evs = []" and
    eq: "SpawnChild E fd i nm p s = SendExit E fd i (push_bit 8 0xff) (emit evs s)"
    by blast
  have "sent_frames (trace (SpawnChild E fd i nm p s)) =
          sent_frames (trace s) @
          (if send_succeeds E then [(fd, Frame EXIT [i, push_bit 8 0xff])] else [])"
    unfolding eq SendExit_sent using ns by simp
  moreover have "offered_frames (trace (SpawnChild E fd i nm p s)) =
           offered_frames (trace s) @
           replicate (send_attempts E) (fd, Frame EXIT [i, push_bit 8 0xff])"
    unfolding eq SendExit_offered using no by simp
  moreover have "registered_pids (SpawnChild E fd i nm p s) = registered_pids s"
    unfolding eq by simp
  moreover have "set (connections (SpawnChild E fd i nm p s)) \<subseteq> set (connections s)"
    unfolding eq using SendExit_connections[of E fd i "push_bit 8 0xff" "emit evs s"] by simp
  ultimately show ?thesis using no eq by blast
qed

theorem prefork_failure_sends_exit_witness:
  "prefork_failure env_ok (PreparedChildProcess_init example_limits) example_process \<and>
   offered_frames (trace (SpawnChild env_ok 3 7 [] (PreparedChildProcess_init example_limits)
                         example_process)) = [(3, Frame EXIT [7, 65280])] \<and>
   sent_frames (trace (SpawnChild env_ok 3 7 [] (PreparedChildProcess_init example_limits)
                         example_process)) = [(3, Frame EXIT [7, 65280])] \<and>
   registered_pids (SpawnChild env_ok 3 7 [] (PreparedChildProcess_init example_limits)
                      example_process) = [100, 101]"
proof -
  have pf: "prefork_failure env_ok (PreparedChildProcess_init example_limits) example_process"
    by (simp add: prefork_failure_def PreparedChildProcess_init_def
          example_process_def example_config_def)
  from prefork_failure_sends_exit[OF pf, of 3 7 "[]"] pf show ?thesis
    by (simp add: send_succeeds_def send_attempts_def env_ok_def example_process_def
          registered_pids_def)
qed

section \<open>Verification of the uid/gid\<close>

lemma example_uid_gid_nonempty [simp]: "\<not> UidGid_IsEmpty example_uid_gid"
  by (simp add: UidGid_IsEmpty_def example_uid_gid_def)

lemma example_prepared_uid_gid [simp]: "uid_gid example_prepared = example_uid_gid"
  by (simp add: example_prepared_def)

text \<open>
  Claim C2 as stated fails for a hook that returns false: with such a hook
  installed and a uid/gid that the configuration allows, the verification in
  the specification's words does not pass, yet \<^verbatim>\<open>SpawnChild\<close> calls
  \<^verbatim>\<open>config.Verify\<close> after the hook, spawns the child and registers it, and
  sends no EXIT frame.
\<close>

theorem hook_false_falls_back_counterexample:
  "\<not> UidGid_IsEmpty (uid_gid example_prepared) \<and>
   \<not> spec_verification_passes hooked_process example_prepared \<and>
   trace (SpawnChild env_ok 3 7 [] example_prepared hooked_process) =
     [EvHookVerify (HookReturns False), EvConfigVerify example_uid_gid True,
      EvSpawnChildProcess example_prepared (Some 200)] \<and>
   sent_frames (trace (SpawnChild env_ok 3 7 [] example_prepared hooked_process)) = [] \<and>
   registered_pids (SpawnChild env_ok 3 7 [] example_prepared hooked_process) = [100, 101, 200]"
proof -
  have cv: "config_verify (config hooked_process) example_uid_gid"
    by (simp add: hooked_process_def example_process_def example_config_def example_uid_gid_def)
  have v: "SpawnChild_verify hooked_process example_prepared =
             (True, [EvHookVerify (HookReturns False), EvConfigVerify example_uid_gid True])"
    using cv by (simp add: SpawnChild_verify_def SpawnServerProcess_Verify_def hooked_process_def)
  have sp: "\<not> spec_verification_passes hooked_process example_prepared"
    by (simp add: spec_verification_passes_def hooked_process_def)
  have tr: "trace (SpawnChild env_ok 3 7 [] example_prepared hooked_process) =
     [EvHookVerify (HookReturns False), EvConfigVerify example_uid_gid True,
      EvSpawnChildProcess example_prepared (Some 200)]"
    using v by (simp add: SpawnChild_def Let_def env_ok_def Registry_Add_def update_children_def
         emit_def hooked_process_def example_process_def)
  have rp: "registered_pids (SpawnChild env_ok 3 7 [] example_prepared hooked_process) = [100, 101, 200]"
    using v by (simp add: SpawnChild_def Let_def env_ok_def Registry_Add_def update_children_def
         emit_def hooked_process_def example_process_def registered_pids_def)
  from sp tr rp show ?thesis by simp
qed

lemma SpawnChild_trace_verify:
  assumes "\<not> UidGid_IsEmpty (uid_gid p)"
  shows "\<exists>rest. trace (SpawnChild E fd i nm p s) = trace s @ snd (SpawnChild_verify s p) @ rest"
proof -
  obtain ok evs where v: "SpawnChild_verify s p = (ok, evs)"
    by (cases "SpawnChild_verify s p")
  have se: "\<exists>rest. trace (SendExit E fd i st (emit (evs @ more) s)) = trace s @ evs @ rest" for st more
    using SendExit_trace_prefix[of E fd i st "emit (evs @ more) s"] by auto
  show ?thesis
  proof (cases ok)
    case False
    with v assms se[of "push_bit 8 0xff" "[EvPrintException]"] show ?thesis
      by (simp add: SpawnChild_def)
  next
    case True
    show ?thesis
    proof (cases "spawn_result E")
      case None
      with v assms True se[of "push_bit 8 0xff" "[EvSpawnChildProcess p None, EvLog 1]"] show ?thesis
        by (simp add: SpawnChild_def)
    next
      case (Some pid)
      with v assms True show ?thesis
        by (simp add: SpawnChild_def Let_def Registry_Add_def update_children_def emit_def)
    qed
  qed
qed

lemma SpawnChild_verify_cases:
  "SpawnChild_verify s p =
     (case hook s of
        None \<Rightarrow> (config_verify (config s) (uid_gid p),
                  [EvConfigVerify (uid_gid p) (config_verify (config s) (uid_gid p))])
      | Some h \<Rightarrow>
          (h p = HookReturns True \<or> (h p = HookReturns False \<and> config_verify (config s) (uid_gid p)),
           EvHookVerify (h p) #
             (if h p = HookReturns False
              then [EvConfigVerify (uid_gid p) (config_verify (config s) (uid_gid p))] else [])))"
  by (auto simp: SpawnChild_verify_def SpawnServerProcess_Verify_def
           split: option.splits hook_result.splits bool.splits)

text \<open>
  Claim C2, amended.  For an EXEC request with a non-empty uid/gid the calls
  of the verification come first in what \<^verbatim>\<open>SpawnChild\<close> does: the hook's
  \<^verbatim>\<open>Verify\<close> on the prepared child if a hook is installed, and
  \<^verbatim>\<open>config.Verify\<close> on the uid/gid if no hook is installed or the hook's
  \<^verbatim>\<open>Verify\<close> returned false.  The verification fails when one of these calls
  throws; then \<^verbatim>\<open>SpawnChild\<close> does what \<^verbatim>\<open>SendExit(id, 0xff << 8)\<close> does
  after \<^verbatim>\<open>PrintException\<close>, \<^verbatim>\<open>SpawnChildProcess\<close> is not called and no pid is
  registered.
\<close>

theorem verification_failure_sends_exit:
  assumes "\<not> UidGid_IsEmpty (uid_gid p)"
  shows "SpawnChild_verify s p =
           (case hook s of
              None \<Rightarrow> (config_verify (config s) (uid_gid p),
                        [EvConfigVerify (uid_gid p) (config_verify (config s) (uid_gid p))])
            | Some h \<Rightarrow>
                (h p = HookReturns True \<or>
                   (h p = HookReturns False \<and> config_verify (config s) (uid_gid p)),
                 EvHookVerify (h p) #
                   (if h p = HookReturns False
                    then [EvConfigVerify (uid_gid p) (config_verify (config s) (uid_gid p))]
                    else []))) \<and>
         (\<exists>rest. trace (SpawnChild E fd i nm p s) = trace s @ snd (SpawnChild_verify s p) @ rest) \<and>
         (\<not> fst (SpawnChild_verify s p) \<longrightarrow>
            SpawnChild E fd i nm p s =
              SendExit E fd i (push_bit 8 0xff)
                (emit (snd (SpawnChild_verify s p) @ [EvPrintException]) s) \<and>
            offered_frames (trace (SpawnChild E fd i nm p s)) =
              offered_frames (trace s) @
              replicate (send_attempts E) (fd, Frame EXIT [i, push_bit 8 0xff]) \<and>
            sent_frames (trace (SpawnChild E fd i nm p s)) =
              sent_frames (trace s) @
              (if send_succeeds E then [(fd, Frame EXIT [i, push_bit 8 0xff])] else []) \<and>
            registered_pids (SpawnChild E fd i nm p s) = registered_pids s)"
proof -
  have "\<not> fst (SpawnChild_verify s p) \<longrightarrow>
          SpawnChild E fd i nm p s =
            SendExit E fd i (push_bit 8 0xff)
              (emit (snd (SpawnChild_verify s p) @ [EvPrintException]) s)"
    using assms by (cases "SpawnChild_verify s p") (simp add: SpawnChild_def)
  moreover have "\<not> fst (SpawnChild_verify s p) \<longrightarrow>
          offered_frames (trace (SpawnChild E fd i nm p s)) =
              offered_frames (trace s) @
              replicate (send_attempts E) (fd, Frame EXIT [i, push_bit 8 0xff]) \<and>
          sent_frames (trace (SpawnChild E fd i nm p s)) =
              sent_frames (trace s) @
              (if send_succeeds E then [(fd, Frame EXIT [i, push_bit 8 0xff])] else []) \<and>
          registered_pids (SpawnChild E fd i nm p s) = registered_pids s"
  proof
    assume f: "\<not> fst (SpawnChild_verify s p)"
    then have "prefork_failure E p s"
      using assms by (simp add: prefork_failure_def)
    from SpawnChild_prefork[OF this, of fd i nm] obtain evs where
      ns: "sent_frames evs = []" and no: "offered_frames evs = []" and
      eq: "SpawnChild E fd i nm p s = SendExit E fd i (push_bit 8 0xff) (emit evs s)"
      by blast
    show "offered_frames (trace (SpawnChild E fd i nm p s)) =
              offered_frames (trace s) @
              replicate (send_attempts E) (fd, Frame EXIT [i, push_bit 8 0xff]) \<and>
          sent_frames (trace (SpawnChild E fd i nm p s)) =
              sent_frames (trace s) @
              (if send_succeeds E then [(fd, Frame EXIT [i, push_bit 8 0xff])] else []) \<and>
          registered_pids (SpawnChild E fd i nm p s) = registered_pids s"
      unfolding eq SendExit_sent SendExit_offered using ns no by simp
  qed
  ultimately show ?thesis
    using SpawnChild_verify_cases[of s p] SpawnChild_trace_verify[OF assms, of E fd i nm s]
    by blast
qed

theorem verification_failure_sends_exit_witness:
  "\<not> UidGid_IsEmpty (uid_gid (example_prepared\<lparr>uid_gid := example_uid_gid\<lparr>uid := 0\<rparr>\<rparr>)) \<and>
   \<not> fst (SpawnChild_verify hooked_process (example_prepared\<lparr>uid_gid := example_uid_gid\<lparr>uid := 0\<rparr>\<rparr>)) \<and>
   snd (SpawnChild_verify hooked_process (example_prepared\<lparr>uid_gid := example_uid_gid\<lparr>uid := 0\<rparr>\<rparr>)) =
     [EvHookVerify (HookReturns False), EvConfigVerify (example_uid_gid\<lparr>uid := 0\<rparr>) False] \<and>
   sent_frames (trace (SpawnChild env_ok 3 7 []
       (example_prepared\<lparr>uid_gid := example_uid_gid\<lparr>uid := 0\<rparr>\<rparr>) hooked_process)) =
     [(3, Frame EXIT [7, 65280])] \<and>
   registered_pids (SpawnChild env_ok 3 7 []
       (example_prepared\<lparr>uid_gid := example_uid_gid\<lparr>uid := 0\<rparr>\<rparr>) hooked_process) = [100, 101]"
proof -
  let ?p = "example_prepared\<lparr>uid_gid := example_uid_gid\<lparr>uid := 0\<rparr>\<rparr>"
  have ne: "\<not> UidGid_IsEmpty (uid_gid ?p)"
    by (simp add: UidGid_IsEmpty_def example_uid_gid_def)
  have cv: "\<not> config_verify (config hooked_process) (example_uid_gid\<lparr>uid := 0\<rparr>)"
    by (simp add: hooked_process_def example_process_def example_config_def example_uid_gid_def)
  have h: "hook hooked_process = Some (\<lambda>p. HookReturns False)"
    by (simp add: hooked_process_def)
  have s0: "sent_frames (trace hooked_process) = []" "registered_pids hooked_process = [100, 101]"
    by (simp_all add: hooked_process_def example_process_def registered_pids_def)
  have ok: "send_succeeds env_ok"
    by (simp add: send_succeeds_def env_ok_def)
  note T = verification_failure_sends_exit[OF ne, of hooked_process env_ok 3 7 "[]"]
  have v: "SpawnChild_verify hooked_process ?p =
             (False, [EvHookVerify (HookReturns False), EvConfigVerify (example_uid_gid\<lparr>uid := 0\<rparr>) False])"
    using T cv h by simp
  then have f: "\<not> fst (SpawnChild_verify hooked_process ?p)"
    by simp
  from T f have
    "sent_frames (trace (SpawnChild env_ok 3 7 [] ?p hooked_process)) =
       sent_frames (trace hooked_process) @
       (if send_succeeds env_ok then [(3, Frame EXIT [7, push_bit 8 0xff])] else [])"
    "registered_pids (SpawnChild env_ok 3 7 [] ?p hooked_process) = registered_pids hooked_process"
    by blast+
  with s0 ok ne v show ?thesis by simp
qed

section \<open>Sending EXIT frames\<close>

lemma ppoll_calls_simps [simp]:
  "ppoll_calls [] = []"
  "ppoll_calls (e # es) = (if is_ppoll e then e # ppoll_calls es else ppoll_calls es)"
  "ppoll_calls (xs @ ys) = ppoll_calls xs @ ppoll_calls ys"
  by (simp_all add: ppoll_calls_def)

lemma sendmsg_calls_simps [simp]:
  "sendmsg_calls [] = []"
  "sendmsg_calls (e # es) = (if is_sendmsg e then e # sendmsg_calls es else sendmsg_calls es)"
  "sendmsg_calls (xs @ ys) = sendmsg_calls xs @ sendmsg_calls ys"
  by (simp_all add: sendmsg_calls_def)

lemma dispose_children_calls [simp]:
  "ppoll_calls (trace (dispose_children cs s)) = ppoll_calls (trace s)"
  "sendmsg_calls (trace (dispose_children cs s)) = sendmsg_calls (trace s)"
  by (induction cs arbitrary: s) simp_all

lemma RemoveConnection_calls [simp]:
  "ppoll_calls (trace (RemoveConnection fd s)) = ppoll_calls (trace s)"
  "sendmsg_calls (trace (RemoveConnection fd s)) = sendmsg_calls (trace s)"
  by (cases "find_connection fd s";
      simp add: RemoveConnection_def Let_def SpawnServerConnection_destroy_def)+

text \<open>
  Claim C8.  When the first \<^verbatim>\<open>sendmsg\<close> of an EXIT frame fails with
  \<^verbatim>\<open>EAGAIN\<close>, \<^verbatim>\<open>SendExit\<close> makes exactly one \<^verbatim>\<open>ppoll\<close> call, for
  \<^verbatim>\<open>POLLOUT\<close> on the connection's descriptor with a timeout of 10 seconds
  and all signals masked; if it returns a positive value the frame is sent
  once more, and not otherwise.  Unless that second send succeeds, the
  failure is logged and the connection is removed; if it succeeds the
  connections are left as they are.
\<close>

theorem SendExit_EAGAIN_retry:
  assumes "send_first E = SendFailed EAGAIN"
  shows "ppoll_calls (trace (SendExit E fd i st s)) =
           ppoll_calls (trace s) @ [EvPpoll fd POLLOUT 10 0 True (ppoll_result E)] \<and>
         sendmsg_calls (trace (SendExit E fd i st s)) =
           sendmsg_calls (trace s) @
           [EvSendmsg fd (Frame EXIT [i, st]) (SendFailed EAGAIN)] @
           (if ppoll_result E > 0 then [EvSendmsg fd (Frame EXIT [i, st]) (send_retry E)] else []) \<and>
         (ppoll_result E > 0 \<and> send_retry E = Sent \<longrightarrow>
            SendExit E fd i st s =
              emit [EvSendmsg fd (Frame EXIT [i, st]) (SendFailed EAGAIN),
                    EvPpoll fd POLLOUT 10 0 True (ppoll_result E),
                    EvSendmsg fd (Frame EXIT [i, st]) Sent] s) \<and>
         (\<not> (ppoll_result E > 0 \<and> send_retry E = Sent) \<longrightarrow>
            SendExit E fd i st s =
              RemoveConnection fd
                (emit ([EvSendmsg fd (Frame EXIT [i, st]) (SendFailed EAGAIN),
                        EvPpoll fd POLLOUT 10 0 True (ppoll_result E)] @
                       (if ppoll_result E > 0
                        then [EvSendmsg fd (Frame EXIT [i, st]) (send_retry E)] else []) @
                       [EvLog 1]) s) \<and>
            fd \<notin> conn_fd ` set (connections (SendExit E fd i st s)))"
proof -
  have a: "ppoll_calls (trace (SendExit E fd i st s)) =
           ppoll_calls (trace s) @ [EvPpoll fd POLLOUT 10 0 True (ppoll_result E)]"
    using assms by (simp add: SendExit_def Let_def split: send_result.splits)
  have b: "sendmsg_calls (trace (SendExit E fd i st s)) =
           sendmsg_calls (trace s) @
           [EvSendmsg fd (Frame EXIT [i, st]) (SendFailed EAGAIN)] @
           (if ppoll_result E > 0 then [EvSendmsg fd (Frame EXIT [i, st]) (send_retry E)] else [])"
    using assms by (simp add: SendExit_def Let_def split: send_result.splits)
  have c: "ppoll_result E > 0 \<and> send_retry E = Sent \<longrightarrow>
            SendExit E fd i st s =
              emit [EvSendmsg fd (Frame EXIT [i, st]) (SendFailed EAGAIN),
                    EvPpoll fd POLLOUT 10 0 True (ppoll_result E),
                    EvSendmsg fd (Frame EXIT [i, st]) Sent] s"
    using assms by (simp add: SendExit_def Let_def)
  have d: "\<not> (ppoll_result E > 0 \<and> send_retry E = Sent) \<longrightarrow>
            SendExit E fd i st s =
              RemoveConnection fd
                (emit ([EvSendmsg fd (Frame EXIT [i, st]) (SendFailed EAGAIN),
                        EvPpoll fd POLLOUT 10 0 True (ppoll_result E)] @
                       (if ppoll_result E > 0
                        then [EvSendmsg fd (Frame EXIT [i, st]) (send_retry E)] else []) @
                       [EvLog 1]) s)"
    using assms by (auto simp: SendExit_def Let_def split: send_result.splits)
  have e: "\<not> (ppoll_result E > 0 \<and> send_retry E = Sent) \<longrightarrow>
            fd \<notin> conn_fd ` set (connections (SendExit E fd i st s))"
  proof
    assume n: "\<not> (ppoll_result E > 0 \<and> send_retry E = Sent)"
    with d obtain s' where "SendExit E fd i st s = RemoveConnection fd s'"
      by blast
    then show "fd \<notin> conn_fd ` set (connections (SendExit E fd i st s))"
      using RemoveConnection_removed[of fd s'] by simp
  qed
  from a b c d e show ?thesis by blast
qed

theorem SendExit_EAGAIN_retry_witness:
  "send_first (env_ok\<lparr>send_first := SendFailed EAGAIN, send_retry := SendFailed 32\<rparr>) = SendFailed EAGAIN \<and>
   ppoll_calls (trace (SendExit (env_ok\<lparr>send_first := SendFailed EAGAIN, send_retry := SendFailed 32\<rparr>)
                         3 5 0 example_process)) = [EvPpoll 3 POLLOUT 10 0 True 1] \<and>
   sendmsg_calls (trace (SendExit (env_ok\<lparr>send_first := SendFailed EAGAIN, send_retry := SendFailed 32\<rparr>)
                         3 5 0 example_process)) =
     [EvSendmsg 3 (Frame EXIT [5, 0]) (SendFailed EAGAIN), EvSendmsg 3 (Frame EXIT [5, 0]) (SendFailed 32)] \<and>
   connections (SendExit (env_ok\<lparr>send_first := SendFailed EAGAIN, send_retry := SendFailed 32\<rparr>)
                         3 5 0 example_process) = []"
proof -
  let ?E = "env_ok\<lparr>send_first := SendFailed EAGAIN, send_retry := SendFailed 32\<rparr>"
  have sf: "send_first ?E = SendFailed EAGAIN" by simp
  have pr: "ppoll_result ?E = 1" "send_retry ?E = SendFailed 32"
    by (simp_all add: env_ok_def)
  have t0: "trace example_process = []" "connections example_process = [\<lparr>conn_fd = 3, children = [example_child5, example_child6]\<rparr>]"
    by (simp_all add: example_process_def)
  note T = SendExit_EAGAIN_retry[OF sf, of 3 5 0 example_process]
  have n: "\<not> (ppoll_result ?E > 0 \<and> send_retry ?E = Sent)"
    using pr by simp
  from T n have "fd_gone": "3 \<notin> conn_fd ` set (connections (SendExit ?E 3 5 0 example_process))"
    by blast
  have sub: "set (connections (SendExit ?E 3 5 0 example_process)) \<subseteq> set (connections example_process)"
    by (rule SendExit_connections)
  have "connections (SendExit ?E 3 5 0 example_process) = []"
  proof (rule ccontr)
    assume "connections (SendExit ?E 3 5 0 example_process) \<noteq> []"
    then obtain c where c: "c \<in> set (connections (SendExit ?E 3 5 0 example_process))"
      by (cases "connections (SendExit ?E 3 5 0 example_process)") auto
    with sub t0 have "conn_fd c = 3" by auto
    with c fd_gone show False by force
  qed
  moreover from T have
    "ppoll_calls (trace (SendExit ?E 3 5 0 example_process)) =
       ppoll_calls (trace example_process) @ [EvPpoll 3 POLLOUT 10 0 True (ppoll_result ?E)]"
    "sendmsg_calls (trace (SendExit ?E 3 5 0 example_process)) =
       sendmsg_calls (trace example_process) @
       [EvSendmsg 3 (Frame EXIT [5, 0]) (SendFailed EAGAIN)] @
       (if ppoll_result ?E > 0 then [EvSendmsg 3 (Frame EXIT [5, 0]) (send_retry ?E)] else [])"
    by blast+
  then have
    "ppoll_calls (trace (SendExit ?E 3 5 0 example_process)) = [EvPpoll 3 POLLOUT 10 0 True 1]"
    "sendmsg_calls (trace (SendExit ?E 3 5 0 example_process)) =
     [EvSendmsg 3 (Frame EXIT [5, 0]) (SendFailed EAGAIN), EvSendmsg 3 (Frame EXIT [5, 0]) (SendFailed 32)]"
    using pr t0 by simp_all
  ultimately show ?thesis using sf by blast
qed

section \<open>Connection teardown\<close>

lemma dispose_children_kills:
  "kill_signals (trace (dispose_children cs s)) =
     kill_signals (trace s) @ map (\<lambda>c. (child_pid c, SIGTERM)) cs"
  by (induction cs arbitrary: s) simp_all

lemma Registry_Kill_reg:
  "reg_children (child_process_registry (Registry_Kill pid signo s)) =
     map (\<lambda>c. if cp_pid c = pid
               then c\<lparr>cp_listener := None,
                      kill_timeout_armed := (signo = SIGTERM \<or> signo = SIGKILL \<or> kill_timeout_armed c)\<rparr>
               else c) (reg_children (child_process_registry s))"
  by (simp add: Registry_Kill_def Let_def)

lemma dispose_children_reg:
  "reg_children (child_process_registry (dispose_children cs s)) =
     map (\<lambda>e. if cp_pid e \<in> child_pid ` set cs
               then e\<lparr>cp_listener := None, kill_timeout_armed := True\<rparr> else e)
         (reg_children (child_process_registry s))"
proof (induction cs arbitrary: s)
  case Nil
  then show ?case by simp
next
  case (Cons c cs)
  have "reg_children (child_process_registry (dispose_children (c # cs) s)) =
        map (\<lambda>e. if cp_pid e \<in> child_pid ` set cs
               then e\<lparr>cp_listener := None, kill_timeout_armed := True\<rparr> else e)
          (map (\<lambda>e. if cp_pid e = child_pid c
               then e\<lparr>cp_listener := None, kill_timeout_armed := True\<rparr> else e)
             (reg_children (child_process_registry s)))"
    by (simp add: Cons.IH Registry_Kill_reg)
  also have "\<dots> = map (\<lambda>e. if cp_pid e \<in> child_pid ` set (c # cs)
               then e\<lparr>cp_listener := None, kill_timeout_armed := True\<rparr> else e)
         (reg_children (child_process_registry s))"
    by (rule nth_equalityI) (simp_all del: image_insert add: image_insert insert_iff)
  finally show ?case .
qed

text \<open>
  Claim C5.  The destructor of a connection that owns the children \<open>cs\<close> has
  the registry send \<^verbatim>\<open>SIGTERM\<close> to the pid of each of them, once each and to
  nobody else; the connection's set of children is empty afterwards; the
  registry keeps the same pids registered, and their entries no longer have a
  listener.  The same holds when the connection is removed from the server
  through \<^verbatim>\<open>RemoveConnection\<close>.
\<close>

theorem connection_destroy_kills_children:
  "children (fst (SpawnServerConnection_destroy c s)) = [] \<and>
   kill_signals (trace (snd (SpawnServerConnection_destroy c s))) =
     kill_signals (trace s) @ map (\<lambda>ch. (child_pid ch, SIGTERM)) (children c) \<and>
   registered_pids (snd (SpawnServerConnection_destroy c s)) = registered_pids s \<and>
   (\<forall>e\<in>set (reg_children (child_process_registry (snd (SpawnServerConnection_destroy c s)))).
      cp_pid e \<in> child_pid ` set (children c) \<longrightarrow> cp_listener e = None) \<and>
   (find_connection fd s = Some c \<longrightarrow>
      kill_signals (trace (RemoveConnection fd s)) =
        kill_signals (trace s) @ map (\<lambda>ch. (child_pid ch, SIGTERM)) (children c) \<and>
      registered_pids (RemoveConnection fd s) = registered_pids s \<and>
      fd \<notin> conn_fd ` set (connections (RemoveConnection fd s)))"
proof -
  have a: "kill_signals (trace (snd (SpawnServerConnection_destroy c s))) =
     kill_signals (trace s) @ map (\<lambda>ch. (child_pid ch, SIGTERM)) (children c)"
    by (simp add: SpawnServerConnection_destroy_def dispose_children_kills)
  have b: "\<forall>e\<in>set (reg_children (child_process_registry (snd (SpawnServerConnection_destroy c s)))).
      cp_pid e \<in> child_pid ` set (children c) \<longrightarrow> cp_listener e = None"
    by (auto simp: SpawnServerConnection_destroy_def dispose_children_reg)
  have r: "find_connection fd s = Some c \<longrightarrow>
      kill_signals (trace (RemoveConnection fd s)) =
        kill_signals (trace s) @ map (\<lambda>ch. (child_pid ch, SIGTERM)) (children c)"
    by (simp add: RemoveConnection_def Let_def SpawnServerConnection_destroy_def
          dispose_children_kills)
  from a b r show ?thesis
    by (simp add: SpawnServerConnection_destroy_def RemoveConnection_removed)
qed

theorem connection_destroy_kills_children_witness:
  "find_connection 3 example_process = Some \<lparr>conn_fd = 3, children = [example_child5, example_child6]\<rparr> \<and>
   kill_signals (trace (RemoveConnection 3 example_process)) = [(100, 15), (101, 15)] \<and>
   registered_pids (RemoveConnection 3 example_process) = [100, 101] \<and>
   3 \<notin> conn_fd ` set (connections (RemoveConnection 3 example_process))"
proof -
  let ?c = "\<lparr>conn_fd = 3, children = [example_child5, example_child6]\<rparr>"
  have f: "find_connection 3 example_process = Some ?c"
    by (simp add: find_connection_def example_process_def)
  have t: "kill_signals (trace example_process) = []" "registered_pids example_process = [100, 101]"
    by (simp_all add: example_process_def registered_pids_def)
  from connection_destroy_kills_children[of ?c example_process 3] f have
    "kill_signals (trace (RemoveConnection 3 example_process)) =
        kill_signals (trace example_process) @ map (\<lambda>ch. (child_pid ch, SIGTERM)) (children ?c)"
    "registered_pids (RemoveConnection 3 example_process) = registered_pids example_process"
    "3 \<notin> conn_fd ` set (connections (RemoveConnection 3 example_process))"
    by blast+
  with f t show ?thesis
    by (simp add: example_child5_def example_child6_def SIGTERM_def)
qed

section \<open>KILL requests\<close>

lemma kill_payload_reads:
  "kill_payload payload i signo \<Longrightarrow>
   \<exists>pl1. ReadInt payload = Inr (i, pl1) \<and> ReadInt pl1 = Inr (signo, [])"
  by (auto simp: kill_payload_def split: sum.splits)

lemma HandleKillMessage_found:
  assumes "kill_payload payload i signo"
  shows "HandleKillMessage fd payload [] s =
           (case find_child i (children_of fd s) of
              None \<Rightarrow> Inr s
            | Some child \<Rightarrow>
                Inr (emit [EvDeleteChild child]
                       (Registry_Kill (child_pid child) signo
                          (update_children fd (erase_child i) s))))"
proof -
  from kill_payload_reads[OF assms] obtain pl1 where
    "ReadInt payload = Inr (i, pl1)" "ReadInt pl1 = Inr (signo, [])"
    by blast
  then show ?thesis
    by (simp add: HandleKillMessage_def bindE_def)
qed

text \<open>
  Claim C6.  A well-formed KILL command (no descriptors attached, the
  payload exactly two integers) for an id that is not in the connection's set
  of children leaves the whole state of the server as it is, the trace
  included: nothing is sent and nobody is signalled.  So does the datagram
  that carries it.
\<close>

theorem kill_unknown_id_noop:
  assumes "kill_payload payload i signo"
    and "find_child i (children_of fd s) = None"
  shows "HandleKillMessage fd payload [] s = Inr s \<and>
         (request_command P b = Some KILL \<longrightarrow> HandleMessage P E fd (b # payload) [] s = Inr s)"
  using assms by (simp add: HandleKillMessage_found HandleMessage_def)

lemma le_int32_small: "le_int32 [5, 0, 0, 0] = 5" "le_int32 [7, 0, 0, 0] = 7"
  "le_int32 [15, 0, 0, 0] = 15"
  by (simp_all add: le_int32_def le_nat_def)

lemma kill_payload_example:
  "kill_payload [7, 0, 0, 0, 15, 0, 0, 0] 7 15" "kill_payload [5, 0, 0, 0, 15, 0, 0, 0] 5 15"
  by (simp_all add: kill_payload_def ReadInt_def ReadT_def bindE_def le_int32_small)

lemma example_children_of: "children_of 3 example_process = [example_child5, example_child6]"
  by (simp add: children_of_def find_connection_def example_process_def)

theorem kill_unknown_id_noop_witness:
  "kill_payload [7, 0, 0, 0, 15, 0, 0, 0] 7 15 \<and>
   find_child 7 (children_of 3 example_process) = None \<and>
   request_command example_protocol 2 = Some KILL \<and>
   HandleKillMessage 3 [7, 0, 0, 0, 15, 0, 0, 0] [] example_process = Inr example_process \<and>
   HandleMessage example_protocol env_ok 3 [2, 7, 0, 0, 0, 15, 0, 0, 0] [] example_process
     = Inr example_process"
proof -
  have f: "find_child 7 (children_of 3 example_process) = None"
    by (simp add: example_children_of find_child_def example_child5_def example_child6_def)
  have k: "request_command example_protocol 2 = Some KILL"
    by (simp add: example_protocol_def nth_option_def)
  from kill_unknown_id_noop[OF kill_payload_example(1) f, of example_protocol 2 env_ok] k f
    kill_payload_example(1)
  show ?thesis by simp
qed

lemma find_map_upd:
  assumes "\<And>x. P (f x) = P x"
  shows "find P (map f xs) = map_option f (find P xs)"
  using assms by (induction xs) simp_all

lemma find_connection_update_children:
  "find_connection fd (update_children fd' f s) =
     map_option (\<lambda>c. if conn_fd c = fd' then c\<lparr>children := f (children c)\<rparr> else c)
       (find_connection fd s)"
  unfolding find_connection_def update_children_def
  by (simp add: find_map_upd)

lemma children_of_update_children:
  "children_of fd (update_children fd f s) = (case find_connection fd s of
      None \<Rightarrow> [] | Some c \<Rightarrow> f (children c))"
proof (cases "find_connection fd s")
  case None
  then show ?thesis
    by (simp add: children_of_def find_connection_update_children)
next
  case (Some c)
  then have "conn_fd c = fd"
    by (auto simp: find_connection_def find_Some_iff)
  with Some show ?thesis
    by (simp add: children_of_def find_connection_update_children)
qed

lemma find_connection_emit [simp]: "find_connection fd (emit evs s) = find_connection fd s"
  by (simp add: find_connection_def)

lemma find_connection_Registry_Kill [simp]:
  "find_connection fd (Registry_Kill pid signo s) = find_connection fd s"
  by (simp add: find_connection_def)

lemma children_of_emit [simp]: "children_of fd (emit evs s) = children_of fd s"
  by (simp add: children_of_def)

lemma children_of_Registry_Kill [simp]:
  "children_of fd (Registry_Kill pid signo s) = children_of fd s"
  by (simp add: children_of_def)

lemma find_child_erase [simp]: "find_child i (erase_child i cs) = None"
  by (simp add: find_child_def erase_child_def find_None_iff)

lemma Registry_OnExit_after_Kill:
  "trace (Registry_OnExit E pid status (emit evs (Registry_Kill pid signo s))) =
     trace (emit evs (Registry_Kill pid signo s))"
proof -
  let ?upd = "\<lambda>c. if cp_pid c = pid
               then c\<lparr>cp_listener := None,
                      kill_timeout_armed := (signo = SIGTERM \<or> signo = SIGKILL \<or> kill_timeout_armed c)\<rparr>
               else c"
  let ?s' = "emit evs (Registry_Kill pid signo s)"
  have reg: "reg_children (child_process_registry ?s') =
               map ?upd (reg_children (child_process_registry s))"
    by (simp add: Registry_Kill_reg)
  have "find (\<lambda>c. cp_pid c = pid) (map ?upd (reg_children (child_process_registry s))) =
          map_option ?upd (find (\<lambda>c. cp_pid c = pid) (reg_children (child_process_registry s)))"
    by (rule find_map_upd) simp
  then have f: "find (\<lambda>c. cp_pid c = pid) (reg_children (child_process_registry ?s')) =
          map_option ?upd (find (\<lambda>c. cp_pid c = pid) (reg_children (child_process_registry s)))"
    using reg by simp
  show ?thesis
  proof (cases "find (\<lambda>c. cp_pid c = pid) (reg_children (child_process_registry s))")
    case None
    with f show ?thesis
      by (simp add: Registry_OnExit_def)
  next
    case (Some c)
    then have "cp_pid c = pid"
      by (auto simp: find_Some_iff)
    with Some f have "find (\<lambda>c. cp_pid c = pid) (reg_children (child_process_registry ?s')) =
        Some (c\<lparr>cp_listener := None,
                kill_timeout_armed := (signo = SIGTERM \<or> signo = SIGKILL \<or> kill_timeout_armed c)\<rparr>)"
      by simp
    then show ?thesis
      by (simp add: Registry_OnExit_def Let_def)
  qed
qed

section \<open>A killed child is never reported\<close>

lemma unlistened_unl:
  "unlistened pid s = unl pid (reg_children (child_process_registry s))"
proof -
  have "list_all (\<lambda>e. cp_pid e \<noteq> pid \<or> cp_listener e = None) r =
          (\<forall>e\<in>set r. cp_pid e = pid \<longrightarrow> cp_listener e = None)"
    for r :: "ChildProcess list"
    by (simp add: list_all_iff)
  then show ?thesis
    by (simp add: unlistened_def unl_def registered_pids_def)
qed

lemma unlistened_emit [simp]: "unlistened pid (emit evs s) = unlistened pid s"
  by (simp add: unlistened_unl)

lemma unlistened_update_children [simp]:
  "unlistened pid (update_children fd f s) = unlistened pid s"
  by (simp add: unlistened_unl update_children_def)

lemma unl_map:
  assumes u: "unl pid r"
    and p: "\<And>e. cp_pid (f e) = cp_pid e"
    and l: "\<And>e. cp_listener e = None \<Longrightarrow> cp_listener (f e) = None"
  shows "unl pid (map f r)"
proof -
  from u obtain e where e: "e \<in> set r" "cp_pid e = pid"
    by (auto simp: unl_def)
  then have "f e \<in> set (map f r)" "cp_pid (f e) = pid"
    using p by simp_all
  then have 1: "pid \<in> cp_pid ` set (map f r)"
    by (intro rev_image_eqI[where x = "f e"]) simp_all
  have 2: "\<forall>e'\<in>set (map f r). cp_pid e' = pid \<longrightarrow> cp_listener e' = None"
  proof
    fix e' assume "e' \<in> set (map f r)"
    then obtain e0 where e0: "e0 \<in> set r" "e' = f e0" by auto
    show "cp_pid e' = pid \<longrightarrow> cp_listener e' = None"
    proof
      assume "cp_pid e' = pid"
      with e0 p have "cp_pid e0 = pid" by simp
      with u e0 have "cp_listener e0 = None" by (simp add: unl_def)
      with e0 l show "cp_listener e' = None" by simp
    qed
  qed
  from 1 2 show ?thesis by (simp add: unl_def)
qed

lemma unlistened_Registry_Kill:
  assumes "unlistened pid s"
  shows "unlistened pid (Registry_Kill pid' signo s)"
proof -
  let ?upd = "\<lambda>c. if cp_pid c = pid'
               then c\<lparr>cp_listener := None,
                      kill_timeout_armed := (signo = SIGTERM \<or> signo = SIGKILL \<or> kill_timeout_armed c)\<rparr>
               else c"
  have u: "unl pid (reg_children (child_process_registry s))"
    using assms by (simp add: unlistened_unl)
  have p: "\<And>e. cp_pid (?upd e) = cp_pid e" by simp
  have l: "\<And>e. cp_listener e = None \<Longrightarrow> cp_listener (?upd e) = None" by simp
  have "unl pid (map ?upd (reg_children (child_process_registry s)))"
    using u p l by (rule unl_map)
  then show ?thesis
    by (simp add: unlistened_unl Registry_Kill_reg)
qed

lemma unlistened_after_Kill:
  assumes "pid \<in> set (registered_pids s)"
  shows "unlistened pid (Registry_Kill pid signo s)"
proof -
  let ?upd = "\<lambda>c. if cp_pid c = pid
               then c\<lparr>cp_listener := None,
                      kill_timeout_armed := (signo = SIGTERM \<or> signo = SIGKILL \<or> kill_timeout_armed c)\<rparr>
               else c"
  let ?r = "reg_children (child_process_registry s)"
  from assms obtain e where e: "e \<in> set ?r" "cp_pid e = pid"
    by (auto simp: registered_pids_def)
  then have "?upd e \<in> set (map ?upd ?r)" "cp_pid (?upd e) = pid"
    by simp_all
  then have 1: "pid \<in> cp_pid ` set (map ?upd ?r)"
    by (intro rev_image_eqI[where x = "?upd e"]) simp_all
  have 2: "\<forall>e'\<in>set (map ?upd ?r). cp_pid e' = pid \<longrightarrow> cp_listener e' = None"
  proof
    fix e' assume "e' \<in> set (map ?upd ?r)"
    then have "e' \<in> ?upd ` set ?r" by (simp only: set_map)
    then obtain e0 where "e' = ?upd e0" by (rule imageE)
    then show "cp_pid e' = pid \<longrightarrow> cp_listener e' = None" by simp
  qed
  from 1 2 have "unl pid (map ?upd ?r)"
    unfolding unl_def by (rule conjI)
  then show ?thesis
    by (simp add: unlistened_unl Registry_Kill_reg)
qed

lemma unlistened_Registry_Add:
  "unlistened pid s \<Longrightarrow> unlistened pid (Registry_Add pid' nm l s)"
proof (cases "pid' = pid")
  case True
  assume u: "unlistened pid s"
  then have "find (\<lambda>c. cp_pid c = pid) (reg_children (child_process_registry s)) \<noteq> None"
    by (auto simp: unlistened_unl unl_def find_None_iff)
  with True u show ?thesis
    by (simp add: Registry_Add_def Let_def)
next
  case False
  assume "unlistened pid s"
  with False show ?thesis
    by (auto simp: unlistened_unl unl_def Registry_Add_def Let_def)
qed

lemma unlistened_dispose_children:
  "unlistened pid s \<Longrightarrow> unlistened pid (dispose_children cs s)"
  by (induction cs arbitrary: s) (simp_all add: unlistened_Registry_Kill)

lemma unlistened_Quit [simp]: "unlistened pid (Quit s) = unlistened pid s"
  by (simp add: unlistened_unl Quit_def SetVolatile_def CheckVolatileEvent_def)

lemma unlistened_connections_update [simp]:
  "unlistened pid (s\<lparr>connections := cs\<rparr>) = unlistened pid s"
  by (simp add: unlistened_unl)

lemma unlistened_RemoveConnection:
  "unlistened pid s \<Longrightarrow> unlistened pid (RemoveConnection fd s)"
  by (cases "find_connection fd s")
     (simp_all add: RemoveConnection_def Let_def SpawnServerConnection_destroy_def
        unlistened_dispose_children)

lemma unlistened_SendExit:
  "unlistened pid s \<Longrightarrow> unlistened pid (SendExit E fd i st s)"
  by (simp add: SendExit_def Let_def unlistened_RemoveConnection split: send_result.splits)


lemma unlistened_SpawnChild:
  "unlistened pid s \<Longrightarrow> unlistened pid (SpawnChild E fd i nm p s)"
  by (simp add: SpawnChild_def Let_def unlistened_SendExit unlistened_Registry_Add
        split: prod.splits option.splits)

lemma unlistened_HandleExecMessage:
  assumes u: "unlistened pid s" and h: "HandleExecMessage P E fd pl fds s = Inr s'"
  shows "unlistened pid s'"
proof -
  from h obtain i nm p where "s' = SpawnChild E fd i nm p s"
    by (auto simp: HandleExecMessage_def bindE_def split: sum.splits)
  with u show ?thesis by (simp add: unlistened_SpawnChild)
qed

lemma unlistened_HandleKillMessage:
  assumes u: "unlistened pid s" and h: "HandleKillMessage fd pl fds s = Inr s'"
  shows "unlistened pid s'"
proof -
  from h have "s' = s \<or> (\<exists>child i signo. s' = emit [EvDeleteChild child]
                        (Registry_Kill (child_pid child) signo
                           (update_children fd (erase_child i) s)))"
    by (fastforce simp: HandleKillMessage_def bindE_def split: sum.splits if_splits option.splits)
  with u show ?thesis
    by (auto simp: unlistened_Registry_Kill)
qed

lemma unlistened_AddConnection [simp]: "unlistened pid (AddConnection fd s) = unlistened pid s"
  by (simp add: AddConnection_def)

lemma unlistened_HandleMessage:
  assumes u: "unlistened pid s" and h: "HandleMessage P E fd pl fds s = Inr s'"
  shows "unlistened pid s'"
proof (cases pl)
  case Nil
  with h show ?thesis by (simp add: HandleMessage_def)
next
  case (Cons b rest)
  show ?thesis
  proof (cases "request_command P b")
    case None
    with h Cons u show ?thesis by (simp add: HandleMessage_def)
  next
    case (Some c)
    show ?thesis
    proof (cases c)
      case CONNECT
      with h Cons Some have "\<exists>fd'. s' = AddConnection fd' s"
        by (auto simp: HandleMessage_def split: list.splits if_splits)
      with u show ?thesis by auto
    next
      case EXEC
      with h Cons Some have "HandleExecMessage P E fd rest fds s = Inr s'"
        by (simp add: HandleMessage_def)
      with u show ?thesis by (rule unlistened_HandleExecMessage)
    next
      case KILL
      with h Cons Some have "HandleKillMessage fd rest fds s = Inr s'"
        by (simp add: HandleMessage_def)
      with u show ?thesis by (rule unlistened_HandleKillMessage)
    qed
  qed
qed

lemma unlistened_ReadEventCallback:
  assumes u: "unlistened pid s" and h: "ReadEventCallback P E fd received s = Inr s'"
  shows "unlistened pid s'"
proof (cases received)
  case None
  with h have "s' = RemoveConnection fd (emit [EvLog 2] s)"
    by (simp add: ReadEventCallback_def)
  with u show ?thesis by (simp add: unlistened_RemoveConnection)
next
  case (Some r)
  obtain payload fds where r: "r = (payload, fds)" by (cases r)
  show ?thesis
  proof (cases "take 8192 payload = []")
    case True
    with h Some r have "s' = RemoveConnection fd s"
      by (simp add: ReadEventCallback_def)
    with u show ?thesis by (simp add: unlistened_RemoveConnection)
  next
    case False
    show ?thesis
    proof (cases "HandleMessage P E fd (take 8192 payload) fds s")
      case (Inr s1)
      with h Some r False have "s' = s1"
        by (simp add: ReadEventCallback_def)
      with u Inr show ?thesis by (simp add: unlistened_HandleMessage)
    next
      case (Inl e)
      with h Some r False have "s' = emit [EvLog 3] s"
        by (cases e) (simp_all add: ReadEventCallback_def)
      with u show ?thesis by simp
    qed
  qed
qed

lemma unlistened_OnChildProcessExit:
  "unlistened pid s \<Longrightarrow> unlistened pid (OnChildProcessExit E fd st child s)"
  by (simp add: OnChildProcessExit_def unlistened_SendExit)

lemma unlistened_filter_other:
  assumes "unlistened pid s" and "pid' \<noteq> pid"
  shows "unlistened pid
           (s\<lparr>child_process_registry := (child_process_registry s)
                \<lparr>reg_children := filter (\<lambda>c. cp_pid c \<noteq> pid')
                                    (reg_children (child_process_registry s))\<rparr>\<rparr>)"
  using assms by (auto simp: unlistened_unl unl_def)

lemma unlistened_Registry_OnExit:
  assumes "unlistened pid s" and "pid' \<noteq> pid"
  shows "unlistened pid (Registry_OnExit E pid' st s)"
proof (cases "find (\<lambda>c. cp_pid c = pid') (reg_children (child_process_registry s))")
  case None
  with assms show ?thesis by (simp add: Registry_OnExit_def)
next
  case (Some c)
  define s1 where "s1 = (case cp_listener c of None \<Rightarrow> s
                         | Some (fd, child) \<Rightarrow> OnChildProcessExit E fd st child s)"
  have "unlistened pid s1"
    using assms(1) by (simp add: s1_def unlistened_OnChildProcessExit split: option.splits)
  from unlistened_filter_other[OF this assms(2)] Some show ?thesis
    by (simp add: Registry_OnExit_def Let_def s1_def)
qed

lemma unlistened_reap_all:
  "unlistened pid s \<Longrightarrow> pid \<notin> set (map (\<lambda>(E, pid, status). pid) reaped) \<Longrightarrow>
   unlistened pid (reap_all reaped s)"
proof (induction reaped arbitrary: s)
  case Nil
  then show ?case by simp
next
  case (Cons r reaped)
  obtain E pid' st where r: "r = (E, pid', st)" by (cases r)
  with Cons.prems have ne: "pid' \<noteq> pid" and rest: "pid \<notin> set (map (\<lambda>(E, pid, status). pid) reaped)"
    by auto
  from Cons.IH[OF unlistened_Registry_OnExit[OF Cons.prems(1) ne] rest] r show ?case
    by simp
qed

lemma unlistened_OnSigChld:
  "unlistened pid s \<Longrightarrow> pid \<notin> set (map (\<lambda>(E, pid, status). pid) reaped) \<Longrightarrow>
   unlistened pid (OnSigChld reaped s)"
proof -
  assume a: "unlistened pid s" "pid \<notin> set (map (\<lambda>(E, pid, status). pid) reaped)"
  have "unlistened pid (reap_all reaped s)"
    using a by (rule unlistened_reap_all)
  then show ?thesis
    by (auto simp: OnSigChld_def Let_def unlistened_unl CheckVolatileEvent_def unl_def)
qed

lemma unlistened_server_step:
  "unlistened pid s \<Longrightarrow> pid \<notin> set (reaped_pids ev) \<Longrightarrow> server_step P ev s = Inr s' \<Longrightarrow>
   unlistened pid s'"
  by (cases ev) (auto simp: unlistened_ReadEventCallback unlistened_OnSigChld)

lemma unlistened_run_server:
  "unlistened pid s \<Longrightarrow> \<forall>ev\<in>set evs. pid \<notin> set (reaped_pids ev) \<Longrightarrow>
   run_server P evs s = Inr s' \<Longrightarrow> unlistened pid s'"
proof (induction evs arbitrary: s)
  case Nil
  then show ?case by simp
next
  case (Cons ev evs)
  from Cons.prems(3) obtain s1 where s1: "server_step P ev s = Inr s1"
    and r: "run_server P evs s1 = Inr s'"
    by (auto split: sum.splits)
  from Cons.prems(2) have "pid \<notin> set (reaped_pids ev)" by simp
  from unlistened_server_step[OF Cons.prems(1) this s1] have "unlistened pid s1" .
  from Cons.IH[OF this _ r] Cons.prems(2) show ?case by simp
qed

lemma unlistened_reap_silent:
  assumes "unlistened pid s"
  shows "trace (Registry_OnExit E pid st s) = trace s"
proof (cases "find (\<lambda>c. cp_pid c = pid) (reg_children (child_process_registry s))")
  case None
  then show ?thesis by (simp add: Registry_OnExit_def)
next
  case (Some c)
  then have "c \<in> set (reg_children (child_process_registry s))" "cp_pid c = pid"
    by (auto simp: find_Some_iff)
  with assms have "cp_listener c = None"
    by (auto simp: unlistened_unl unl_def)
  with Some show ?thesis
    by (simp add: Registry_OnExit_def Let_def)
qed

text \<open>
  Claim C10 as stated fails on the order: handling KILL for child 5 (pid 100)
  of the example server signals the process first and deletes the child
  object afterwards.
\<close>

theorem kill_destroys_after_signal_counterexample:
  "HandleKillMessage 3 [5, 0, 0, 0, 15, 0, 0, 0] [] example_process =
     Inr (emit [EvDeleteChild example_child5]
            (Registry_Kill 100 15 (update_children 3 (erase_child 5) example_process))) \<and>
   trace (emit [EvDeleteChild example_child5]
            (Registry_Kill 100 15 (update_children 3 (erase_child 5) example_process))) =
     [EvKill 100 15, EvDeleteChild example_child5] \<and>
   \<not> happens_before (EvDeleteChild example_child5) (EvKill 100 15)
       [EvKill 100 15, EvDeleteChild example_child5] \<and>
   happens_before (EvKill 100 15) (EvDeleteChild example_child5)
       [EvKill 100 15, EvDeleteChild example_child5]"
proof -
  have f: "find_child 5 (children_of 3 example_process) = Some example_child5"
    by (simp add: example_children_of find_child_def example_child5_def)
  have p: "child_pid example_child5 = 100"
    by (simp add: example_child5_def)
  let ?s' = "emit [EvDeleteChild example_child5]
               (Registry_Kill 100 15 (update_children 3 (erase_child 5) example_process))"
  have h: "HandleKillMessage 3 [5, 0, 0, 0, 15, 0, 0, 0] [] example_process = Inr ?s'"
    using f p by (simp add: HandleKillMessage_found[OF kill_payload_example(2)])
  have t: "trace ?s' = [EvKill 100 15, EvDeleteChild example_child5]"
    by (simp add: update_children_def example_process_def)
  have "\<not> happens_before (EvDeleteChild example_child5) (EvKill 100 15)
         [EvKill 100 15, EvDeleteChild example_child5]"
    "happens_before (EvKill 100 15) (EvDeleteChild example_child5)
         [EvKill 100 15, EvDeleteChild example_child5]"
    by (simp_all add: happens_before_def)
  with h t show ?thesis by blast
qed

text \<open>
  Claim C10, amended.  A well-formed KILL command for an id that is in the
  connection's set of children erases that child from the set, then has the
  registry signal the process (which clears the listener of its registry
  entry), and destroys the child object after that, in this order.  The pid
  stays registered.  When the process is reaped, at once or after any run of
  the event loop that does not reap it, the trace does not grow: no EXIT
  frame is sent for it.
\<close>

theorem kill_known_id_unregisters:
  assumes "kill_payload payload i signo"
    and "find_child i (children_of fd s) = Some child"
  shows "\<exists>s'. HandleKillMessage fd payload [] s = Inr s' \<and>
           find_child i (children_of fd s') = None \<and>
           trace s' = trace s @ [EvKill (child_pid child) signo, EvDeleteChild child] \<and>
           registered_pids s' = registered_pids s \<and>
           (\<forall>E status. trace (Registry_OnExit E (child_pid child) status s') = trace s') \<and>
           (child_pid child \<in> set (registered_pids s) \<longrightarrow>
              (\<forall>P evs s'' E status.
                 (\<forall>ev\<in>set evs. child_pid child \<notin> set (reaped_pids ev)) \<and>
                 run_server P evs s' = Inr s'' \<longrightarrow>
                 trace (Registry_OnExit E (child_pid child) status s'') = trace s''))"
proof -
  let ?s' = "emit [EvDeleteChild child]
               (Registry_Kill (child_pid child) signo (update_children fd (erase_child i) s))"
  have h: "HandleKillMessage fd payload [] s = Inr ?s'"
    using assms by (simp add: HandleKillMessage_found)
  have c: "find_child i (children_of fd ?s') = None"
    by (cases "find_connection fd s") (simp_all add: children_of_update_children, simp add: find_child_def)
  have t: "trace ?s' = trace s @ [EvKill (child_pid child) signo, EvDeleteChild child]"
    by (simp add: update_children_def)
  have r: "registered_pids ?s' = registered_pids s"
    by (simp add: update_children_def registered_pids_def Registry_Kill_reg comp_def)
  have e: "\<forall>E status. trace (Registry_OnExit E (child_pid child) status ?s') = trace ?s'"
    using Registry_OnExit_after_Kill by blast
  have f: "child_pid child \<in> set (registered_pids s) \<longrightarrow>
              (\<forall>P evs s'' E status.
                 (\<forall>ev\<in>set evs. child_pid child \<notin> set (reaped_pids ev)) \<and>
                 run_server P evs ?s' = Inr s'' \<longrightarrow>
                 trace (Registry_OnExit E (child_pid child) status s'') = trace s'')"
  proof (intro impI allI)
    fix P evs s'' E status
    assume reg: "child_pid child \<in> set (registered_pids s)"
      and run: "(\<forall>ev\<in>set evs. child_pid child \<notin> set (reaped_pids ev)) \<and>
                 run_server P evs ?s' = Inr s''"
    from reg have "child_pid child \<in> set (registered_pids (update_children fd (erase_child i) s))"
      by (simp add: registered_pids_def update_children_def)
    then have "unlistened (child_pid child) ?s'"
      by (simp add: unlistened_after_Kill)
    with run have "unlistened (child_pid child) s''"
      using unlistened_run_server by blast
    then show "trace (Registry_OnExit E (child_pid child) status s'') = trace s''"
      by (rule unlistened_reap_silent)
  qed
  from h c t r e f show ?thesis by blast
qed

theorem kill_known_id_unregisters_witness:
  "kill_payload [5, 0, 0, 0, 15, 0, 0, 0] 5 15 \<and>
   find_child 5 (children_of 3 example_process) = Some example_child5 \<and>
   100 \<in> set (registered_pids example_process) \<and>
   HandleKillMessage 3 [5, 0, 0, 0, 15, 0, 0, 0] [] example_process =
     Inr (emit [EvDeleteChild example_child5]
            (Registry_Kill 100 15 (update_children 3 (erase_child 5) example_process))) \<and>
   find_child 5 (children_of 3
     (emit [EvDeleteChild example_child5]
        (Registry_Kill 100 15 (update_children 3 (erase_child 5) example_process)))) = None \<and>
   trace (Registry_OnExit env_ok 100 15
     (emit [EvDeleteChild example_child5]
        (Registry_Kill 100 15 (update_children 3 (erase_child 5) example_process)))) =
     [EvKill 100 15, EvDeleteChild example_child5] \<and>
   trace (Registry_OnExit env_ok 100 15 (OnSigChld [(env_ok, 101, 0)]
     (emit [EvDeleteChild example_child5]
        (Registry_Kill 100 15 (update_children 3 (erase_child 5) example_process))))) =
   trace (OnSigChld [(env_ok, 101, 0)]
     (emit [EvDeleteChild example_child5]
        (Registry_Kill 100 15 (update_children 3 (erase_child 5) example_process))))"
proof -
  let ?k = "emit [EvDeleteChild example_child5]
              (Registry_Kill 100 15 (update_children 3 (erase_child 5) example_process))"
  have f: "find_child 5 (children_of 3 example_process) = Some example_child5"
    by (simp add: example_children_of find_child_def example_child5_def)
  have t0: "trace example_process = []" "registered_pids example_process = [100, 101]"
    "child_pid example_child5 = 100"
    by (simp_all add: example_process_def registered_pids_def example_child5_def)
  have hk: "HandleKillMessage 3 [5, 0, 0, 0, 15, 0, 0, 0] [] example_process = Inr ?k"
    using f t0 by (simp add: HandleKillMessage_found[OF kill_payload_example(2)])
  from kill_known_id_unregisters[OF kill_payload_example(2) f] obtain s' where
    s': "HandleKillMessage 3 [5, 0, 0, 0, 15, 0, 0, 0] [] example_process = Inr s'"
      "find_child 5 (children_of 3 s') = None"
      "trace s' = trace example_process @ [EvKill (child_pid example_child5) 15, EvDeleteChild example_child5]"
      "\<forall>E status. trace (Registry_OnExit E (child_pid example_child5) status s') = trace s'"
      "child_pid example_child5 \<in> set (registered_pids example_process) \<longrightarrow>
              (\<forall>P evs s'' E status.
                 (\<forall>ev\<in>set evs. child_pid example_child5 \<notin> set (reaped_pids ev)) \<and>
                 run_server P evs s' = Inr s'' \<longrightarrow>
                 trace (Registry_OnExit E (child_pid example_child5) status s'') = trace s'')"
    by blast
  from s'(1) hk have eq: "s' = ?k" by simp
  from s'(4) have a: "trace (Registry_OnExit env_ok (child_pid example_child5) 15 s') = trace s'"
    by blast
  have reg: "child_pid example_child5 \<in> set (registered_pids example_process)"
    using t0 by simp
  have run: "(\<forall>ev\<in>set [SigChld [(env_ok, 101, 0)]]. child_pid example_child5 \<notin> set (reaped_pids ev)) \<and>
     run_server example_protocol [SigChld [(env_ok, 101, 0)]] s' = Inr (OnSigChld [(env_ok, 101, 0)] s')"
    using t0 by simp
  from s'(5) reg run have b:
    "trace (Registry_OnExit env_ok (child_pid example_child5) 15 (OnSigChld [(env_ok, 101, 0)] s')) =
       trace (OnSigChld [(env_ok, 101, 0)] s')"
    by blast
  from s'(2,3) a b t0 show ?thesis
    unfolding eq using f kill_payload_example(2) hk by simp
qed

section \<open>Decoding EXEC payloads\<close>

lemma example_request_command [simp]:
  "request_command example_protocol 0 = Some CONNECT"
  "request_command example_protocol 1 = Some EXEC"
  "request_command example_protocol 2 = Some KILL"
  by (simp_all add: example_protocol_def nth_option_def)

lemma example_exec_command [simp]:
  "exec_command example_protocol 3 = Some STDIN"
  "exec_command example_protocol 8 = Some TTY"
  "exec_command example_protocol 25 = Some UID_GID"
  "exec_command example_protocol 255 = None"
  by (simp_all add: example_protocol_def nth_option_def exec_commands_in_order_def)

lemma example_proto_limits [simp]: "proto_limits example_protocol = example_limits"
  by (simp add: example_protocol_def)

lemma ReadInt_7 [simp]: "ReadInt (7 # 0 # 0 # 0 # rest) = Inr (7, rest)"
  by (simp add: ReadInt_def ReadT_def bindE_def le_int32_small)

lemma ReadString_empty [simp]: "ReadString (0 # rest) = Inr ([], rest)"
  by (simp add: ReadString_def)

lemma ReadString_x [simp]: "ReadString (120 # 0 # rest) = Inr ([120], rest)"
  by (simp add: ReadString_def)

text \<open>
  Claim C3 as stated fails: an EXEC payload with id 7, name \<open>x\<close>, the octet
  255 (the value of no sub-command) and then \<^verbatim>\<open>TTY\<close> is decoded without an
  error; the unknown octet is skipped, \<open>tty\<close> is set, and the request reaches
  \<^verbatim>\<open>SpawnChild\<close>.
\<close>

theorem unknown_subcommand_skipped_counterexample:
  "exec_command example_protocol 255 = None \<and>
   HandleExecMessage example_protocol env_ok 3 [7, 0, 0, 0, 120, 0, 255, 8] [] example_process =
     Inr (SpawnChild env_ok 3 7 [120]
            ((PreparedChildProcess_init example_limits)\<lparr>tty := True\<rparr>) example_process) \<and>
   ReadEventCallback example_protocol env_ok 3
       (Some ([1, 7, 0, 0, 0, 120, 0, 255, 8], [])) example_process =
     Inr (SpawnChild env_ok 3 7 [120]
            ((PreparedChildProcess_init example_limits)\<lparr>tty := True\<rparr>) example_process)"
proof -
  have l: "exec_loop example_protocol [255, 8] [] (PreparedChildProcess_init example_limits) =
             Inr ([], (PreparedChildProcess_init example_limits)\<lparr>tty := True\<rparr>)"
    by (simp add: exec_loop.simps)
  have h: "HandleExecMessage example_protocol env_ok 3 [7, 0, 0, 0, 120, 0, 255, 8] [] example_process =
     Inr (SpawnChild env_ok 3 7 [120]
            ((PreparedChildProcess_init example_limits)\<lparr>tty := True\<rparr>) example_process)"
    by (simp add: HandleExecMessage_def bindE_def l)
  have "ReadEventCallback example_protocol env_ok 3
       (Some ([1, 7, 0, 0, 0, 120, 0, 255, 8], [])) example_process =
     Inr (SpawnChild env_ok 3 7 [120]
            ((PreparedChildProcess_init example_limits)\<lparr>tty := True\<rparr>) example_process)"
    by (simp add: ReadEventCallback_def HandleMessage_def h)
  with h show ?thesis by simp
qed

text \<open>
  Claim C3, amended.  When the decoding loop of an EXEC payload meets an octet
  that is the value of no \<^verbatim>\<open>SpawnExecCommand\<close> enumerator where it expects a
  sub-command, it consumes that one octet, changes nothing and goes on
  decoding with the next octet; the datagram is not rejected on that account.
\<close>

theorem unknown_subcommand_skipped:
  assumes "exec_command P b = None"
  shows "exec_loop P (b # bs) fds p = exec_loop P bs fds p \<and>
         (ReadInt payload = Inr (i, pl1) \<and> ReadString pl1 = Inr (nm, b # bs) \<longrightarrow>
            HandleExecMessage P E fd payload fds s =
              bindE (exec_loop P bs fds (PreparedChildProcess_init (proto_limits P)))
                (\<lambda>(fds', p). Inr (SpawnChild E fd i nm p s)))"
  using assms by (simp add: exec_loop.simps HandleExecMessage_def bindE_def)

theorem unknown_subcommand_skipped_witness:
  "exec_command example_protocol 255 = None \<and>
   exec_loop example_protocol [255, 8] [] (PreparedChildProcess_init example_limits) =
     Inr ([], (PreparedChildProcess_init example_limits)\<lparr>tty := True\<rparr>)"
proof -
  have n: "exec_command example_protocol 255 = None" by simp
  have "exec_loop example_protocol [8] [] (PreparedChildProcess_init example_limits) =
     Inr ([], (PreparedChildProcess_init example_limits)\<lparr>tty := True\<rparr>)"
    by (simp add: exec_loop.simps)
  with unknown_subcommand_skipped[OF n, of "[8]" "[]" "PreparedChildProcess_init example_limits"] n
  show ?thesis by simp
qed

section \<open>Malformed datagrams\<close>

lemma exec_steps_exec_loop:
  "exec_steps P n pl fds p = Inr (pl', fds', p') \<Longrightarrow>
   exec_loop P pl fds p = exec_loop P pl' fds' p'"
proof (induction n arbitrary: pl fds p)
  case 0
  then show ?case by simp
next
  case (Suc n)
  show ?case
  proof (cases pl)
    case Nil
    with Suc.prems show ?thesis by simp
  next
    case (Cons b bs)
    show ?thesis
    proof (cases "exec_command P b")
      case None
      with Suc.prems Cons have "exec_steps P n bs fds p = Inr (pl', fds', p')" by simp
      from Suc.IH[OF this] None Cons show ?thesis by (simp add: exec_loop.simps)
    next
      case (Some cmd)
      show ?thesis
      proof (cases "HandleExecCommand (proto_limits P) cmd bs fds p")
        case (Inl e)
        with Suc.prems Cons Some show ?thesis by simp
      next
        case (Inr r)
        obtain pl1 fds1 p1 where r: "r = (pl1, fds1, p1)" by (cases r) auto
        from Suc.prems Cons Some Inr r
        have "exec_steps P n pl1 fds1 p1 = Inr (pl', fds', p')" by simp
        from Suc.IH[OF this] Cons Some Inr r show ?thesis by (simp add: exec_loop.simps)
      qed
    qed
  qed
qed

lemma exec_loop_defect:
  assumes "exec_command P b = Some c"
    and "HandleExecCommand (proto_limits P) c bs fds p = Inl e"
  shows "exec_loop P (b # bs) fds p = Inl e"
  using assms by (simp add: exec_loop.simps)

lemma ReadGroups_short:
  "length pl < 4 * k \<Longrightarrow> ReadGroups k i pl gs = Inl MalformedSpawnPayloadError"
proof (induction k arbitrary: i pl gs)
  case 0
  then show ?case by simp
next
  case (Suc k)
  show ?case
  proof (cases "length pl < 4")
    case True
    then show ?thesis by (simp add: ReadT_def)
  next
    case False
    with Suc.prems have "length (drop 4 pl) < 4 * k" by simp
    from Suc.IH[OF this] False show ?thesis by (simp add: ReadT_def)
  qed
qed

lemma ReadString_short: "0 \<notin> set pl \<Longrightarrow> ReadString pl = Inl MalformedSpawnPayloadError"
  by (simp add: ReadString_def)

lemma ReadString_skip:
  "0 \<in> set pl \<Longrightarrow>
   ReadString pl = Inr (takeWhile (\<lambda>b. b \<noteq> 0) pl, tl (dropWhile (\<lambda>b. b \<noteq> 0) pl))"
  by (simp add: ReadString_def)

lemma read_string_into_short:
  "skip_fields [FString] pl = None \<Longrightarrow>
   read_string_into f pl fds p = Inl MalformedSpawnPayloadError"
  by (simp add: read_string_into_def ReadString_def bindE_def split: if_splits)

lemma two_strings_short:
  "skip_fields [FString, FString] pl = None \<Longrightarrow>
   bindE (ReadString pl) (\<lambda>(s1, pl1). bindE (ReadString pl1) (\<lambda>(s2, pl2). Inr (g s1 s2 pl2)))
     = Inl MalformedSpawnPayloadError"
  by (simp add: ReadString_def bindE_def split: if_splits)

lemma two_bytes_short:
  assumes "skip_fields [FBytes 1, FBytes 1] pl = None"
  shows "(case ReadByte pl of Inl e \<Rightarrow> Inl e
          | Inr (w, pl3) \<Rightarrow>
              (case ReadByte pl3 of Inl e \<Rightarrow> Inl e | Inr (x, pl4) \<Rightarrow> Inr (h w x pl4)))
         = Inl MalformedSpawnPayloadError"
proof (cases pl)
  case Nil
  then show ?thesis by (simp add: ReadByte_def)
next
  case (Cons w pl3)
  with assms have "pl3 = []" by (simp split: if_splits)
  with Cons show ?thesis by (simp add: ReadByte_def)
qed

lemma Read_ResourceLimits_short:
  assumes "bs = [] \<or> (unat (hd bs) < n_rlimits L \<and> length bs < 17)"
  shows "Read_ResourceLimits L bs rl = Inl MalformedSpawnPayloadError"
proof (cases bs)
  case Nil
  then show ?thesis by (simp add: Read_ResourceLimits_def ReadByte_def bindE_def)
next
  case (Cons b bs')
  with assms have "unat b < n_rlimits L" "length bs' < 16" by auto
  with Cons show ?thesis
    by (simp add: Read_ResourceLimits_def ReadByte_def ReadT_def bindE_def)
qed

lemma Read_UidGid_header:
  assumes "9 \<le> length bs"
  shows "Read_UidGid L bs ug =
     (let n_groups = unat (bs ! 8) in
      if n_groups > max_groups L then Inl MalformedSpawnPayloadError
      else bindE (ReadGroups n_groups 0 (drop 9 bs) (groups ug)) (\<lambda>(pl4, gs).
        Inr (pl4, ug\<lparr>uid := le_nat (take 4 bs), gid := le_nat (take 4 (drop 4 bs)),
                      groups := (if n_groups < max_groups L then gs[n_groups := 0] else gs)\<rparr>)))"
proof -
  from assms have "8 < length bs" by simp
  from Cons_nth_drop_Suc[OF this] have "drop 8 bs = bs ! 8 # drop 9 bs" by simp
  moreover from assms have "\<not> length bs < 4" "\<not> length bs - 4 < 4" by simp_all
  ultimately show ?thesis
    by (simp add: Read_UidGid_def ReadT_def ReadByte_def bindE_def Let_def)
qed

lemma Read_UidGid_short:
  assumes "length bs < 9 \<or> (unat (bs ! 8) \<le> max_groups L \<and> length bs < 9 + 4 * unat (bs ! 8))"
  shows "Read_UidGid L bs ug = Inl MalformedSpawnPayloadError"
proof (cases "length bs < 9")
  case True
  show ?thesis
  proof (cases "length bs < 8")
    case lt8: True
    show ?thesis
    proof (cases "length bs < 4")
      case True
      then show ?thesis by (simp add: Read_UidGid_def ReadT_def bindE_def)
    next
      case False
      with lt8 have "length (drop 4 bs) < 4" by simp
      with False show ?thesis by (simp add: Read_UidGid_def ReadT_def bindE_def)
    qed
  next
    case False
    with \<open>length bs < 9\<close> have "drop 8 bs = []" by simp
    with False show ?thesis by (simp add: Read_UidGid_def ReadT_def ReadByte_def bindE_def)
  qed
next
  case False
  with assms have le: "unat (bs ! 8) \<le> max_groups L"
    and "length (drop 9 bs) < 4 * unat (bs ! 8)" by auto
  from ReadGroups_short[OF this(2)] le False show ?thesis
    by (simp add: Read_UidGid_header bindE_def Let_def)
qed

lemma Read_UidGid_too_many:
  assumes "9 \<le> length bs" and "unat (bs ! 8) > max_groups L"
  shows "Read_UidGid L bs ug = Inl MalformedSpawnPayloadError"
  using assms by (simp add: Read_UidGid_header Let_def)

lemma reads_past_end_malformed:
  assumes "reads_past_end L c bs"
  shows "HandleExecCommand L c bs fds p = Inl MalformedSpawnPayloadError"
proof (cases c)
  case RLIMIT
  with assms show ?thesis
    by (simp add: reads_past_end_def Read_ResourceLimits_short bindE_def)
next
  case UID_GID
  with assms show ?thesis
    by (simp add: reads_past_end_def Read_UidGid_short bindE_def)
next
  case BIND_MOUNT
  with assms have sk: "skip_fields [FString, FString, FBytes 1, FBytes 1] bs = None"
    by (simp add: reads_past_end_def)
  show ?thesis
  proof (cases "0 \<in> set bs")
    case False
    with BIND_MOUNT show ?thesis by (simp add: ReadString_short bindE_def)
  next
    case first: True
    let ?pl1 = "tl (dropWhile (\<lambda>b. b \<noteq> 0) bs)"
    show ?thesis
    proof (cases "0 \<in> set ?pl1")
      case False
      with BIND_MOUNT first show ?thesis
        by (simp add: ReadString_skip ReadString_short bindE_def)
    next
      case True
      with sk first
      have "skip_fields [FBytes 1, FBytes 1] (tl (dropWhile (\<lambda>b. b \<noteq> 0) ?pl1)) = None"
        by simp
      from two_bytes_short[OF this] BIND_MOUNT first True show ?thesis
        by (simp add: ReadString_skip bindE_def)
    qed
  qed
qed (use assms in \<open>simp_all add: reads_past_end_def read_string_into_short two_strings_short
      ReadString_def ReadT_def ReadInt_def bindE_def split: if_splits\<close>)

lemma fd_when_none_remain_malformed:
  assumes "fd_when_none_remain c fds"
  shows "HandleExecCommand L c bs fds p = Inl MalformedSpawnPayloadError"
  using assms by (auto simp: fd_when_none_remain_def get_fd_into_def Get_def bindE_def)

lemma overlong_group_count_malformed:
  assumes "overlong_group_count L c bs"
  shows "HandleExecCommand L c bs fds p = Inl MalformedSpawnPayloadError"
  using assms by (simp add: overlong_group_count_def Read_UidGid_too_many bindE_def)

lemma sub_command_defect_malformed:
  assumes "sub_command_defect L c bs fds"
  shows "HandleExecCommand L c bs fds p = Inl MalformedSpawnPayloadError"
  using assms reads_past_end_malformed overlong_group_count_malformed
    fd_when_none_remain_malformed
  unfolding sub_command_defect_def by blast

lemma ReadInt_short: "length pl < 4 \<Longrightarrow> ReadInt pl = Inl MalformedSpawnPayloadError"
  by (simp add: ReadInt_def ReadT_def bindE_def)

lemma ReadInt_drop:
  "\<not> length pl < 4 \<Longrightarrow> ReadInt pl = Inr (le_int32 (take 4 pl), drop 4 pl)"
  by (simp add: ReadInt_def ReadT_def bindE_def)

lemma exec_defect_malformed:
  assumes "exec_defect P n body fds"
  shows "HandleExecMessage P E fd body fds s = Inl MalformedSpawnPayloadError"
proof (cases "length body < 4")
  case True
  then show ?thesis by (simp add: HandleExecMessage_def ReadInt_short bindE_def)
next
  case long: False
  show ?thesis
  proof (cases "0 \<in> set (drop 4 body)")
    case False
    with long show ?thesis
      by (simp add: HandleExecMessage_def ReadInt_drop ReadString_short bindE_def)
  next
    case True
    let ?pl2 = "tl (dropWhile (\<lambda>b. b \<noteq> 0) (drop 4 body))"
    let ?p0 = "PreparedChildProcess_init (proto_limits P)"
    from assms long True obtain b bs fds' p' c where
      steps: "exec_steps P n ?pl2 fds ?p0 = Inr (b # bs, fds', p')"
      and cmd: "exec_command P b = Some c"
      and defect: "sub_command_defect (proto_limits P) c bs fds'"
      by (auto simp: exec_defect_def split: sum.splits list.splits option.splits)
    from exec_loop_defect[OF cmd sub_command_defect_malformed[OF defect]]
      exec_steps_exec_loop[OF steps]
    have "exec_loop P ?pl2 fds ?p0 = Inl MalformedSpawnPayloadError" by simp
    with long True show ?thesis
      by (simp add: HandleExecMessage_def ReadInt_drop ReadString_skip bindE_def)
  qed
qed

lemma kill_short_malformed:
  assumes "length body < 8"
  shows "HandleKillMessage fd body fds s = Inl MalformedSpawnPayloadError"
proof (cases "length body < 4")
  case True
  then show ?thesis by (simp add: HandleKillMessage_def ReadInt_short bindE_def)
next
  case False
  with assms have "length (drop 4 body) < 4" by simp
  with False show ?thesis
    by (simp add: HandleKillMessage_def ReadInt_drop ReadInt_short bindE_def)
qed

lemma datagram_defect_malformed:
  assumes "datagram_defect P n dg fds"
  shows "HandleMessage P E fd dg fds s = Inl MalformedSpawnPayloadError"
proof (cases dg)
  case Nil
  with assms show ?thesis by (simp add: datagram_defect_def)
next
  case (Cons b body)
  show ?thesis
  proof (cases "request_command P b")
    case None
    with assms Cons show ?thesis by (simp add: datagram_defect_def)
  next
    case (Some rc)
    show ?thesis
    proof (cases rc)
      case CONNECT
      with assms Cons Some show ?thesis by (simp add: datagram_defect_def)
    next
      case EXEC
      with assms Cons Some have "exec_defect P n body fds" by (simp add: datagram_defect_def)
      from exec_defect_malformed[OF this] Cons Some EXEC show ?thesis
        by (simp add: HandleMessage_def)
    next
      case KILL
      with assms Cons Some have "length body < 8" by (simp add: datagram_defect_def)
      from kill_short_malformed[OF this] Cons Some KILL show ?thesis
        by (simp add: HandleMessage_def)
    qed
  qed
qed

lemma malformed_is_dropped:
  assumes "HandleMessage P E fd (take 8192 payload) fds s = Inl MalformedSpawnPayloadError"
  shows "ReadEventCallback P E fd (Some (payload, fds)) s = Inr (emit [EvLog 3] s)"
proof -
  have "take 8192 payload \<noteq> []"
    using assms by (auto simp: HandleMessage_def)
  with assms show ?thesis by (simp add: ReadEventCallback_def)
qed

text \<open>
  Claim C4.  A received datagram (the first 8192 octets of what was sent) has
  one of the three defects if its decoding reads past the end of the payload
  (in the header of an EXEC or KILL request, or in a sub-command of an EXEC
  request), or a \<^verbatim>\<open>UID_GID\<close> sub-command declares more supplementary groups
  than the maximum, or a sub-command asks for an attached descriptor when
  none remains; the defective sub-command may stand after any number \<open>n\<close> of
  iterations of the decoding loop.  For every such datagram the handling
  raises \<^verbatim>\<open>MalformedSpawnPayloadError\<close>; the datagram is dropped:
  \<^verbatim>\<open>ReadEventCallback\<close> returns normally and the state of the server is the
  one before the datagram but for the warning logged at level 3, so nothing is
  spawned, killed or sent, the connection is still among the connections, and
  the later events of the loop are handled from that state.
\<close>

theorem malformed_datagram_dropped:
  assumes "datagram_defect P n (take 8192 payload) fds"
  shows "HandleMessage P E fd (take 8192 payload) fds s = Inl MalformedSpawnPayloadError \<and>
         ReadEventCallback P E fd (Some (payload, fds)) s = Inr (emit [EvLog 3] s) \<and>
         trace (emit [EvLog 3] s) = trace s @ [EvLog 3] \<and>
         connections (emit [EvLog 3] s) = connections s \<and>
         child_process_registry (emit [EvLog 3] s) = child_process_registry s \<and>
         run_server P (Readable fd (Some (payload, fds)) E # evs) s =
           run_server P evs (emit [EvLog 3] s)"
proof -
  have a: "HandleMessage P E fd (take 8192 payload) fds s = Inl MalformedSpawnPayloadError"
    using assms by (rule datagram_defect_malformed)
  have b: "ReadEventCallback P E fd (Some (payload, fds)) s = Inr (emit [EvLog 3] s)"
    using a by (rule malformed_is_dropped)
  have c: "run_server P (Readable fd (Some (payload, fds)) E # evs) s =
           run_server P evs (emit [EvLog 3] s)"
    using b by simp
  have d: "trace (emit [EvLog 3] s) = trace s @ [EvLog 3]"
    "connections (emit [EvLog 3] s) = connections s"
    "child_process_registry (emit [EvLog 3] s) = child_process_registry s"
    by (simp_all add: emit_def)
  from a b c d show ?thesis by simp
qed

theorem malformed_datagram_dropped_witness:
  "ReadEventCallback example_protocol env_ok 3 (Some ([1, 7, 0], [])) example_process =
     Inr (emit [EvLog 3] example_process) \<and>
   ReadEventCallback example_protocol env_ok 3
     (Some ([1, 7, 0, 0, 0, 0, 8, 25, 232, 3, 0, 0, 232, 3, 0, 0, 33], [])) example_process =
     Inr (emit [EvLog 3] example_process) \<and>
   ReadEventCallback example_protocol env_ok 3
     (Some ([1, 7, 0, 0, 0, 0, 8, 3], [])) example_process =
     Inr (emit [EvLog 3] example_process) \<and>
   ReadEventCallback example_protocol env_ok 3
     (Some ([1, 7, 0, 0, 0, 0, 255, 8, 25, 232, 3, 0, 0], [])) example_process =
     Inr (emit [EvLog 3] example_process) \<and>
   ReadEventCallback example_protocol env_ok 3 (Some ([2, 5, 0, 0, 0, 15], [])) example_process =
     Inr (emit [EvLog 3] example_process) \<and>
   connections (emit [EvLog 3] example_process) = connections example_process"
proof -
  note defs = datagram_defect_def exec_defect_def sub_command_defect_def reads_past_end_def
    overlong_group_count_def fd_when_none_remain_def
  have h1: "datagram_defect example_protocol 0 (take 8192 [1, 7, 0]) []"
    by (simp add: defs)
  have h2: "datagram_defect example_protocol (Suc 0)
              (take 8192 [1, 7, 0, 0, 0, 0, 8, 25, 232, 3, 0, 0, 232, 3, 0, 0, 33]) []"
    by (simp add: defs example_limits_def)
  have h3: "datagram_defect example_protocol (Suc 0) (take 8192 [1, 7, 0, 0, 0, 0, 8, 3]) []"
    by (simp add: defs)
  have h4: "datagram_defect example_protocol (Suc (Suc 0))
              (take 8192 [1, 7, 0, 0, 0, 0, 255, 8, 25, 232, 3, 0, 0]) []"
    by (simp add: defs)
  have h5: "datagram_defect example_protocol 0 (take 8192 [2, 5, 0, 0, 0, 15]) []"
    by (simp add: defs)
  from malformed_datagram_dropped[OF h1, of env_ok 3 example_process]
    malformed_datagram_dropped[OF h2, of env_ok 3 example_process]
    malformed_datagram_dropped[OF h3, of env_ok 3 example_process]
    malformed_datagram_dropped[OF h4, of env_ok 3 example_process]
    malformed_datagram_dropped[OF h5, of env_ok 3 example_process]
  show ?thesis by blast
qed

end
